(* ===== verification/Base.thy ===== *)
theory Base
  imports Main "HOL-Library.Word" "HOL-Library.AList" "HOL-Library.Sublist"
begin

text \<open>
  Shared vocabulary of the development.

  \<^item> \<open>result\<close> is Rust's \<open>Result\<close> with a third constructor for a panic, so that every
    \<open>unwrap\<close>, \<open>expect\<close> and out-of-range slice of the source is a branch of the model.
  \<^item> The string functions of \<open>core::str\<close> that the sources call (\<open>split_once\<close>,
    \<open>split\<close>, \<open>strip_prefix\<close>, \<open>starts_with\<close>, \<open>trim\<close>, \<open>join\<close>, decimal \<open>Display\<close>
    and \<open>parse\<close>), over \<open>string\<close>, a list of bytes.
  \<^item> The lexical part of \<open>std::path\<close> on unix (\<open>join\<close>, \<open>components\<close>, \<open>file_name\<close>,
    \<open>file_stem\<close>, \<open>extension\<close>).
  \<^item> A locale for transition systems with an invariant, interpreted by every component
    that is a state machine.
\<close>

named_theorems res_simps \<open>computation rules of the result combinators\<close>
named_theorems str_simps \<open>computation rules of the string and path functions\<close>

section \<open>Results\<close>

datatype ('a, 'e) result = Ok 'a | Err 'e | Panic string

fun and_then :: "('a, 'e) result \<Rightarrow> ('a \<Rightarrow> ('b, 'e) result) \<Rightarrow> ('b, 'e) result" where
  "and_then (Ok a) f = f a"
| "and_then (Err e) f = Err e"
| "and_then (Panic m) f = Panic m"

fun map_err :: "('e \<Rightarrow> 'f) \<Rightarrow> ('a, 'e) result \<Rightarrow> ('a, 'f) result" where
  "map_err f (Ok a) = Ok a"
| "map_err f (Err e) = Err (f e)"
| "map_err f (Panic m) = Panic m"

fun ok_or :: "'e \<Rightarrow> 'a option \<Rightarrow> ('a, 'e) result" where
  "ok_or e None = Err e"
| "ok_or e (Some a) = Ok a"

fun ok :: "('a, 'e) result \<Rightarrow> 'a option" where
  "ok (Ok a) = Some a"
| "ok _ = None"

fun is_ok :: "('a, 'e) result \<Rightarrow> bool" where
  "is_ok (Ok _) = True"
| "is_ok _ = False"

fun is_err :: "('a, 'e) result \<Rightarrow> bool" where
  "is_err (Err _) = True"
| "is_err _ = False"

fun is_panic :: "('a, 'e) result \<Rightarrow> bool" where
  "is_panic (Panic _) = True"
| "is_panic _ = False"

text \<open>\<open>Result::and\<close>: the second result, unless the first one failed.\<close>

fun res_and :: "('a, 'e) result \<Rightarrow> ('b, 'e) result \<Rightarrow> ('b, 'e) result" where
  "res_and (Ok _) r = r"
| "res_and (Err e) r = Err e"
| "res_and (Panic m) r = Panic m"

text \<open>\<open>?\<close> on a step that also changes a state: the state so far is kept on every early return.\<close>

fun st_then :: "'s \<times> ('a, 'e) result \<Rightarrow> ('s \<Rightarrow> 'a \<Rightarrow> 's \<times> ('b, 'e) result) \<Rightarrow> 's \<times> ('b, 'e) result"
where
  "st_then (s, Ok a) f = f s a"
| "st_then (s, Err e) f = (s, Err e)"
| "st_then (s, Panic m) f = (s, Panic m)"

lemma and_then_eq_Ok [res_simps]:
  "and_then m f = Ok b \<longleftrightarrow> (\<exists>a. m = Ok a \<and> f a = Ok b)"
  by (cases m) auto

lemma and_then_eq_Err [res_simps]:
  "and_then m f = Err e \<longleftrightarrow> m = Err e \<or> (\<exists>a. m = Ok a \<and> f a = Err e)"
  by (cases m) auto

lemma and_then_assoc: "and_then (and_then m f) g = and_then m (\<lambda>a. and_then (f a) g)"
  by (cases m) auto

lemma map_err_eq_Ok [res_simps]: "map_err f m = Ok a \<longleftrightarrow> m = Ok a"
  by (cases m) auto

lemma ok_or_eq_Ok [res_simps]: "ok_or e x = Ok a \<longleftrightarrow> x = Some a"
  by (cases x) auto

lemma is_ok_iff: "is_ok r \<longleftrightarrow> (\<exists>a. r = Ok a)"
  by (cases r) auto

lemma ok_eq_Some [res_simps]: "ok r = Some a \<longleftrightarrow> r = Ok a"
  by (cases r) auto

lemma st_then_eq_Ok [res_simps]:
  "st_then p f = (s', Ok b) \<longleftrightarrow> (\<exists>s a. p = (s, Ok a) \<and> f s a = (s', Ok b))"
  by (cases p; cases "snd p") auto

lemma case_prod_eq: "(case p of (a, b) \<Rightarrow> f a b) = y \<longleftrightarrow> (\<exists>a b. p = (a, b) \<and> f a b = y)"
  by (cases p) auto

text \<open>A state predicate that both halves of \<open>?\<close> keep is kept by the whole.\<close>

lemma fst_st_then_inv:
  assumes "P (fst p)" and "\<And>s a. p = (s, Ok a) \<Longrightarrow> P (fst (f s a))"
  shows "P (fst (st_then p f))"
  using assms by (cases p; cases "snd p") auto

lemma fst_st_then_keep:
  assumes "P (fst p)" and "\<And>s a. P s \<Longrightarrow> P (fst (f s a))"
  shows "P (fst (st_then p f))"
  using assms by (cases p; cases "snd p") auto

section \<open>Machine integers\<close>

type_synonym u8 = "8 word"
type_synonym u32 = "32 word"
type_synonym i32 = "32 word"
type_synonym u64 = "64 word"

text \<open>\<open>as u32\<close> on an \<open>i32\<close> keeps the bits; both are \<open>32 word\<close> here, and \<open>sint\<close> reads the
  signed value.\<close>

section \<open>Strings\<close>

text \<open>\<open>str::split_once\<close> with a one-character pattern.\<close>

fun split_once :: "char \<Rightarrow> string \<Rightarrow> (string \<times> string) option" where
  "split_once c [] = None"
| "split_once c (x # xs) =
     (if x = c then Some ([], xs)
      else map_option (\<lambda>(a, b). (x # a, b)) (split_once c xs))"

text \<open>\<open>str::split\<close> with a one-character pattern: always at least one piece.\<close>

fun split_on :: "char \<Rightarrow> string \<Rightarrow> string list" where
  "split_on c [] = [[]]"
| "split_on c (x # xs) =
     (if x = c then [] # split_on c xs
      else (case split_on c xs of [] \<Rightarrow> [[x]] | p # ps \<Rightarrow> (x # p) # ps))"

text \<open>\<open>[String]::join\<close>.\<close>

fun join_with :: "string \<Rightarrow> string list \<Rightarrow> string" where
  "join_with sep [] = []"
| "join_with sep [p] = p"
| "join_with sep (p # q # ps) = p @ sep @ join_with sep (q # ps)"

fun strip_prefix :: "string \<Rightarrow> string \<Rightarrow> string option" where
  "strip_prefix [] s = Some s"
| "strip_prefix (p # ps) [] = None"
| "strip_prefix (p # ps) (x # xs) = (if p = x then strip_prefix ps xs else None)"

definition starts_with :: "string \<Rightarrow> string \<Rightarrow> bool" where
  "starts_with p s \<longleftrightarrow> strip_prefix p s \<noteq> None"

definition strip_suffix :: "string \<Rightarrow> string \<Rightarrow> string option" where
  "strip_suffix p s = map_option rev (strip_prefix (rev p) (rev s))"

definition is_ws :: "char \<Rightarrow> bool" where
  "is_ws c \<longleftrightarrow> c \<in> {CHR '' '', CHR 0x09, CHR 0x0A, CHR 0x0B, CHR 0x0C, CHR 0x0D}"

definition trim :: "string \<Rightarrow> string" where
  "trim s = rev (dropWhile is_ws (rev (dropWhile is_ws s)))"

lemma split_once_Some:
  "split_once c s = Some (a, b) \<longleftrightarrow> s = a @ c # b \<and> c \<notin> set a"
proof (induction s arbitrary: a)
  case (Cons x s)
  show ?case
  proof (cases a)
    case Nil
    then show ?thesis using Cons by (auto split: if_splits)
  next
    case (Cons y a')
    then show ?thesis using Cons.IH [of a'] by auto
  qed
qed simp

lemma split_once_None: "split_once c s = None \<longleftrightarrow> c \<notin> set s"
  by (induction s) auto

lemma split_on_not_Nil [simp]: "split_on c s \<noteq> []"
  by (induction s) (auto split: list.splits)

lemma split_on_append:
  "c \<notin> set k \<Longrightarrow> split_on c (k @ c # v) = k # split_on c v"
  by (induction k) auto

lemma split_on_none: "c \<notin> set k \<Longrightarrow> split_on c k = [k]"
  by (induction k) auto

text \<open>Splitting and joining on the same separator gives the string back.\<close>

lemma join_Cons: "ps \<noteq> [] \<Longrightarrow> join_with sep (p # ps) = p @ sep @ join_with sep ps"
  by (cases ps) auto

lemma join_split_on: "join_with [c] (split_on c s) = s"
proof (induction s)
  case (Cons x s)
  obtain p ps where sp: "split_on c s = p # ps"
    by (cases "split_on c s") auto
  show ?case
  proof (cases "x = c")
    case True
    then show ?thesis using Cons.IH by (simp add: join_Cons)
  next
    case False
    then show ?thesis using Cons.IH sp by (cases ps) auto
  qed
qed simp

lemma strip_prefix_Some: "strip_prefix p s = Some r \<longleftrightarrow> s = p @ r"
  by (induction p s rule: strip_prefix.induct) auto

lemma starts_with_prefix: "starts_with p s \<longleftrightarrow> prefix p s"
  by (auto simp: starts_with_def prefix_def strip_prefix_Some)

lemma strip_suffix_Some: "strip_suffix p s = Some r \<longleftrightarrow> s = r @ p"
proof -
  have "strip_suffix p s = Some r \<longleftrightarrow> rev s = rev p @ rev r"
    by (auto simp: strip_suffix_def strip_prefix_Some)
  also have "\<dots> \<longleftrightarrow> s = r @ p"
    by (metis rev_append rev_rev_ident)
  finally show ?thesis .
qed

lemma trim_no_ws_ends:
  "s \<noteq> [] \<Longrightarrow> \<not> is_ws (hd s) \<Longrightarrow> \<not> is_ws (last s) \<Longrightarrow> trim s = s"
proof -
  assume s: "s \<noteq> []" "\<not> is_ws (hd s)" "\<not> is_ws (last s)"
  then have "dropWhile is_ws s = s" by (cases s) auto
  moreover have "dropWhile is_ws (rev s) = rev s" using s by (cases s rule: rev_cases) auto
  ultimately show ?thesis by (simp add: trim_def)
qed

lemma trim_padded:
  assumes "\<forall>c \<in> set a. is_ws c" and "\<forall>c \<in> set b. is_ws c"
    and "s \<noteq> []" and "\<not> is_ws (hd s)" and "\<not> is_ws (last s)"
  shows "trim (a @ s @ b) = s"
proof -
  have a: "dropWhile is_ws (a @ s @ b) = s @ b" using assms by (cases s) (auto simp: dropWhile_append3)
  have "dropWhile is_ws (rev b @ rev s) = rev s"
    using assms by (cases s rule: rev_cases) (auto simp: dropWhile_append3)
  with a show ?thesis by (simp add: trim_def)
qed

section \<open>Decimal numbers\<close>

definition digit_char :: "nat \<Rightarrow> char" where
  "digit_char d = char_of (d + 48)"

definition char_digit :: "char \<Rightarrow> nat option" where
  "char_digit c = (let n = of_char c :: nat in if 48 \<le> n \<and> n \<le> 57 then Some (n - 48) else None)"

text \<open>\<open>Display\<close> of an unsigned integer.\<close>

fun show_nat :: "nat \<Rightarrow> string" where
  "show_nat n = (if n < 10 then [digit_char n] else show_nat (n div 10) @ [digit_char (n mod 10)])"

declare show_nat.simps [simp del]

definition show_int :: "int \<Rightarrow> string" where
  "show_int i = (if i < 0 then CHR ''-'' # show_nat (nat (- i)) else show_nat (nat i))"

fun read_digits :: "nat \<Rightarrow> string \<Rightarrow> nat option" where
  "read_digits acc [] = Some acc"
| "read_digits acc (c # cs) =
     (case char_digit c of None \<Rightarrow> None | Some d \<Rightarrow> read_digits (10 * acc + d) cs)"

text \<open>\<open>str::parse\<close> at an unsigned integer type of \<open>w\<close> bits: an optional \<open>+\<close>, at least one
  digit, nothing else, no overflow.\<close>

definition parse_uint :: "nat \<Rightarrow> string \<Rightarrow> nat option" where
  "parse_uint w s =
     (let ds = (case s of c # r \<Rightarrow> if c = CHR ''+'' then r else s | [] \<Rightarrow> [])
      in if ds = [] then None
         else (case read_digits 0 ds of
                 None \<Rightarrow> None
               | Some n \<Rightarrow> if n < 2 ^ w then Some n else None))"

lemma char_digit_digit_char [simp]: "d < 10 \<Longrightarrow> char_digit (digit_char d) = Some d"
  by (simp add: char_digit_def digit_char_def)

lemma digit_char_inj: "d < 10 \<Longrightarrow> e < 10 \<Longrightarrow> digit_char d = digit_char e \<Longrightarrow> d = e"
  by (metis char_digit_digit_char option.inject)

lemma read_digits_append:
  "read_digits acc (xs @ ys) = (case read_digits acc xs of None \<Rightarrow> None | Some a \<Rightarrow> read_digits a ys)"
  by (induction xs arbitrary: acc) (auto split: option.splits)

lemma show_nat_not_Nil [simp]: "show_nat n \<noteq> []"
  by (subst show_nat.simps) simp

lemma read_show_nat: "read_digits 0 (show_nat n) = Some n"
proof (induction n rule: show_nat.induct)
  case (1 n)
  show ?case
  proof (cases "n < 10")
    case True
    then show ?thesis by (subst show_nat.simps) simp
  next
    case False
    with 1 show ?thesis by (subst show_nat.simps) (simp add: read_digits_append)
  qed
qed

lemma show_nat_inj: "show_nat m = show_nat n \<Longrightarrow> m = n"
  by (metis option.inject read_show_nat)

lemma set_show_nat: "set (show_nat n) \<subseteq> digit_char ` {..<10}"
proof (induction n rule: show_nat.induct)
  case (1 n)
  then show ?case by (subst show_nat.simps) auto
qed

lemma digit_char_not_dash: "d < 10 \<Longrightarrow> digit_char d \<noteq> CHR ''-'' \<and> digit_char d \<noteq> CHR ''+''"
  by (auto simp: digit_char_def dest!: arg_cong [where f = "of_char :: char \<Rightarrow> nat"])

lemma show_nat_no_sign: "c \<in> {CHR ''-'', CHR ''+''} \<Longrightarrow> c \<notin> set (show_nat n)"
  using set_show_nat [of n] digit_char_not_dash by fastforce

text \<open>Any character that is not a digit is not in the text of a number.\<close>

lemma show_nat_digits: "char_digit c = None \<Longrightarrow> c \<notin> set (show_nat n)"
proof
  assume "char_digit c = None" and "c \<in> set (show_nat n)"
  then obtain d where "d < 10" "c = digit_char d" using set_show_nat [of n] by auto
  then show False using \<open>char_digit c = None\<close> by simp
qed

lemma parse_show_nat: "n < 2 ^ w \<Longrightarrow> parse_uint w (show_nat n) = Some n"
proof -
  assume n: "n < 2 ^ w"
  obtain c r where cr: "show_nat n = c # r" by (cases "show_nat n") auto
  have "c \<noteq> CHR ''+''" using show_nat_no_sign [of "CHR ''+''" n] cr by auto
  then show ?thesis using n read_show_nat [of n] cr by (simp add: parse_uint_def)
qed

section \<open>Paths\<close>

type_synonym path = string

definition is_absolute :: "path \<Rightarrow> bool" where
  "is_absolute p \<longleftrightarrow> (case p of c # _ \<Rightarrow> c = CHR ''/'' | [] \<Rightarrow> False)"

text \<open>\<open>Path::join\<close>: an absolute right-hand side replaces the left one, and a separator is
  written only after a non-empty left-hand side that does not end in one.\<close>

definition path_join :: "path \<Rightarrow> path \<Rightarrow> path" where
  "path_join a b =
     (if is_absolute b then b
      else if a = [] \<or> last a = CHR ''/'' then a @ b
      else a @ ''/'' @ b)"

text \<open>\<open>Path::components\<close>: the root, a leading \<open>.\<close>, and the non-empty pieces other than
  \<open>.\<close>.\<close>

datatype component = RootDir | CurDir | ParentDir | Normal string

definition components :: "path \<Rightarrow> component list" where
  "components p =
     (let pieces = split_on CHR ''/'' p;
          body = map (\<lambda>s. if s = ''..'' then ParentDir else Normal s)
                   (filter (\<lambda>s. s \<noteq> [] \<and> s \<noteq> ''.'') pieces)
      in (if is_absolute p then RootDir # body
          else if hd pieces = ''.'' then CurDir # body
          else body))"

definition file_name :: "path \<Rightarrow> string option" where
  "file_name p =
     (case components p of
        [] \<Rightarrow> None
      | cs \<Rightarrow> (case last cs of Normal s \<Rightarrow> Some s | _ \<Rightarrow> None))"

text \<open>The last dot splits a file name, unless it is the first character.\<close>

definition rsplit_dot :: "string \<Rightarrow> string \<times> string option" where
  "rsplit_dot f =
     (case split_once CHR ''.'' (rev f) of
        None \<Rightarrow> (f, None)
      | Some (after, before) \<Rightarrow> if before = [] then (f, None) else (rev before, Some (rev after)))"

definition file_stem :: "path \<Rightarrow> string option" where
  "file_stem p = map_option (\<lambda>f. fst (rsplit_dot f)) (file_name p)"

definition extension :: "path \<Rightarrow> string option" where
  "extension p = Option.bind (file_name p) (\<lambda>f. snd (rsplit_dot f))"

lemma path_join_absolute [simp]: "is_absolute b \<Longrightarrow> path_join a b = b"
  by (simp add: path_join_def)

lemma path_join_relative_prefix: "\<not> is_absolute b \<Longrightarrow> prefix a (path_join a b)"
  by (auto simp: path_join_def)

lemma is_absolute_append [simp]: "a \<noteq> [] \<Longrightarrow> is_absolute (a @ b) = is_absolute a"
  by (cases a) (auto simp: is_absolute_def)

lemma is_absolute_join: "is_absolute a \<Longrightarrow> is_absolute (path_join a b)"
  by (cases "a = []") (auto simp: path_join_def is_absolute_def split: list.splits)

lemma rsplit_dot_Some: "rsplit_dot f = (s, Some e) \<Longrightarrow> f = s @ ''.'' @ e \<and> CHR ''.'' \<notin> set e \<and> s \<noteq> []"
  by (auto simp: rsplit_dot_def split_once_Some rev_eq_append_conv
      split: option.splits if_splits prod.splits)

lemma split_on_snoc: "c \<notin> set f \<Longrightarrow> split_on c (d @ c # f) = split_on c d @ [f]"
  by (induction d) (auto simp: split_on_none split: list.splits)

lemma file_name_join:
  assumes "CHR ''/'' \<notin> set f" and "f \<notin> {[], ''.'', ''..''}"
  shows "file_name (d @ ''/'' @ f) = Some f"
proof -
  have s: "split_on CHR ''/'' (d @ ''/'' @ f) = split_on CHR ''/'' d @ [f]"
    using split_on_snoc [OF assms(1), of d] by simp
  define body where "body = map (\<lambda>s. if s = ''..'' then ParentDir else Normal s)
      (filter (\<lambda>s. s \<noteq> [] \<and> s \<noteq> ''.'') (split_on CHR ''/'' d))"
  have "\<exists>cs. components (d @ ''/'' @ f) = cs @ body @ [Normal f]"
    unfolding components_def Let_def s using assms(2)
    by (auto simp: body_def [symmetric] intro: exI [of _ "[]"] exI [of _ "[RootDir]"] exI [of _ "[CurDir]"])
  then obtain cs where "components (d @ ''/'' @ f) = (cs @ body) @ [Normal f]" by auto
  then show ?thesis by (cases "cs @ body") (simp_all add: file_name_def)
qed

section \<open>Association lists\<close>

lemma map_of_update [simp]: "map_of (AList.update k v al) = (map_of al)(k \<mapsto> v)"
  by (simp add: update_conv' fun_eq_iff)

lemma map_of_delete [simp]: "map_of (AList.delete k al) = (map_of al)(k := None)"
  by (simp add: delete_conv')

section \<open>Transition systems\<close>

text \<open>
  The common part of the state machines below: a start state, a step function that takes a
  label, and the states a list of labels reaches. A component interprets the locale on its own
  step and obtains the invariant rule and the facts about runs.
\<close>

locale machine =
  fixes start :: 's
    and step :: "'s \<Rightarrow> 'l \<Rightarrow> 's"
begin

fun run :: "'s \<Rightarrow> 'l list \<Rightarrow> 's" where
  "run s [] = s"
| "run s (l # ls) = run (step s l) ls"

lemma run_append: "run s (xs @ ys) = run (run s xs) ys"
  by (induction xs arbitrary: s) auto

lemma run_invariant:
  assumes "I s" and "\<And>s l. I s \<Longrightarrow> I (step s l)"
  shows "I (run s ls)"
  using assms(1) by (induction ls arbitrary: s) (auto intro: assms(2))

lemma run_measure_mono:
  fixes f :: "'s \<Rightarrow> 'm :: preorder"
  assumes "\<And>s l. f s \<le> f (step s l)"
  shows "f s \<le> f (run s ls)"
  using assms by (induction ls arbitrary: s) (auto intro: order_trans)

end

end
