(* ===== verification/Errors.thy ===== *)
theory Errors
  imports Base
begin

text \<open>
  The error type of the shims and its translation to ttrpc status codes
  (\<open>containerd-shimkit/src/sandbox/error.rs\<close>).

  Errors of third-party crates that the enum wraps are carried as the text their \<open>Display\<close>
  prints, which is all the sources use of them. The \<open>Display\<close> of \<open>containerd_shim::Error\<close> is
  code of that crate: it is the parameter \<open>shim_display\<close>.
\<close>

datatype shim_error =
    ShimInvalidArgument string
  | ShimNotFoundError string
  | ShimUnimplemented string
  | ShimOther string

datatype sandbox_error =
    Oci string
  | Stdio string
  | Others string
  | Shim shim_error
  | NotFound string
  | AlreadyExists string
  | InvalidArgument string
  | Any string
  | FailedPrecondition string
  | Json string
  | Errno string
  | Libcontainer string
  | Containerd string

type_synonym 'a sandbox_result = "('a, sandbox_error) result"

text \<open>The \<open>#[error(..)]\<close> attributes.\<close>

fun error_display :: "(shim_error \<Rightarrow> string) \<Rightarrow> sandbox_error \<Rightarrow> string" where
  "error_display shim_display (Oci s) = s"
| "error_display shim_display (Stdio s) = s"
| "error_display shim_display (Others s) = s"
| "error_display shim_display (Shim e) = shim_display e"
| "error_display shim_display (NotFound s) = ''not found: '' @ s"
| "error_display shim_display (AlreadyExists s) = ''already exists: '' @ s"
| "error_display shim_display (InvalidArgument s) = ''invalid argument: '' @ s"
| "error_display shim_display (Any s) = s"
| "error_display shim_display (FailedPrecondition s) = s"
| "error_display shim_display (Json s) = s"
| "error_display shim_display (Errno s) = s"
| "error_display shim_display (Libcontainer s) = s"
| "error_display shim_display (Containerd s) = s"

text \<open>The ttrpc status codes the conversion uses.\<close>

datatype code = UNKNOWN | INVALID_ARGUMENT | NOT_FOUND | ALREADY_EXISTS | FAILED_PRECONDITION

datatype ttrpc_error = RpcStatus code string | TtrpcOthers string

text \<open>\<open>impl From<Error> for ttrpc::Error\<close>.\<close>

fun to_ttrpc :: "(shim_error \<Rightarrow> string) \<Rightarrow> sandbox_error \<Rightarrow> ttrpc_error" where
  "to_ttrpc shim_display (Shim s) =
     (case s of
        ShimInvalidArgument m \<Rightarrow> RpcStatus INVALID_ARGUMENT m
      | ShimNotFoundError m \<Rightarrow> RpcStatus NOT_FOUND m
      | _ \<Rightarrow> RpcStatus UNKNOWN (shim_display s))"
| "to_ttrpc shim_display (NotFound s) = RpcStatus NOT_FOUND s"
| "to_ttrpc shim_display (AlreadyExists s) = RpcStatus ALREADY_EXISTS s"
| "to_ttrpc shim_display (InvalidArgument s) = RpcStatus INVALID_ARGUMENT s"
| "to_ttrpc shim_display (FailedPrecondition s) = RpcStatus FAILED_PRECONDITION s"
| "to_ttrpc shim_display (Oci s) = RpcStatus UNKNOWN (error_display shim_display (Oci s))"
| "to_ttrpc shim_display (Any s) = RpcStatus UNKNOWN s"
| "to_ttrpc shim_display e = TtrpcOthers (error_display shim_display e)"

text \<open>The text a ttrpc error carries to containerd.\<close>

fun ttrpc_message :: "ttrpc_error \<Rightarrow> string" where
  "ttrpc_message (RpcStatus c m) = m"
| "ttrpc_message (TtrpcOthers m) = m"

fun ttrpc_code :: "ttrpc_error \<Rightarrow> code option" where
  "ttrpc_code (RpcStatus c m) = Some c"
| "ttrpc_code (TtrpcOthers m) = None"

text \<open>A TTRPC client sees a definite code exactly for the errors below; the codes tell the
  classes of failure apart.\<close>

lemma ttrpc_code_not_found:
  "ttrpc_code (to_ttrpc sd e) = Some NOT_FOUND \<longleftrightarrow>
     (\<exists>s. e = NotFound s \<or> e = Shim (ShimNotFoundError s))"
  by (cases e) (auto split: shim_error.splits)

lemma ttrpc_code_already_exists:
  "ttrpc_code (to_ttrpc sd e) = Some ALREADY_EXISTS \<longleftrightarrow> (\<exists>s. e = AlreadyExists s)"
  by (cases e) (auto split: shim_error.splits)

lemma ttrpc_code_invalid_argument:
  "ttrpc_code (to_ttrpc sd e) = Some INVALID_ARGUMENT \<longleftrightarrow>
     (\<exists>s. e = InvalidArgument s \<or> e = Shim (ShimInvalidArgument s))"
  by (cases e) (auto split: shim_error.splits)

lemma ttrpc_code_failed_precondition:
  "ttrpc_code (to_ttrpc sd e) = Some FAILED_PRECONDITION \<longleftrightarrow> (\<exists>s. e = FailedPrecondition s)"
  by (cases e) (auto split: shim_error.splits)

lemma ttrpc_code_unknown:
  "ttrpc_code (to_ttrpc sd e) = Some UNKNOWN \<longleftrightarrow>
     (\<exists>s. e = Oci s \<or> e = Any s \<or> e = Shim (ShimUnimplemented s) \<or> e = Shim (ShimOther s))"
  by (cases e) (auto split: shim_error.splits)

lemma ttrpc_message_suffix:
  "suffix (ttrpc_message (to_ttrpc sd e)) (error_display sd e) \<or>
   (\<exists>m. e = Shim (ShimInvalidArgument m) \<or> e = Shim (ShimNotFoundError m))"
  by (cases e) (auto split: shim_error.splits simp: suffix_def)

lemmas ttrpc_code_iffs =
  ttrpc_code_not_found ttrpc_code_already_exists ttrpc_code_invalid_argument
  ttrpc_code_failed_precondition ttrpc_code_unknown

end
