(* ===== verification/Task_State.thy ===== *)
theory Task_State
  imports Errors
begin

text \<open>
  The life cycle of a task (\<open>containerd-shimkit/src/sandbox/shim/task_state.rs\<close>): the five
  states, the five guarded transitions, the error of a refused transition, and the relation the
  transitions generate.
\<close>

datatype task_state = Created | Starting | Started | Exited | Deleting

fun task_state_debug :: "task_state \<Rightarrow> string" where
  "task_state_debug Created = ''Created''"
| "task_state_debug Starting = ''Starting''"
| "task_state_debug Started = ''Started''"
| "task_state_debug Exited = ''Exited''"
| "task_state_debug Deleting = ''Deleting''"

text \<open>\<open>from\<close> and \<open>to\<close> are printed with \<open>Debug\<close>; a string target is quoted by it.\<close>

definition state_transition_error :: "string \<Rightarrow> string \<Rightarrow> 'a sandbox_result" where
  "state_transition_error from to =
     Err (FailedPrecondition (''invalid state transition: '' @ from @ '' => '' @ to))"

fun ts_start :: "task_state \<Rightarrow> task_state sandbox_result" where
  "ts_start Created = Ok Starting"
| "ts_start s = state_transition_error (task_state_debug s) (task_state_debug Starting)"

fun ts_kill :: "task_state \<Rightarrow> task_state sandbox_result" where
  "ts_kill Started = Ok Started"
| "ts_kill s = state_transition_error (task_state_debug s) (CHR 0x22 # ''Killing'' @ [CHR 0x22])"

fun ts_delete :: "task_state \<Rightarrow> task_state sandbox_result" where
  "ts_delete Created = Ok Deleting"
| "ts_delete Exited = Ok Deleting"
| "ts_delete s = state_transition_error (task_state_debug s) (task_state_debug Deleting)"

fun ts_started :: "task_state \<Rightarrow> task_state sandbox_result" where
  "ts_started Starting = Ok Started"
| "ts_started s = state_transition_error (task_state_debug s) (task_state_debug Started)"

fun ts_stop :: "task_state \<Rightarrow> task_state sandbox_result" where
  "ts_stop Started = Ok Exited"
| "ts_stop Starting = Ok Exited"
| "ts_stop Deleting = Ok Exited"
| "ts_stop s = state_transition_error (task_state_debug s) (task_state_debug Exited)"

text \<open>\<open>*self = ..?\<close>: a refused transition leaves the state as it is.\<close>

fun assign_state :: "task_state \<Rightarrow> task_state sandbox_result \<Rightarrow> task_state \<times> unit sandbox_result" where
  "assign_state s (Ok t) = (t, Ok ())"
| "assign_state s (Err e) = (s, Err e)"
| "assign_state s (Panic m) = (s, Panic m)"

section \<open>When a transition is allowed\<close>

lemma state_transition_error_not_Ok [simp]:
  "state_transition_error a b \<noteq> Ok x" "state_transition_error a b \<noteq> Panic m"
  by (simp_all add: state_transition_error_def)

lemma ts_start_Ok: "ts_start s = Ok t \<longleftrightarrow> s = Created \<and> t = Starting"
  by (cases s) auto

lemma ts_kill_Ok: "ts_kill s = Ok t \<longleftrightarrow> s = Started \<and> t = Started"
  by (cases s) auto

lemma ts_delete_Ok: "ts_delete s = Ok t \<longleftrightarrow> (s = Created \<or> s = Exited) \<and> t = Deleting"
  by (cases s) auto

lemma ts_started_Ok: "ts_started s = Ok t \<longleftrightarrow> s = Starting \<and> t = Started"
  by (cases s) auto

lemma ts_stop_Ok:
  "ts_stop s = Ok t \<longleftrightarrow> (s = Started \<or> s = Starting \<or> s = Deleting) \<and> t = Exited"
  by (cases s) auto

lemmas ts_Ok = ts_start_Ok ts_kill_Ok ts_delete_Ok ts_started_Ok ts_stop_Ok

lemma ts_no_panic:
  "ts_start s \<noteq> Panic m" "ts_kill s \<noteq> Panic m" "ts_delete s \<noteq> Panic m"
  "ts_started s \<noteq> Panic m" "ts_stop s \<noteq> Panic m"
  by (cases s; simp)+

section \<open>The transition relation\<close>

inductive ts_step :: "task_state \<Rightarrow> task_state \<Rightarrow> bool" where
  by_start: "ts_start s = Ok t \<Longrightarrow> ts_step s t"
| by_kill: "ts_kill s = Ok t \<Longrightarrow> ts_step s t"
| by_delete: "ts_delete s = Ok t \<Longrightarrow> ts_step s t"
| by_started: "ts_started s = Ok t \<Longrightarrow> ts_step s t"
| by_stop: "ts_stop s = Ok t \<Longrightarrow> ts_step s t"

inductive_cases ts_step_toE: "ts_step s t"

lemma ts_step_iff:
  "ts_step s t \<longleftrightarrow>
     (s, t) \<in> {(Created, Starting), (Started, Started), (Created, Deleting), (Exited, Deleting),
               (Starting, Started), (Started, Exited), (Starting, Exited), (Deleting, Exited)}"
  by (cases s; cases t) (auto elim!: ts_step_toE intro: ts_step.intros simp: ts_Ok)

text \<open>A task never goes back: the phases below only grow along a run, and the one cycle is the
  retry of a failed delete between \<open>Exited\<close> and \<open>Deleting\<close>.\<close>

fun phase :: "task_state \<Rightarrow> nat" where
  "phase Created = 0"
| "phase Starting = 1"
| "phase Started = 2"
| "phase Exited = 3"
| "phase Deleting = 3"

lemma ts_step_phase: "ts_step s t \<Longrightarrow> phase s \<le> phase t"
  by (auto simp: ts_step_iff)

lemma ts_steps_phase: "ts_step\<^sup>*\<^sup>* s t \<Longrightarrow> phase s \<le> phase t"
  by (induction rule: rtranclp_induct) (auto dest: ts_step_phase intro: order_trans)

lemma ts_steps_never_created: "ts_step\<^sup>+\<^sup>+ s t \<Longrightarrow> t \<noteq> Created"
  by (induction rule: tranclp_induct) (auto simp: ts_step_iff)

end
