(* ===== verification/Instance_Cfg.thy ===== *)
theory Instance_Cfg
  imports Errors
begin

text \<open>
  The configuration a container instance is created with
  (\<open>containerd-shimkit/src/sandbox/instance.rs\<close>), the directory and stdio helpers of
  \<open>instance_utils.rs\<close>, and the runtime options of \<open>shim/local.rs\<close>.

  Opening files and the JSON, TOML and protobuf decoders are code outside the repository: they
  are arguments.
\<close>

datatype io_error = IoNotFound string | IoOther string

fun io_display :: "io_error \<Rightarrow> string" where
  "io_display (IoNotFound m) = m"
| "io_display (IoOther m) = m"

record shim_config =
  systemd_cgroup :: bool

record instance_config =
  ic_stdin :: path
  ic_stdout :: path
  ic_stderr :: path
  ic_bundle :: path
  ic_namespace :: string
  ic_containerd_address :: string
  ic_config :: shim_config

definition default_config :: shim_config where
  "default_config = \<lparr>systemd_cgroup = False\<rparr>"

text \<open>\<open>protobuf::Any\<close> as it arrives in a \<open>CreateTaskRequest\<close>.\<close>

record any =
  type_url :: string
  any_value :: string

text \<open>\<open>Config::get_from_options\<close>. \<open>decode\<close> is \<open>Options::decode\<close> followed by \<open>config_body\<close>,
  \<open>toml\<close> is \<open>toml::from_str\<close>; the error is the text of the \<open>anyhow::Error\<close>.\<close>

definition get_from_options ::
  "(string \<Rightarrow> (string, string) result) \<Rightarrow> (string \<Rightarrow> (shim_config, string) result) \<Rightarrow>
   any option \<Rightarrow> (shim_config, string) result" where
  "get_from_options decode toml options =
     (case options of
        None \<Rightarrow> Ok default_config
      | Some opts \<Rightarrow>
          if type_url opts \<noteq> ''runtimeoptions.v1.Options''
          then Err (''Invalid options type '' @ type_url opts)
          else and_then (decode (any_value opts)) (\<lambda>body.
            map_err (\<lambda>err. error_display (\<lambda>_. []) (InvalidArgument (''invalid shim options: '' @ err)))
              (toml body)))"

section \<open>Directories and stdio\<close>

definition DEFAULT_CONTAINER_ROOT_DIR :: path where
  "DEFAULT_CONTAINER_ROOT_DIR = ''/run/containerd''"

text \<open>\<open>InstanceConfig::determine_rootdir\<close>. \<open>fs_open\<close> opens a file and yields its content,
  \<open>parse_options\<close> is \<open>serde_json::from_reader::<_, Options>\<close> followed by the field \<open>root\<close>.\<close>

definition determine_rootdir ::
  "(path \<Rightarrow> (string, io_error) result) \<Rightarrow> (string \<Rightarrow> (path option, string) result) \<Rightarrow>
   instance_config \<Rightarrow> string \<Rightarrow> path sandbox_result" where
  "determine_rootdir fs_open parse_options cfg runtime =
     (let rootdir = path_join DEFAULT_CONTAINER_ROOT_DIR runtime in
      case fs_open (path_join (ic_bundle cfg) ''options.json'') of
        Ok content \<Rightarrow>
          and_then (map_err Json (parse_options content)) (\<lambda>root.
            Ok (path_join (case root of Some r \<Rightarrow> r | None \<Rightarrow> rootdir) (ic_namespace cfg)))
      | Err (IoNotFound _) \<Rightarrow> Ok (path_join rootdir (ic_namespace cfg))
      | Err e \<Rightarrow> Err (Stdio (io_display e))
      | Panic m \<Rightarrow> Panic m)"

text \<open>\<open>open_stdin\<close>, \<open>open_stdout\<close> and \<open>open_stderr\<close>, with \<open>sys::stdio::open\<close> as
  \<open>open_rw\<close>.\<close>

definition open_stdin :: "(path \<Rightarrow> ('f, io_error) result) \<Rightarrow> instance_config \<Rightarrow> ('f, io_error) result" where
  "open_stdin open_rw cfg =
     (if ic_stdin cfg = [] then Err (IoNotFound ''File not found'') else open_rw (ic_stdin cfg))"

definition open_stdout :: "(path \<Rightarrow> ('f, io_error) result) \<Rightarrow> instance_config \<Rightarrow> ('f, io_error) result" where
  "open_stdout open_rw cfg =
     (if ic_stdout cfg = [] then Err (IoNotFound ''File not found'') else open_rw (ic_stdout cfg))"

definition open_stderr :: "(path \<Rightarrow> ('f, io_error) result) \<Rightarrow> instance_config \<Rightarrow> ('f, io_error) result" where
  "open_stderr open_rw cfg =
     (if ic_stderr cfg = [] then Err (IoNotFound ''File not found'') else open_rw (ic_stderr cfg))"

section \<open>Facts\<close>

lemma get_from_options_None [simp]: "get_from_options decode toml None = Ok default_config"
  by (simp add: get_from_options_def)

lemma get_from_options_Ok:
  "get_from_options decode toml (Some o') = Ok c \<longleftrightarrow>
     type_url o' = ''runtimeoptions.v1.Options'' \<and>
     (\<exists>body. decode (any_value o') = Ok body \<and> toml body = Ok c)"
  by (auto simp: get_from_options_def res_simps)

lemma default_root_absolute: "is_absolute (path_join DEFAULT_CONTAINER_ROOT_DIR r)"
  by (rule is_absolute_join) (simp add: DEFAULT_CONTAINER_ROOT_DIR_def is_absolute_def)

lemma determine_rootdir_cases:
  "determine_rootdir fs_open parse_options cfg runtime = Ok p \<longleftrightarrow>
     (\<exists>m. fs_open (path_join (ic_bundle cfg) ''options.json'') = Err (IoNotFound m) \<and>
        p = path_join (path_join DEFAULT_CONTAINER_ROOT_DIR runtime) (ic_namespace cfg))
   \<or> (\<exists>content root. fs_open (path_join (ic_bundle cfg) ''options.json'') = Ok content \<and>
        parse_options content = Ok root \<and>
        p = path_join (case root of Some r \<Rightarrow> r | None \<Rightarrow> path_join DEFAULT_CONTAINER_ROOT_DIR runtime)
              (ic_namespace cfg))"
  by (auto simp: determine_rootdir_def Let_def res_simps split: result.splits io_error.splits)

lemma path_join_suffix: "suffix b (path_join a b)"
  by (auto simp: path_join_def suffix_def)

text \<open>The root directory of a container is always an absolute path that ends in the
  namespace, as long as a \<open>root\<close> in \<open>options.json\<close> is absolute; and without an
  \<open>options.json\<close> in the bundle it is \<open>/run/containerd/<runtime>/<namespace>\<close>.\<close>

theorem determine_rootdir_absolute:
  assumes "determine_rootdir fs_open parse_options cfg runtime = Ok p"
    and "\<And>content r. parse_options content = Ok (Some r) \<Longrightarrow> is_absolute r"
    and "\<not> is_absolute runtime" "runtime \<noteq> []" "last runtime \<noteq> CHR ''/''"
    and "\<not> is_absolute (ic_namespace cfg)"
  shows "is_absolute p \<and> suffix (ic_namespace cfg) p
    \<and> ((\<exists>m. fs_open (path_join (ic_bundle cfg) ''options.json'') = Err (IoNotFound m))
        \<longrightarrow> p = ''/run/containerd/'' @ runtime @ ''/'' @ ic_namespace cfg)"
proof -
  obtain base where p: "p = path_join base (ic_namespace cfg)"
    and b: "base = path_join DEFAULT_CONTAINER_ROOT_DIR runtime \<or> is_absolute base"
    using assms(1,2) by (auto simp: determine_rootdir_cases split: option.splits)
  have "is_absolute p"
    using p b default_root_absolute by (auto intro: is_absolute_join)
  moreover have "suffix (ic_namespace cfg) p"
    by (simp add: p path_join_suffix)
  moreover have "p = ''/run/containerd/'' @ runtime @ ''/'' @ ic_namespace cfg"
    if "fs_open (path_join (ic_bundle cfg) ''options.json'') = Err (IoNotFound m)" for m
    using that assms(1,3-6)
    by (simp add: determine_rootdir_cases path_join_def DEFAULT_CONTAINER_ROOT_DIR_def)
  ultimately show ?thesis by blast
qed

theorem determine_rootdir_absolute_witness:
  "(let cfg = \<lparr>ic_stdin = [], ic_stdout = [], ic_stderr = [], ic_bundle = ''/b'',
                 ic_namespace = ''k8s.io'', ic_containerd_address = [], ic_config = default_config\<rparr>;
        p = ''/run/containerd/wasmtime/k8s.io''
    in determine_rootdir (\<lambda>_. Err (IoNotFound [])) (\<lambda>_. Ok None) cfg ''wasmtime'' = Ok p
       \<and> is_absolute p)"
proof -
  define cfg where "cfg = \<lparr>ic_stdin = [], ic_stdout = [], ic_stderr = [], ic_bundle = ''/b'',
      ic_namespace = ''k8s.io'', ic_containerd_address = [], ic_config = default_config\<rparr>"
  have ok: "determine_rootdir (\<lambda>_. Err (IoNotFound [])) (\<lambda>_. Ok None) cfg ''wasmtime''
      = Ok ''/run/containerd/wasmtime/k8s.io''"
    by (simp add: determine_rootdir_def cfg_def path_join_def DEFAULT_CONTAINER_ROOT_DIR_def
        is_absolute_def)
  show ?thesis
    using determine_rootdir_absolute [OF ok] ok
    by (simp add: cfg_def is_absolute_def)
qed

end
