(* ===== verification/Waitable_Cell.thy ===== *)
theory Waitable_Cell
  imports Base
begin

text \<open>
  \<open>WaitableCell\<close> (\<open>containerd-shimkit/src/sandbox/sync.rs\<close>): a cell that is written once and
  that any number of tasks can wait for.

  Three views: the operations one after the other; an interleaving of any number of waiters and
  setters in which \<open>OnceCell::set\<close> is one step; and the same interleaving with
  \<open>std::cell::OnceCell::set\<close> as the two steps it is (test, then write), which is what two threads
  can observe because nothing guards the cell.
\<close>

section \<open>The operations in sequence\<close>

text \<open>\<open>OnceCell\<close>, in \<open>std\<close> and in \<open>tokio\<close>: \<open>set\<close> hands the value back when the cell is full.\<close>

fun once_set :: "'a option \<Rightarrow> 'a \<Rightarrow> 'a option \<times> (unit, 'a) result" where
  "once_set None v = (Some v, Ok ())"
| "once_set (Some u) v = (Some u, Err v)"

text \<open>\<open>WaitableCellImpl\<close>; the \<open>Notify\<close> is represented by the number of \<open>notify_waiters\<close> calls.\<close>

record 'a waitable_cell =
  wc_cell :: "'a option"
  wc_notified :: nat

definition wc_new :: "'a waitable_cell" where
  "wc_new = \<lparr>wc_cell = None, wc_notified = 0\<rparr>"

definition wc_set :: "'a waitable_cell \<Rightarrow> 'a \<Rightarrow> 'a waitable_cell \<times> (unit, 'a) result" where
  "wc_set c v =
     (case once_set (wc_cell c) v of
        (x, Ok _) \<Rightarrow> (c\<lparr>wc_cell := x, wc_notified := Suc (wc_notified c)\<rparr>, Ok ())
      | (x, Err u) \<Rightarrow> (c\<lparr>wc_cell := x\<rparr>, Err u)
      | (x, Panic m) \<Rightarrow> (c\<lparr>wc_cell := x\<rparr>, Panic m))"

text \<open>One poll of \<open>wait()\<close> (also \<open>wait().now_or_never()\<close>): ready exactly when the cell is
  full.\<close>

definition wc_wait :: "'a waitable_cell \<Rightarrow> 'a option" where
  "wc_wait c = wc_cell c"

text \<open>\<open>set_guard_with f\<close> makes a guard that holds \<open>f\<close> (and a clone of the cell, which is the
  same cell); \<open>drop\<close> takes \<open>f\<close> out, always calls it and ignores the result of \<open>set\<close>.\<close>

definition set_guard_with :: "(unit \<Rightarrow> 'a) \<Rightarrow> (unit \<Rightarrow> 'a) option" where
  "set_guard_with f = Some f"

definition guard_drop ::
  "'a waitable_cell \<Rightarrow> (unit \<Rightarrow> 'a) option \<Rightarrow> ('a waitable_cell, 'e) result" where
  "guard_drop c g =
     (case g of None \<Rightarrow> Panic ''called Option::unwrap() on a None value''
              | Some f \<Rightarrow> Ok (fst (wc_set c (f ()))))"

section \<open>The contract of a write-once cell\<close>

locale set_once =
  fixes empty :: 'c
    and set :: "'c \<Rightarrow> 'a \<Rightarrow> 'c \<times> (unit, 'a) result"
    and get :: "'c \<Rightarrow> 'a option"
  assumes get_empty: "get empty = None"
    and set_free: "get c = None \<Longrightarrow> snd (set c v) = Ok () \<and> get (fst (set c v)) = Some v"
    and set_full: "get c = Some u \<Longrightarrow> snd (set c v) = Err v \<and> get (fst (set c v)) = Some u"
begin

fun set_all :: "'c \<Rightarrow> 'a list \<Rightarrow> 'c" where
  "set_all c [] = c"
| "set_all c (v # vs) = set_all (fst (set c v)) vs"

lemma get_set: "get (fst (set c v)) = (case get c of None \<Rightarrow> Some v | Some u \<Rightarrow> Some u)"
  using set_free set_full by (cases "get c") auto

lemma set_keeps: "get c = Some u \<Longrightarrow> get (fst (set c v)) = Some u"
  by (simp add: set_full)

lemma set_all_keeps: "get c = Some u \<Longrightarrow> get (set_all c vs) = Some u"
  by (induction vs arbitrary: c) (auto simp: set_keeps)

lemma first_write_wins: "get (set_all empty vs) = (case vs of [] \<Rightarrow> None | v # _ \<Rightarrow> Some v)"
  using get_empty by (cases vs) (auto simp: set_all_keeps set_free)

lemma set_ok_iff: "snd (set c v) = Ok () \<longleftrightarrow> get c = None"
  using set_free set_full by (cases "get c") auto

lemma set_filled: "get (fst (set c v)) \<noteq> None"
  by (auto simp: get_set split: option.splits)

end

interpretation once: set_once None once_set "\<lambda>c. c"
  by unfold_locales auto

interpretation wc: set_once wc_new wc_set wc_wait
  by unfold_locales (auto simp: wc_new_def wc_set_def wc_wait_def)

section \<open>Interleaved waiters and setters\<close>

text \<open>A waiter first creates the \<open>Notified\<close> future, then tests the cell, then awaits the future.
  The flag is whether a \<open>notify_waiters\<close> call has reached the future, which tokio guarantees for
  every call after the creation. \<open>Undefined\<close> is \<open>unwrap_unchecked\<close> on an empty cell.\<close>

datatype 'a waiter = Idle | Registered bool | Parked bool | Returned 'a | Undefined

datatype 'a setter = ToSet 'a | ToNotify 'a | SetOk 'a | SetErr 'a

record 'a cell_sys =
  cell :: "'a option"
  waiters :: "nat \<Rightarrow> 'a waiter"
  setters :: "nat \<Rightarrow> 'a setter"

fun notify :: "'a waiter \<Rightarrow> 'a waiter" where
  "notify (Registered b) = Registered True"
| "notify (Parked b) = Parked True"
| "notify w = w"

inductive cell_step :: "'a cell_sys \<Rightarrow> 'a cell_sys \<Rightarrow> bool" where
  register: "waiters s i = Idle \<Longrightarrow> cell_step s (s\<lparr>waiters := (waiters s)(i := Registered False)\<rparr>)"
| check_hit: "waiters s i = Registered b \<Longrightarrow> cell s = Some v \<Longrightarrow>
     cell_step s (s\<lparr>waiters := (waiters s)(i := Returned v)\<rparr>)"
| check_miss: "waiters s i = Registered b \<Longrightarrow> cell s = None \<Longrightarrow>
     cell_step s (s\<lparr>waiters := (waiters s)(i := Parked b)\<rparr>)"
| wake: "waiters s i = Parked True \<Longrightarrow>
     cell_step s (s\<lparr>waiters := (waiters s)(i := (case cell s of Some v \<Rightarrow> Returned v | None \<Rightarrow> Undefined))\<rparr>)"
| set_ok: "setters s j = ToSet v \<Longrightarrow> cell s = None \<Longrightarrow>
     cell_step s (s\<lparr>cell := Some v, setters := (setters s)(j := ToNotify v)\<rparr>)"
| set_err: "setters s j = ToSet v \<Longrightarrow> cell s = Some u \<Longrightarrow>
     cell_step s (s\<lparr>setters := (setters s)(j := SetErr v)\<rparr>)"
| notify_waiters: "setters s j = ToNotify v \<Longrightarrow>
     cell_step s (s\<lparr>waiters := notify \<circ> waiters s, setters := (setters s)(j := SetOk v)\<rparr>)"

definition cell_init :: "(nat \<Rightarrow> 'a) \<Rightarrow> 'a cell_sys" where
  "cell_init vals = \<lparr>cell = None, waiters = (\<lambda>_. Idle), setters = (\<lambda>j. ToSet (vals j))\<rparr>"

inductive cell_reach :: "(nat \<Rightarrow> 'a) \<Rightarrow> 'a cell_sys \<Rightarrow> bool" for vals where
  init: "cell_reach vals (cell_init vals)"
| step: "cell_reach vals s \<Longrightarrow> cell_step s t \<Longrightarrow> cell_reach vals t"

text \<open>What every step keeps: a signalled future means a full cell, a parked future without a
  signal means that the cell is still empty or that a setter is about to notify, and all results
  are the content of the cell.\<close>

definition signalled :: "'a waiter \<Rightarrow> bool" where
  "signalled w \<longleftrightarrow> w = Registered True \<or> w = Parked True"

fun won :: "'a setter \<Rightarrow> 'a option" where
  "won (ToNotify v) = Some v"
| "won (SetOk v) = Some v"
| "won _ = None"

definition cell_inv :: "'a cell_sys \<Rightarrow> bool" where
  "cell_inv s \<longleftrightarrow>
     (\<forall>i. signalled (waiters s i) \<longrightarrow> cell s \<noteq> None) \<and>
     (\<forall>i. waiters s i = Parked False \<longrightarrow> cell s = None \<or> (\<exists>j v. setters s j = ToNotify v)) \<and>
     (\<forall>i v. waiters s i = Returned v \<longrightarrow> cell s = Some v) \<and>
     (\<forall>i. waiters s i \<noteq> Undefined) \<and>
     (\<forall>j v. won (setters s j) = Some v \<longrightarrow> cell s = Some v) \<and>
     (\<forall>j k. won (setters s j) \<noteq> None \<longrightarrow> won (setters s k) \<noteq> None \<longrightarrow> j = k)"

lemma signalled_simps [simp]:
  "signalled (Registered b) = b" "signalled (Parked b) = b"
  "\<not> signalled Idle" "\<not> signalled (Returned v)" "\<not> signalled Undefined"
  by (auto simp: signalled_def)

lemma notify_eq_simps [simp]:
  "notify w = Parked False \<longleftrightarrow> False"
  "notify w = Returned v \<longleftrightarrow> w = Returned v"
  "notify w = Undefined \<longleftrightarrow> w = Undefined"
  by (cases w; simp)+

lemma cell_inv_init: "cell_inv (cell_init vals)"
  by (auto simp: cell_inv_def cell_init_def)

lemma cell_inv_won: "cell_inv s \<Longrightarrow> won (setters s j) = Some v \<Longrightarrow> cell s = Some v"
  by (simp add: cell_inv_def)

lemma cell_inv_step: "cell_step s t \<Longrightarrow> cell_inv s \<Longrightarrow> cell_inv t"
proof (induction rule: cell_step.induct)
  case (notify_waiters s j v)
  have w: "won (setters s j) = Some v" using notify_waiters.hyps by simp
  have c: "cell s = Some v" using cell_inv_won [OF notify_waiters.prems w] .
  have u: "won (setters s k) \<noteq> None \<Longrightarrow> k = j" for k
    using notify_waiters.prems w unfolding cell_inv_def by blast
  show ?case
    using notify_waiters.prems c u by (auto simp: cell_inv_def)
next
  case (wake s i)
  then have "cell s \<noteq> None"
    unfolding cell_inv_def by (metis signalled_simps(2))
  with wake show ?case by (auto simp: cell_inv_def)
next
  case (register s i)
  then show ?case by (auto simp: cell_inv_def)
next
  case (check_hit s i b v)
  then show ?case by (auto simp: cell_inv_def)
next
  case (check_miss s i b)
  then have "\<not> b" unfolding cell_inv_def by (metis signalled_simps(1))
  with check_miss show ?case by (auto simp: cell_inv_def)
next
  case (set_ok s j v)
  then have "won (setters s k) = None" for k
    unfolding cell_inv_def by (metis not_None_eq)
  with set_ok show ?case by (auto simp: cell_inv_def)
next
  case (set_err s j v u)
  have "setters s k = ToNotify w \<Longrightarrow> k \<noteq> j" for k w using set_err.hyps by auto
  with set_err show ?case unfolding cell_inv_def by simp (metis fun_upd_other)
qed

lemma cell_reach_inv: "cell_reach vals s \<Longrightarrow> cell_inv s"
  by (induction rule: cell_reach.induct) (auto intro: cell_inv_init cell_inv_step)

lemma cell_reach_parked:
  assumes "cell_reach vals s" and "cell s = Some v" and "\<forall>j w. setters s j \<noteq> ToNotify w"
    and "waiters s i = Parked b"
  shows "b"
  using cell_reach_inv [OF assms(1)] assms(2-4) unfolding cell_inv_def by (cases b) auto

section \<open>Two setters on different threads\<close>

text \<open>
  \<open>WaitableCell\<close> is declared \<open>Sync\<close>, and \<open>std::cell::OnceCell\<close> has no synchronisation:
  \<open>set\<close> first tests \<open>get()\<close> and then writes the slot. A label lets one thread take its next
  step; readers copy what \<open>get()\<close> returns.
\<close>

datatype 'a race_pc = RToSet 'a | RWriting 'a | RSetOk 'a | RSetErr 'a

record 'a race_sys =
  rcell :: "'a option"
  rsetters :: "nat \<Rightarrow> 'a race_pc"
  rseen :: "'a list"

datatype race_label = SetterStep nat | ReaderStep

fun race_step :: "'a race_sys \<Rightarrow> race_label \<Rightarrow> 'a race_sys" where
  "race_step s (SetterStep j) =
     (case rsetters s j of
        RToSet v \<Rightarrow>
          s\<lparr>rsetters := (rsetters s)(j := (case rcell s of None \<Rightarrow> RWriting v | Some _ \<Rightarrow> RSetErr v))\<rparr>
      | RWriting v \<Rightarrow> s\<lparr>rcell := Some v, rsetters := (rsetters s)(j := RSetOk v)\<rparr>
      | _ \<Rightarrow> s)"
| "race_step s ReaderStep =
     (case rcell s of None \<Rightarrow> s | Some v \<Rightarrow> s\<lparr>rseen := rseen s @ [v]\<rparr>)"

definition race_init :: "(nat \<Rightarrow> 'a) \<Rightarrow> 'a race_sys" where
  "race_init vals = \<lparr>rcell = None, rsetters = (\<lambda>j. RToSet (vals j)), rseen = []\<rparr>"

interpretation race: machine "race_init vals" race_step for vals .

text \<open>While no thread is between its test and its write, a full cell keeps its value.\<close>

lemma race_stable:
  assumes "rcell s = Some v" and "\<forall>j w. rsetters s j \<noteq> RWriting w"
  shows "rcell (race_step s l) = Some v \<and> (\<forall>j w. rsetters (race_step s l) j \<noteq> RWriting w)"
  using assms by (cases l) (auto split: race_pc.splits)

text \<open>A task that waits on a \<open>WaitableCell\<close> never reads an empty cell. In every interleaving
  of waiters and setters (with \<open>OnceCell::set\<close> as one step) the \<open>unwrap_unchecked\<close> after the
  notification finds a value, every value handed out is the content of the cell, and at most one
  setter succeeds.\<close>

theorem wait_never_reads_empty:
  assumes "cell_reach vals s"
  shows "waiters s i \<noteq> Undefined
    \<and> (waiters s i = Returned v \<longrightarrow> cell s = Some v)
    \<and> (won (setters s j) \<noteq> None \<and> won (setters s k) \<noteq> None \<longrightarrow> j = k)"
  using cell_reach_inv [OF assms] by (auto simp: cell_inv_def)

text \<open>C9: No wake-up is lost. Once a value is set and its setter has called \<open>notify_waiters\<close>, every
  parked waiter can take its next step, and that step returns the value.\<close>

theorem no_lost_wakeup:
  assumes "cell_reach vals s" and "cell s = Some v" and "\<forall>j w. setters s j \<noteq> ToNotify w"
    and "waiters s i = Parked b"
  shows "cell_step s (s\<lparr>waiters := (waiters s)(i := Returned v)\<rparr>)"
proof -
  have "waiters s i = Parked True" using assms cell_reach_parked [OF assms] by simp
  from cell_step.wake [OF this] show ?thesis by (simp add: assms(2))
qed

text \<open>The cell is not write-once when two threads set it: a schedule exists in which both
  setters succeed and a value that a reader already obtained is replaced. The declaration
  \<open>unsafe impl Sync\<close> relies on a mutex that the struct does not have.\<close>

theorem concurrent_set_not_once:
  fixes a b :: 'a
  shows "\<exists>ls. (let s = race.run (race_init (\<lambda>j. if j = 0 then a else b)) ls in
     rsetters s 0 = RSetOk a \<and> rsetters s 1 = RSetOk b \<and> rseen s = [a] \<and> rcell s = Some b)"
proof (intro exI)
  let ?ls = "[SetterStep 0, SetterStep 1, SetterStep 0, ReaderStep, SetterStep 1]"
  show "let s = race.run (race_init (\<lambda>j. if j = 0 then a else b)) ?ls in
     rsetters s 0 = RSetOk a \<and> rsetters s 1 = RSetOk b \<and> rseen s = [a] \<and> rcell s = Some b"
    by (simp add: race_init_def)
qed

section \<open>Witnesses\<close>

text \<open>A run of one waiter and one setter up to the notification.\<close>

definition notified_example :: "nat cell_sys" where
  "notified_example =
     \<lparr>cell = Some 7, waiters = (\<lambda>_. Idle)(0 := Parked True),
      setters = (\<lambda>_. ToSet 7)(0 := SetOk 7)\<rparr>"

lemma notified_example_reach: "cell_reach (\<lambda>_. 7) notified_example"
proof -
  let ?s0 = "cell_init (\<lambda>_. 7 :: nat)"
  let ?s1 = "?s0\<lparr>waiters := (waiters ?s0)(0 := Registered False)\<rparr>"
  let ?s2 = "?s1\<lparr>waiters := (waiters ?s1)(0 := Parked False)\<rparr>"
  let ?s3 = "?s2\<lparr>cell := Some 7, setters := (setters ?s2)(0 := ToNotify 7)\<rparr>"
  let ?s4 = "?s3\<lparr>waiters := notify \<circ> waiters ?s3, setters := (setters ?s3)(0 := SetOk 7)\<rparr>"
  have "cell_reach (\<lambda>_. 7) ?s1"
    by (rule cell_reach.step [OF cell_reach.init cell_step.register]) (simp add: cell_init_def)
  then have "cell_reach (\<lambda>_. 7) ?s2"
    by (rule cell_reach.step [OF _ cell_step.check_miss]) (simp_all add: cell_init_def)
  then have "cell_reach (\<lambda>_. 7) ?s3"
    by (rule cell_reach.step [OF _ cell_step.set_ok]) (simp_all add: cell_init_def)
  then have "cell_reach (\<lambda>_. 7) ?s4"
    by (rule cell_reach.step [OF _ cell_step.notify_waiters]) simp
  also have "?s4 = notified_example"
    by (auto simp: notified_example_def cell_init_def fun_eq_iff)
  finally show ?thesis .
qed

lemma returned_example_reach:
  "cell_reach (\<lambda>_. 7) (notified_example\<lparr>waiters := (\<lambda>_. Idle)(0 := Returned 7)\<rparr>)"
proof -
  let ?t = "notified_example\<lparr>waiters := (waiters notified_example)(0 :=
      (case cell notified_example of Some v \<Rightarrow> Returned v | None \<Rightarrow> Undefined))\<rparr>"
  have "cell_reach (\<lambda>_. 7) ?t"
    by (rule cell_reach.step [OF notified_example_reach cell_step.wake])
      (simp add: notified_example_def)
  then show ?thesis by (simp add: notified_example_def)
qed

theorem wait_never_reads_empty_witness:
  "(let s = notified_example\<lparr>waiters := (\<lambda>_. Idle)(0 := Returned 7)\<rparr> in
      waiters s 0 \<noteq> Undefined \<and> cell s = Some 7)"
  using wait_never_reads_empty [OF returned_example_reach, of 0 7 0 0]
  by (simp add: notified_example_def)

theorem no_lost_wakeup_witness:
  "cell_step notified_example
     (notified_example\<lparr>waiters := (waiters notified_example)(0 := Returned 7)\<rparr>)"
  by (rule no_lost_wakeup [OF notified_example_reach, where b = True])
    (auto simp: notified_example_def)

end
