(* ===== verification/Instance_Data.thy ===== *)
theory Instance_Data
  imports Task_State Instance_Cfg Waitable_Cell
begin

text \<open>
  \<open>InstanceData\<close> (\<open>containerd-shimkit/src/sandbox/shim/instance_data.rs\<close>): a container instance
  with its configuration, its pid and its task state.

  The \<open>Instance\<close> trait (\<open>sandbox/instance.rs\<close>) is a record of functions on a handle \<open>'i\<close> and a
  world \<open>'w\<close> that holds whatever the methods change; \<open>i_poll\<close> is one poll of the future that
  \<open>wait\<close> returns. The first part of the theory runs the methods one after the other, the second
  part runs any number of them interleaved, with the write lock that each of them takes.
\<close>

section \<open>The Instance trait\<close>

type_synonym datetime = "int \<times> u32"
type_synonym exit_info = "u32 \<times> datetime"

record ('w, 'i) instance_ops =
  i_new :: "'w \<Rightarrow> string \<Rightarrow> instance_config \<Rightarrow> 'w \<times> 'i sandbox_result"
  i_start :: "'w \<Rightarrow> 'i \<Rightarrow> 'w \<times> u32 sandbox_result"
  i_kill :: "'w \<Rightarrow> 'i \<Rightarrow> u32 \<Rightarrow> 'w \<times> unit sandbox_result"
  i_delete :: "'w \<Rightarrow> 'i \<Rightarrow> 'w \<times> unit sandbox_result"
  i_poll :: "'w \<Rightarrow> 'i \<Rightarrow> exit_info option"

section \<open>InstanceData\<close>

record 'i instance_data =
  inst :: 'i
  id_config :: instance_config
  pid_cell :: "u32 option"
  tstate :: task_state

definition id_new ::
  "('w, 'i) instance_ops \<Rightarrow> 'w \<Rightarrow> string \<Rightarrow> instance_config \<Rightarrow> 'w \<times> 'i instance_data sandbox_result" where
  "id_new ops w cid cfg =
     st_then (i_new ops w cid cfg) (\<lambda>w' i.
       (w', Ok \<lparr>inst = i, id_config = cfg, pid_cell = None, tstate = Created\<rparr>))"

definition id_pid :: "'i instance_data \<Rightarrow> u32 option" where
  "id_pid d = pid_cell d"

text \<open>\<open>let _ = s.started()\<close>: the result of a transition is dropped, so a refused one leaves the
  state.\<close>

definition force :: "(task_state \<Rightarrow> task_state sandbox_result) \<Rightarrow> task_state \<Rightarrow> task_state" where
  "force tr s = fst (assign_state s (tr s))"

definition id_start ::
  "('w, 'i) instance_ops \<Rightarrow> 'w \<Rightarrow> 'i instance_data \<Rightarrow> ('w \<times> 'i instance_data) \<times> u32 sandbox_result" where
  "id_start ops w d =
     (case assign_state (tstate d) (ts_start (tstate d)) of
        (s, Err e) \<Rightarrow> ((w, d\<lparr>tstate := s\<rparr>), Err e)
      | (s, Panic m) \<Rightarrow> ((w, d\<lparr>tstate := s\<rparr>), Panic m)
      | (s, Ok _) \<Rightarrow>
          (case i_start ops w (inst d) of
             (w', Ok pid) \<Rightarrow>
               ((w', d\<lparr>pid_cell := fst (once_set (pid_cell d) pid), tstate := force ts_started s\<rparr>), Ok pid)
           | (w', Err e) \<Rightarrow> ((w', d\<lparr>tstate := force ts_stop s\<rparr>), Err e)
           | (w', Panic m) \<Rightarrow> ((w', d\<lparr>tstate := s\<rparr>), Panic m)))"

definition id_kill ::
  "('w, 'i) instance_ops \<Rightarrow> 'w \<Rightarrow> 'i instance_data \<Rightarrow> u32 \<Rightarrow> ('w \<times> 'i instance_data) \<times> unit sandbox_result" where
  "id_kill ops w d signal =
     (case assign_state (tstate d) (ts_kill (tstate d)) of
        (s, Err e) \<Rightarrow> ((w, d\<lparr>tstate := s\<rparr>), Err e)
      | (s, Panic m) \<Rightarrow> ((w, d\<lparr>tstate := s\<rparr>), Panic m)
      | (s, Ok _) \<Rightarrow>
          (case i_kill ops w (inst d) signal of (w', r) \<Rightarrow> ((w', d\<lparr>tstate := s\<rparr>), r)))"

definition id_delete ::
  "('w, 'i) instance_ops \<Rightarrow> 'w \<Rightarrow> 'i instance_data \<Rightarrow> ('w \<times> 'i instance_data) \<times> unit sandbox_result" where
  "id_delete ops w d =
     (case assign_state (tstate d) (ts_delete (tstate d)) of
        (s, Err e) \<Rightarrow> ((w, d\<lparr>tstate := s\<rparr>), Err e)
      | (s, Panic m) \<Rightarrow> ((w, d\<lparr>tstate := s\<rparr>), Panic m)
      | (s, Ok _) \<Rightarrow>
          (case i_delete ops w (inst d) of
             (w', Ok u) \<Rightarrow> ((w', d\<lparr>tstate := s\<rparr>), Ok u)
           | (w', Err e) \<Rightarrow> ((w', d\<lparr>tstate := force ts_stop s\<rparr>), Err e)
           | (w', Panic m) \<Rightarrow> ((w', d\<lparr>tstate := s\<rparr>), Panic m)))"

text \<open>One poll of \<open>wait\<close>, with the lock free: when the instance has exited, the state becomes
  \<open>Exited\<close> whatever it was.\<close>

definition id_wait ::
  "('w, 'i) instance_ops \<Rightarrow> 'w \<Rightarrow> 'i instance_data \<Rightarrow> 'i instance_data \<times> exit_info option" where
  "id_wait ops w d =
     (case i_poll ops w (inst d) of
        None \<Rightarrow> (d, None)
      | Some r \<Rightarrow> (d\<lparr>tstate := Exited\<rparr>, Some r))"

section \<open>What the operations do to the state\<close>

lemma force_simps [simp]:
  "force ts_started Starting = Started" "force ts_stop Starting = Exited"
  "force ts_stop Deleting = Exited" "force ts_stop Started = Exited"
  by (simp_all add: force_def)

lemma id_start_cases:
  "id_start ops w d =
     (if tstate d = Created then
        (case i_start ops w (inst d) of
           (w', Ok pid) \<Rightarrow> ((w', d\<lparr>pid_cell := fst (once_set (pid_cell d) pid), tstate := Started\<rparr>), Ok pid)
         | (w', Err e) \<Rightarrow> ((w', d\<lparr>tstate := Exited\<rparr>), Err e)
         | (w', Panic m) \<Rightarrow> ((w', d\<lparr>tstate := Starting\<rparr>), Panic m))
      else ((w, d), state_transition_error (task_state_debug (tstate d)) ''Starting''))"
  by (cases "tstate d")
    (simp_all add: id_start_def state_transition_error_def split: prod.splits result.splits)

lemma id_kill_cases:
  "id_kill ops w d sig =
     (if tstate d = Started then (case i_kill ops w (inst d) sig of (w', r) \<Rightarrow> ((w', d), r))
      else ((w, d), state_transition_error (task_state_debug (tstate d))
                      (CHR 0x22 # ''Killing'' @ [CHR 0x22])))"
  by (cases "tstate d")
    (simp_all add: id_kill_def state_transition_error_def split: prod.splits)

lemma id_delete_cases:
  "id_delete ops w d =
     (if tstate d = Created \<or> tstate d = Exited then
        (case i_delete ops w (inst d) of
           (w', Ok u) \<Rightarrow> ((w', d\<lparr>tstate := Deleting\<rparr>), Ok u)
         | (w', Err e) \<Rightarrow> ((w', d\<lparr>tstate := Exited\<rparr>), Err e)
         | (w', Panic m) \<Rightarrow> ((w', d\<lparr>tstate := Deleting\<rparr>), Panic m))
      else ((w, d), state_transition_error (task_state_debug (tstate d)) ''Deleting''))"
  by (cases "tstate d")
    (simp_all add: id_delete_def state_transition_error_def split: prod.splits result.splits)

lemmas id_cases = id_start_cases id_kill_cases id_delete_cases

text \<open>How state and pid fit together outside the operations: the pid is set exactly by a
  successful start.\<close>

definition data_ok :: "'i instance_data \<Rightarrow> bool" where
  "data_ok d \<longleftrightarrow>
     (tstate d \<in> {Created, Starting} \<longrightarrow> pid_cell d = None) \<and>
     (tstate d = Started \<longrightarrow> pid_cell d \<noteq> None)"

lemma data_ok_new: "id_new ops w cid cfg = (w', Ok d) \<Longrightarrow> data_ok d \<and> tstate d = Created"
  by (auto simp: id_new_def data_ok_def res_simps)

lemma data_ok_start: "data_ok d \<Longrightarrow> id_start ops w d = ((w', d'), r) \<Longrightarrow> data_ok d'"
  by (cases "pid_cell d")
    (auto simp: id_start_cases data_ok_def split: prod.splits result.splits if_splits)

lemma data_ok_kill: "data_ok d \<Longrightarrow> id_kill ops w d sig = ((w', d'), r) \<Longrightarrow> data_ok d'"
  by (auto simp: id_kill_cases split: prod.splits if_splits)

lemma data_ok_delete: "data_ok d \<Longrightarrow> id_delete ops w d = ((w', d'), r) \<Longrightarrow> data_ok d'"
  by (auto simp: id_delete_cases data_ok_def split: prod.splits result.splits if_splits)

lemma data_ok_wait: "data_ok d \<Longrightarrow> id_wait ops w d = (d', r) \<Longrightarrow> data_ok d'"
  by (auto simp: id_wait_def data_ok_def split: option.splits)

lemmas data_ok_intros = data_ok_start data_ok_kill data_ok_delete data_ok_wait

text \<open>The pid is written once: no operation changes a pid that is set.\<close>

lemma pid_stable:
  assumes "pid_cell d = Some p"
  shows "pid_cell (snd (fst (id_start ops w d))) = Some p"
    and "pid_cell (snd (fst (id_kill ops w d sig))) = Some p"
    and "pid_cell (snd (fst (id_delete ops w d))) = Some p"
    and "pid_cell (fst (id_wait ops w d)) = Some p"
  using assms
  by (auto simp: id_cases id_wait_def split: prod.splits result.splits option.splits)

section \<open>The contract of an instance\<close>

text \<open>What \<open>InstanceData\<close> and the task service rely on: an exit code that \<open>wait\<close> has
  delivered stays the exit code, whatever is done to this or another instance. An implementation
  may promise in addition that a failed start leaves an exit code behind, so that nobody waits
  for a process that never ran.\<close>

locale instance_contract =
  fixes ops :: "('w, 'i) instance_ops"
  assumes new_keeps_exit: "i_poll ops w j = Some r \<Longrightarrow> i_poll ops (fst (i_new ops w cid cfg)) j = Some r"
    and start_keeps_exit: "i_poll ops w j = Some r \<Longrightarrow> i_poll ops (fst (i_start ops w i)) j = Some r"
    and kill_keeps_exit: "i_poll ops w j = Some r \<Longrightarrow> i_poll ops (fst (i_kill ops w i sig)) j = Some r"
    and delete_keeps_exit: "i_poll ops w j = Some r \<Longrightarrow> i_poll ops (fst (i_delete ops w i)) j = Some r"
begin

lemma id_start_keeps_exit:
  "i_poll ops w j = Some r \<Longrightarrow> i_poll ops (fst (fst (id_start ops w d))) j = Some r"
  using start_keeps_exit [of w j r "inst d"]
  by (auto simp: id_start_cases split: prod.splits result.splits)

lemma id_kill_keeps_exit:
  "i_poll ops w j = Some r \<Longrightarrow> i_poll ops (fst (fst (id_kill ops w d sig))) j = Some r"
  using kill_keeps_exit [of w j r "inst d" sig]
  by (auto simp: id_kill_cases split: prod.splits)

lemma id_delete_keeps_exit:
  "i_poll ops w j = Some r \<Longrightarrow> i_poll ops (fst (fst (id_delete ops w d))) j = Some r"
  using delete_keeps_exit [of w j r "inst d"]
  by (auto simp: id_delete_cases split: prod.splits result.splits)

lemma id_wait_twice:
  "id_wait ops w d = (d', Some r) \<Longrightarrow> id_wait ops w d' = (d', Some r)"
  by (cases r) (auto simp: id_wait_def split: option.splits)

lemma id_wait_after_delete:
  "id_wait ops w d = (d', Some r) \<Longrightarrow> id_delete ops w d' = ((w2, d2), r2) \<Longrightarrow>
     snd (id_wait ops w2 d2) = Some r"
  using delete_keeps_exit [of w "inst d" r "inst d"]
  by (cases r)
    (auto simp: id_wait_def id_delete_cases split: option.splits prod.splits result.splits if_splits)

end

locale instance_contract_exit = instance_contract ops for ops :: "('w, 'i) instance_ops" +
  fixes valid :: "'w \<Rightarrow> 'i \<Rightarrow> bool"
  assumes new_valid: "i_new ops w cid cfg = (w', Ok i) \<Longrightarrow> valid w' i"
    and valid_new: "valid w j \<Longrightarrow> valid (fst (i_new ops w cid cfg)) j"
    and valid_start: "valid w j \<Longrightarrow> valid (fst (i_start ops w i)) j"
    and valid_kill: "valid w j \<Longrightarrow> valid (fst (i_kill ops w i sig)) j"
    and valid_delete: "valid w j \<Longrightarrow> valid (fst (i_delete ops w i)) j"
    and failed_start_exits:
      "valid w i \<Longrightarrow> i_start ops w i = (w', r) \<Longrightarrow> \<not> is_ok r \<Longrightarrow> i_poll ops w' i \<noteq> None"
begin

lemma id_new_valid: "id_new ops w cid cfg = (w', Ok d) \<Longrightarrow> valid w' (inst d)"
  by (auto simp: id_new_def res_simps intro: new_valid)

lemma failed_start_wait:
  assumes "valid w (inst d)" and "tstate d = Created" and "id_start ops w d = ((w', d'), r)"
    and "\<not> is_ok r"
  shows "\<exists>x. snd (id_wait ops w' d') = Some x \<and> tstate (fst (id_wait ops w' d')) = Exited"
proof -
  from assms(2,3) have st: "i_start ops w (inst d) = (w', r)" and d': "inst d' = inst d"
    by (auto simp: id_start_cases split: prod.splits result.splits)
  from failed_start_exits [OF assms(1) st assms(4)] show ?thesis
    by (auto simp: id_wait_def d' split: option.splits)
qed

end

end
