(* ===== verification/Instance_Locking.thy ===== *)
theory Instance_Locking
  imports Instance_Data
begin

text \<open>
  Concurrent calls on one \<open>InstanceData\<close>. Every method is a thread that takes the write lock of
  the task state, makes its transition, calls the instance and releases the lock; \<open>wait\<close> first
  waits for the instance and takes the lock afterwards. A label lets one thread take its next
  step; where that step is the call into the instance, the label carries its result.
\<close>

datatype lock_call = MStart | MKill | MDelete | MWait

datatype pc =
    Call lock_call
  | Ready
  | Locked lock_call
  | InInstance lock_call
  | Returning lock_call "u32 sandbox_result"
  | Finished "u32 sandbox_result"

record locked =
  lk_state :: task_state
  lk_pid :: "u32 option"
  lk_holder :: "nat option"
  lk_threads :: "nat \<Rightarrow> pc"
  lk_exited :: bool
  lk_start_calls :: nat
  lk_delete_calls :: nat
  lk_refused :: bool

datatype lk_label = Thread nat "u32 sandbox_result" | InstanceExits

definition set_pc :: "locked \<Rightarrow> nat \<Rightarrow> pc \<Rightarrow> locked" where
  "set_pc s i p = s\<lparr>lk_threads := (lk_threads s)(i := p)\<rparr>"

definition release :: "locked \<Rightarrow> nat \<Rightarrow> u32 sandbox_result \<Rightarrow> locked" where
  "release s i r = (set_pc s i (Finished r))\<lparr>lk_holder := None\<rparr>"

text \<open>The first transition of a method, under the lock.\<close>

fun guard_of :: "lock_call \<Rightarrow> task_state \<Rightarrow> task_state sandbox_result" where
  "guard_of MStart s = ts_start s"
| "guard_of MKill s = ts_kill s"
| "guard_of MDelete s = ts_delete s"
| "guard_of MWait s = Ok Exited"

text \<open>The second transition, whose result the code drops; \<open>lk_refused\<close> records a refusal.\<close>

definition dropped_transition :: "(task_state \<Rightarrow> task_state sandbox_result) \<Rightarrow> locked \<Rightarrow> locked" where
  "dropped_transition tr s =
     (case tr (lk_state s) of
        Ok t \<Rightarrow> s\<lparr>lk_state := t\<rparr>
      | _ \<Rightarrow> s\<lparr>lk_refused := True\<rparr>)"

definition acquire :: "locked \<Rightarrow> nat \<Rightarrow> lock_call \<Rightarrow> locked" where
  "acquire s i m =
     (if lk_holder s = None then (set_pc s i (Locked m))\<lparr>lk_holder := Some i\<rparr> else s)"

fun thread_step :: "locked \<Rightarrow> nat \<Rightarrow> u32 sandbox_result \<Rightarrow> pc \<Rightarrow> locked" where
  "thread_step s i r (Call MWait) = (if lk_exited s then set_pc s i Ready else s)"
| "thread_step s i r (Call m) = acquire s i m"
| "thread_step s i r Ready = acquire s i MWait"
| "thread_step s i r (Locked m) =
     (case guard_of m (lk_state s) of
        Ok t \<Rightarrow> if m = MWait then release (s\<lparr>lk_state := t\<rparr>) i (Ok 0)
                else set_pc (s\<lparr>lk_state := t\<rparr>) i (InInstance m)
      | Err e \<Rightarrow> release s i (Err e)
      | Panic msg \<Rightarrow> release s i (Panic msg))"
| "thread_step s i r (InInstance m) =
     set_pc (s\<lparr>lk_start_calls := lk_start_calls s + (if m = MStart then 1 else 0),
               lk_delete_calls := lk_delete_calls s + (if m = MDelete then 1 else 0)\<rparr>)
       i (Returning m r)"
| "thread_step s i r' (Returning m r) =
     release
       (case (m, r) of
          (MStart, Ok p) \<Rightarrow> dropped_transition ts_started (s\<lparr>lk_pid := fst (once_set (lk_pid s) p)\<rparr>)
        | (MStart, Err e) \<Rightarrow> dropped_transition ts_stop s
        | (MDelete, Err e) \<Rightarrow> dropped_transition ts_stop s
        | _ \<Rightarrow> s)
       i r"
| "thread_step s i r (Finished x) = s"

fun lk_step :: "locked \<Rightarrow> lk_label \<Rightarrow> locked" where
  "lk_step s (Thread i r) = thread_step s i r (lk_threads s i)"
| "lk_step s InstanceExits = s\<lparr>lk_exited := True\<rparr>"

definition lk_init :: "(nat \<Rightarrow> lock_call) \<Rightarrow> locked" where
  "lk_init calls =
     \<lparr>lk_state = Created, lk_pid = None, lk_holder = None, lk_threads = (\<lambda>i. Call (calls i)),
      lk_exited = False, lk_start_calls = 0, lk_delete_calls = 0, lk_refused = False\<rparr>"

interpretation lk: machine "lk_init calls" lk_step for calls .

section \<open>The lock protects the second transition\<close>

fun holds_lock :: "pc \<Rightarrow> bool" where
  "holds_lock (Locked m) = True"
| "holds_lock (InInstance m) = True"
| "holds_lock (Returning m r) = True"
| "holds_lock _ = False"

text \<open>The state a method has left while it is inside the instance.\<close>

fun expected :: "pc \<Rightarrow> task_state option" where
  "expected (InInstance m) = (case m of MStart \<Rightarrow> Some Starting | MDelete \<Rightarrow> Some Deleting | _ \<Rightarrow> None)"
| "expected (Returning m r) = (case m of MStart \<Rightarrow> Some Starting | MDelete \<Rightarrow> Some Deleting | _ \<Rightarrow> None)"
| "expected _ = None"

definition lk_inv :: "locked \<Rightarrow> bool" where
  "lk_inv s \<longleftrightarrow>
     (\<forall>i. holds_lock (lk_threads s i) \<longleftrightarrow> lk_holder s = Some i) \<and>
     (\<forall>i t. expected (lk_threads s i) = Some t \<longrightarrow> lk_state s = t) \<and>
     \<not> lk_refused s"

lemma lk_inv_holder: "lk_inv s \<Longrightarrow> holds_lock (lk_threads s i) \<longleftrightarrow> lk_holder s = Some i"
  by (simp add: lk_inv_def)

lemma lk_inv_expected: "lk_inv s \<Longrightarrow> expected (lk_threads s i) = Some t \<Longrightarrow> lk_state s = t"
  by (simp add: lk_inv_def)

lemma expected_holds: "expected p = Some t \<Longrightarrow> holds_lock p"
  by (cases p) auto

lemma expected_None: "\<not> holds_lock p \<Longrightarrow> expected p = None"
  by (cases p) auto

text \<open>A step of the lock holder: nobody else has an expectation on the state.\<close>

lemma lk_inv_others:
  assumes "lk_inv s" and "lk_holder s = Some i" and "j \<noteq> i"
  shows "\<not> holds_lock (lk_threads s j)" and "expected (lk_threads s j) = None"
  using lk_inv_holder [OF assms(1), of j] assms(2,3)
  by (auto intro: expected_None)

lemma lk_inv_release:
  assumes "lk_inv s" and "lk_holder s = Some i"
    and "lk_threads s' = lk_threads s" and "\<not> lk_refused s'"
  shows "lk_inv (release s' i r)"
  using assms lk_inv_others [OF assms(1,2)]
  by (auto simp: lk_inv_def release_def set_pc_def)

lemma lk_inv_advance:
  assumes "lk_inv s" and "lk_holder s = Some i" and "holds_lock p"
    and "\<And>t. expected p = Some t \<Longrightarrow> lk_state s' = t"
    and "lk_threads s' = lk_threads s" and "lk_holder s' = Some i" and "\<not> lk_refused s'"
  shows "lk_inv (set_pc s' i p)"
  using assms lk_inv_others [OF assms(1,2)]
  by (auto simp: lk_inv_def set_pc_def)

lemma lk_inv_acquire:
  assumes "lk_inv s" and "\<not> holds_lock (lk_threads s i)"
  shows "lk_inv (acquire s i m)"
  using assms by (auto simp: lk_inv_def acquire_def set_pc_def)

lemma lk_inv_set_ready:
  assumes "lk_inv s" and "\<not> holds_lock (lk_threads s i)"
  shows "lk_inv (set_pc s i Ready)"
  using assms by (auto simp: lk_inv_def set_pc_def)

lemma lk_inv_thread_step: "lk_inv s \<Longrightarrow> lk_inv (thread_step s i r (lk_threads s i))"
proof (cases "lk_threads s i")
  case (Call m)
  assume "lk_inv s"
  with Call show ?thesis
    by (cases m) (auto intro: lk_inv_acquire lk_inv_set_ready)
next
  case Ready
  assume "lk_inv s"
  with Ready show ?thesis by (auto intro: lk_inv_acquire)
next
  case (Locked m)
  assume inv: "lk_inv s"
  with Locked have h: "lk_holder s = Some i" using lk_inv_holder by fastforce
  from inv have "\<not> lk_refused s" by (simp add: lk_inv_def)
  with inv h Locked show ?thesis
    by (cases m)
      (auto intro!: lk_inv_release lk_inv_advance simp: ts_Ok split: result.splits)
next
  case (InInstance m)
  assume inv: "lk_inv s"
  with InInstance have h: "lk_holder s = Some i" using lk_inv_holder by fastforce
  have "\<And>t. expected (InInstance m) = Some t \<Longrightarrow> lk_state s = t"
    using lk_inv_expected [OF inv, of i] InInstance by simp
  moreover from inv have "\<not> lk_refused s" by (simp add: lk_inv_def)
  ultimately show ?thesis
    using inv h InInstance by (auto intro!: lk_inv_advance)
next
  case (Returning m x)
  assume inv: "lk_inv s"
  with Returning have h: "lk_holder s = Some i" using lk_inv_holder by fastforce
  have e: "\<And>t. expected (Returning m x) = Some t \<Longrightarrow> lk_state s = t"
    using lk_inv_expected [OF inv, of i] Returning by simp
  from inv have "\<not> lk_refused s" by (simp add: lk_inv_def)
  with inv h Returning e show ?thesis
    by (cases m; cases x)
      (auto intro!: lk_inv_release simp: dropped_transition_def)
next
  case (Finished x)
  assume "lk_inv s"
  with Finished show ?thesis by simp
qed

lemma lk_inv_step: "lk_inv s \<Longrightarrow> lk_inv (lk_step s l)"
  by (cases l) (auto simp: lk_inv_thread_step, simp add: lk_inv_def)

lemma lk_inv_init: "lk_inv (lk_init calls)"
  by (simp add: lk_inv_def lk_init_def)

lemma lk_inv_run: "lk_inv (lk.run (lk_init calls) ls)"
  by (rule lk.run_invariant [where I = lk_inv]) (auto intro: lk_inv_init lk_inv_step)

section \<open>One start\<close>

text \<open>The instance is asked to start once: after the first call the state is never \<open>Created\<close>
  again.\<close>

definition once_inv :: "locked \<Rightarrow> bool" where
  "once_inv s \<longleftrightarrow>
     (lk_state s = Created \<longrightarrow> lk_start_calls s = 0) \<and>
     (\<forall>i. lk_threads s i = InInstance MStart \<longrightarrow> lk_start_calls s = 0) \<and>
     lk_start_calls s \<le> 1"

lemma dropped_transition_simps [simp]:
  "lk_threads (dropped_transition tr s) = lk_threads s"
  "lk_start_calls (dropped_transition tr s) = lk_start_calls s"
  by (simp_all add: dropped_transition_def split: result.splits)

lemma dropped_not_created:
  "lk_state (dropped_transition ts_started s) = Created \<Longrightarrow> lk_state s = Created"
  "lk_state (dropped_transition ts_stop s) = Created \<Longrightarrow> lk_state s = Created"
  by (auto simp: dropped_transition_def ts_Ok split: result.splits)

lemma once_inv_thread_step:
  assumes "lk_inv s" and "once_inv s"
  shows "once_inv (thread_step s i r (lk_threads s i))"
proof (cases "lk_threads s i")
  case (Call m)
  with assms(2) show ?thesis
    by (cases m) (auto simp: once_inv_def acquire_def set_pc_def)
next
  case Ready
  with assms(2) show ?thesis by (auto simp: once_inv_def acquire_def set_pc_def)
next
  case (Locked m)
  with assms(2) show ?thesis
    by (cases m) (auto simp: once_inv_def release_def set_pc_def ts_Ok split: result.splits)
next
  case (InInstance m)
  have h: "lk_holder s = Some i"
    using InInstance lk_inv_holder [OF assms(1), of i] by simp
  have others: "lk_threads s j \<noteq> InInstance MStart" if "j \<noteq> i" for j
    using lk_inv_others(1) [OF assms(1) h that] by auto
  have "m = MStart \<Longrightarrow> lk_state s = Starting"
    using lk_inv_expected [OF assms(1), of i] InInstance by simp
  with InInstance assms(2) others show ?thesis
    by (auto simp: once_inv_def set_pc_def)
next
  case (Returning m x)
  with assms(2) show ?thesis
    by (cases m; cases x)
      (auto simp: once_inv_def release_def set_pc_def dest: dropped_not_created)
next
  case (Finished x)
  with assms(2) show ?thesis by simp
qed

lemma once_inv_step: "lk_inv s \<Longrightarrow> once_inv s \<Longrightarrow> once_inv (lk_step s l)"
proof (cases l)
  case InstanceExits
  assume "once_inv s"
  with InstanceExits show ?thesis by (simp add: once_inv_def)
qed (simp add: once_inv_thread_step)

lemma once_inv_run: "once_inv (lk.run (lk_init calls) ls)"
proof -
  have "once_inv (lk_init calls)" by (simp add: once_inv_def lk_init_def)
  then have "lk_inv (lk_init calls) \<and> once_inv (lk_init calls)"
    using lk_inv_init by blast
  then have "lk_inv (lk.run (lk_init calls) ls) \<and> once_inv (lk.run (lk_init calls) ls)"
    by (rule lk.run_invariant [where I = "\<lambda>s. lk_inv s \<and> once_inv s"])
      (blast intro: lk_inv_step once_inv_step)
  then show ?thesis by blast
qed

text \<open>C20: The state transitions whose result \<open>InstanceData\<close> drops are never refused, because the
  write lock is held since the first one: in every interleaving of \<open>start\<close>, \<open>kill\<close>,
  \<open>delete\<close> and \<open>wait\<close> calls, and whatever the instance answers.\<close>

theorem dropped_transitions_never_refused: "\<not> lk_refused (lk.run (lk_init calls) ls)"
  using lk_inv_run by (simp add: lk_inv_def)

text \<open>However many \<open>start\<close> calls race, the instance itself is started at most once, and at
  most one thread at a time is inside the instance.\<close>

theorem instance_started_once:
  "lk_start_calls (lk.run (lk_init calls) ls) \<le> 1
   \<and> (\<exists>i. {j. holds_lock (lk_threads (lk.run (lk_init calls) ls) j)} \<subseteq> {i})"
proof
  show "lk_start_calls (lk.run (lk_init calls) ls) \<le> 1"
    using once_inv_run [of calls ls] by (auto simp: once_inv_def)
  have "{j. holds_lock (lk_threads (lk.run (lk_init calls) ls) j)} \<subseteq> {the (lk_holder (lk.run (lk_init calls) ls))}"
    using lk_inv_run [of calls ls] by (auto simp: lk_inv_def)
  then show "\<exists>i. {j. holds_lock (lk_threads (lk.run (lk_init calls) ls) j)} \<subseteq> {i}" ..
qed

text \<open>\<open>Deleting\<close> is not final: \<open>wait\<close> overwrites it with \<open>Exited\<close>, so a waiter that
  wakes up after a successful delete lets a second delete through to the instance.\<close>

theorem delete_runs_twice:
  "\<exists>calls ls. lk_delete_calls (lk.run (lk_init calls) ls) = 2
     \<and> lk_threads (lk.run (lk_init calls) ls) 1 = Finished (Ok 0)
     \<and> lk_threads (lk.run (lk_init calls) ls) 3 = Finished (Ok 0)"
proof (intro exI)
  let ?calls = "(\<lambda>_. MWait)(0 := MStart, 1 := MDelete, 3 := MDelete)"
  let ?t = "\<lambda>i. replicate 4 (Thread i (Ok 0))"
  let ?ls = "?t 0 @ [InstanceExits] @ ?t 4 @ ?t 1 @ ?t 2 @ ?t 3"
  show "lk_delete_calls (lk.run (lk_init ?calls) ?ls) = 2
     \<and> lk_threads (lk.run (lk_init ?calls) ?ls) 1 = Finished (Ok 0)
     \<and> lk_threads (lk.run (lk_init ?calls) ?ls) 3 = Finished (Ok 0)"
    by (simp add: lk_init_def numeral_eq_Suc acquire_def set_pc_def release_def dropped_transition_def)
qed

end
