(* ===== verification/Hooks.thy ===== *)
theory Hooks
  imports Errors
begin

text \<open>
  The prestart hooks of an OCI spec (\<open>containerd-shimkit/src/sandbox/oci.rs\<close>, the unix code).

  The operating system is a world \<open>'w\<close> with the four process operations the code calls; they
  are a record of functions, an argument of the model.
\<close>

record hook =
  hook_path :: path
  hook_args :: "string list option"
  hook_env :: "string list option"

record hooks =
  prestart :: "hook list option"

record hook_command =
  hc_program :: path
  hc_arg0 :: string
  hc_args :: "string list"
  hc_env :: "(string \<times> string) list"

datatype pipe_error = BrokenPipe | PipeOther string

text \<open>Spawn with a piped stdin, write to the stdin, kill, and wait for the exit status.\<close>

record 'w process_ops =
  spawn :: "'w \<Rightarrow> hook_command \<Rightarrow> 'w \<times> (nat, string) result"
  write_stdin :: "'w \<Rightarrow> nat \<Rightarrow> string \<Rightarrow> 'w \<times> (unit, pipe_error) result"
  kill_process :: "'w \<Rightarrow> nat \<Rightarrow> 'w"
  wait_process :: "'w \<Rightarrow> nat \<Rightarrow> 'w \<times> (int, string) result"

text \<open>\<open>split('=')\<close>, the first piece is the key and the rest is joined again; collecting into a
  \<open>HashMap\<close> keeps the last value of a key.\<close>

definition parse_env_entry :: "string \<Rightarrow> string \<times> string" where
  "parse_env_entry e =
     (case split_on CHR ''='' e of [] \<Rightarrow> ([], []) | key # rest \<Rightarrow> (key, join_with ''='' rest))"

definition parse_env :: "string list \<Rightarrow> (string \<times> string) list" where
  "parse_env envs = foldl (\<lambda>m e. AList.update (fst (parse_env_entry e)) (snd (parse_env_entry e)) m) [] envs"

text \<open>The command of one hook.\<close>

definition hook_command_of :: "hook \<Rightarrow> hook_command" where
  "hook_command_of h =
     \<lparr>hc_program = hook_path h,
      hc_arg0 = (case hook_args h of Some (a # _) \<Rightarrow> a | _ \<Rightarrow> hook_path h),
      hc_args = (case hook_args h of Some (_ # as) \<Rightarrow> as | _ \<Rightarrow> []),
      hc_env = (case hook_env h of Some env \<Rightarrow> parse_env env | None \<Rightarrow> [])\<rparr>"

text \<open>One iteration of the loop: spawn, write the state, kill on a write error other than
  \<open>BrokenPipe\<close>, wait. The exit status is dropped.\<close>

definition run_hook ::
  "'w process_ops \<Rightarrow> u32 \<Rightarrow> 'w \<Rightarrow> hook \<Rightarrow> 'w \<times> unit sandbox_result" where
  "run_hook ops pid w h =
     (case spawn ops w (hook_command_of h) of
        (w1, Err e) \<Rightarrow> (w1, Err (Any ''Failed to execute hook''))
      | (w1, Panic m) \<Rightarrow> (w1, Panic m)
      | (w1, Ok p) \<Rightarrow>
          (let state = ''{ '' @ [CHR 0x22] @ ''pid'' @ [CHR 0x22] @ '': '' @ show_nat (unat pid) @ '' }'';
               (w2, wr) = write_stdin ops w1 p state;
               w3 = (case wr of Err (PipeOther _) \<Rightarrow> kill_process ops w2 p | _ \<Rightarrow> w2)
           in case wait_process ops w3 p of
                (w4, Ok _) \<Rightarrow> (w4, Ok ())
              | (w4, Err e) \<Rightarrow> (w4, Err (Stdio e))
              | (w4, Panic m) \<Rightarrow> (w4, Panic m)))"

fun run_hooks ::
  "'w process_ops \<Rightarrow> u32 \<Rightarrow> 'w \<Rightarrow> hook list \<Rightarrow> 'w \<times> unit sandbox_result" where
  "run_hooks ops pid w [] = (w, Ok ())"
| "run_hooks ops pid w (h # hs) = st_then (run_hook ops pid w h) (\<lambda>w' _. run_hooks ops pid w' hs)"

definition setup_prestart_hooks ::
  "'w process_ops \<Rightarrow> u32 \<Rightarrow> 'w \<Rightarrow> hooks option \<Rightarrow> 'w \<times> unit sandbox_result" where
  "setup_prestart_hooks ops pid w hs =
     (case hs of
        None \<Rightarrow> (w, Ok ())
      | Some h \<Rightarrow>
          (case prestart h of
             None \<Rightarrow> (w, Panic ''called Option::unwrap() on a None value'')
           | Some l \<Rightarrow> run_hooks ops pid w l))"

section \<open>The environment of a hook\<close>

lemma parse_env_entry_pair:
  "CHR ''='' \<notin> set k \<Longrightarrow> parse_env_entry (k @ ''='' @ v) = (k, v)"
  by (simp add: parse_env_entry_def split_on_append join_split_on)

lemma parse_env_entry_bare: "CHR ''='' \<notin> set k \<Longrightarrow> parse_env_entry k = (k, [])"
  by (simp add: parse_env_entry_def split_on_none)

text \<open>\<open>parse_env\<close> is the map in which the last entry of a key wins.\<close>

lemma parse_env_foldl:
  "map_of (foldl (\<lambda>m e. AList.update (fst (f e)) (snd (f e)) m) al es)
     = map_of al ++ map_of (rev (map f es))"
proof (induction es arbitrary: al)
  case (Cons e es)
  then show ?case by (simp add: map_add_upd_left fun_eq_iff map_add_def split: option.splits)
qed simp

lemma map_of_parse_env: "map_of (parse_env envs) = map_of (rev (map parse_env_entry envs))"
  by (simp add: parse_env_def parse_env_foldl)

section \<open>Running the hooks\<close>

lemma run_hooks_append:
  "run_hooks ops pid w (xs @ ys) =
     st_then (run_hooks ops pid w xs) (\<lambda>w' _. run_hooks ops pid w' ys)"
proof (induction xs arbitrary: w)
  case (Cons h hs)
  then show ?case
    by (cases "run_hook ops pid w h"; cases "snd (run_hook ops pid w h)") auto
qed simp

text \<open>No hook result depends on an exit status: two operating systems that differ in the exit
  statuses only give the same result.\<close>

definition drop_status :: "'w process_ops \<Rightarrow> 'w process_ops" where
  "drop_status ops = ops\<lparr>wait_process := (\<lambda>w p. map_prod id (map_result (\<lambda>_. 0) id) (wait_process ops w p))\<rparr>"

lemma run_hook_drop_status: "run_hook (drop_status ops) pid w h = run_hook ops pid w h"
  by (auto simp: run_hook_def drop_status_def Let_def
      split: prod.splits result.splits pipe_error.splits)

lemma run_hooks_drop_status: "run_hooks (drop_status ops) pid w hs = run_hooks ops pid w hs"
  by (induction hs arbitrary: w) (simp_all add: run_hook_drop_status)

text \<open>A variable of a hook's environment is looked up as the code intends: the value is
  everything after the first \<open>=\<close> (later \<open>=\<close> signs included), an entry without \<open>=\<close> is a
  variable with an empty value, and the last entry of a name wins.\<close>

theorem parse_env_lookup:
  assumes "CHR ''='' \<notin> set k" and "\<forall>e \<in> set post. fst (parse_env_entry e) \<noteq> k"
  shows "map_of (parse_env (pre @ (k @ ''='' @ v) # post)) k = Some v
    \<and> map_of (parse_env (pre @ k # post)) k = Some []"
proof -
  have n: "map_of (rev (map parse_env_entry post)) k = None"
    using assms(2) by (auto simp: map_of_eq_None_iff)
  show ?thesis
    using n parse_env_entry_pair [OF assms(1)] parse_env_entry_bare [OF assms(1)]
    by (simp add: map_of_parse_env map_add_def map_of_append)
qed

theorem parse_env_lookup_witness:
  "map_of (parse_env ([''PATH=/usr''] @ (''PATH'' @ ''='' @ ''/bin=x'') # [''HOME=/''])) ''PATH''
     = Some ''/bin=x''"
  using parse_env_lookup [of "''PATH''" "[''HOME=/'']" "[''PATH=/usr'']" "''/bin=x''"]
  by (simp add: parse_env_entry_def)

text \<open>The exit status of a prestart hook has no effect: the result and the world after
  \<open>setup_prestart_hooks\<close> are the same for every exit status of every hook, so a hook that fails
  does not stop the container, although the comment in the loop says that the status is checked
  later in the function.\<close>

theorem hook_exit_status_ignored:
  "setup_prestart_hooks (drop_status ops) pid w hs = setup_prestart_hooks ops pid w hs"
  by (simp add: setup_prestart_hooks_def run_hooks_drop_status split: option.splits)

text \<open>\<open>setup_prestart_hooks\<close> panics on its own account exactly when the spec has a
  \<open>hooks\<close> object without \<open>prestart\<close> hooks (for example with \<open>poststop\<close> hooks only), when the
  process operations do not panic.\<close>

theorem setup_prestart_hooks_panics_iff:
  assumes "\<And>w c. \<not> is_panic (snd (spawn ops w c))" and "\<And>w p. \<not> is_panic (snd (wait_process ops w p))"
  shows "is_panic (snd (setup_prestart_hooks ops pid w hs)) \<longleftrightarrow>
    (\<exists>h. hs = Some h \<and> prestart h = None)"
proof -
  have one: "\<not> is_panic (snd (run_hook ops pid w h))" for w h
  proof -
    have "\<not> is_panic r" if "spawn ops w c = (w', r)" for w c w' r using assms(1) [of w c] that by simp
    moreover have "\<not> is_panic r" if "wait_process ops w p = (w', r)" for w p w' r
      using assms(2) [of w p] that by simp
    ultimately show ?thesis
      by (fastforce simp: run_hook_def Let_def split: prod.splits result.splits)
  qed
  have "\<not> is_panic (snd (run_hooks ops pid w l))" for w l
  proof (induction l arbitrary: w)
    case (Cons h l)
    then show ?case using one [of w h]
      by (cases "run_hook ops pid w h"; cases "snd (run_hook ops pid w h)") auto
  qed simp
  then show ?thesis
    by (auto simp: setup_prestart_hooks_def split: option.splits)
qed

definition quiet_processes :: "nat process_ops" where
  "quiet_processes =
     \<lparr>spawn = (\<lambda>w c. (Suc w, Ok w)), write_stdin = (\<lambda>w p s. (w, Ok ())),
      kill_process = (\<lambda>w p. w), wait_process = (\<lambda>w p. (w, Ok 1))\<rparr>"

theorem setup_prestart_hooks_panics_iff_witness:
  "is_panic (snd (setup_prestart_hooks quiet_processes 1 0 (Some \<lparr>prestart = None\<rparr>)))"
  using setup_prestart_hooks_panics_iff [of quiet_processes 1 0 "Some \<lparr>prestart = None\<rparr>"]
  by (simp add: quiet_processes_def)

end
