(* ===== verification/Local_Service.thy ===== *)
theory Local_Service
  imports Instance_Data Hooks
begin

text \<open>
  The task service \<open>Local\<close> (\<open>containerd-shimkit/src/sandbox/shim/local.rs\<close>) with the events of
  \<open>shim/events.rs\<close>: one function per request handler, from the first check to the last event.

  An \<open>Arc<InstanceData>\<close> is an index into the list \<open>l_heap\<close>: the map, the background tasks and
  the requests in flight share the instances. A handler that has to give up a lock between two
  accesses is the composition of its pieces, so that the theory of interleaved requests can run
  the same pieces. The spec loader, the mounts, the metrics and the instance itself are code
  outside this component: they are the fields of \<open>shim_env\<close>.
\<close>

section \<open>Requests, replies and events\<close>

record mount =
  m_type :: string
  m_source :: string
  m_target :: string
  m_options :: "string list"

record create_request =
  cr_id :: string
  cr_bundle :: path
  cr_rootfs :: "mount list"
  cr_terminal :: bool
  cr_stdin :: path
  cr_stdout :: path
  cr_stderr :: path
  cr_checkpoint :: string
  cr_parent_checkpoint :: string
  cr_options :: "any option"

text \<open>The parts of an OCI runtime spec that the service reads.\<close>

record oci_spec =
  sp_root :: "path option"
  sp_hooks :: "hooks option"
  sp_annotations :: "(string \<times> string) list option"

record timestamp =
  ts_seconds :: int
  ts_nanos :: i32

text \<open>\<open>DateTime::to_timestamp\<close>: whole seconds, and the nanoseconds cast from \<open>u32\<close> to
  \<open>i32\<close>.\<close>

definition to_timestamp :: "datetime \<Rightarrow> timestamp" where
  "to_timestamp t = \<lparr>ts_seconds = fst t, ts_nanos = snd t\<rparr>"

datatype event =
    TaskCreate (ev_container: string) path "mount list" path path path
  | TaskStart (ev_container: string) u32
  | TaskExit (ev_container: string) string u32 u32 "timestamp option"
  | TaskDelete (ev_container: string) u32 u32 "timestamp option"

datatype status = CREATED | RUNNING | STOPPED

record state_response =
  sr_bundle :: path
  sr_stdin :: path
  sr_stdout :: path
  sr_stderr :: path
  sr_pid :: u32
  sr_exit_status :: u32
  sr_exited_at :: "timestamp option"
  sr_status :: status

record delete_response =
  dr_pid :: u32
  dr_exit_status :: u32
  dr_exited_at :: "timestamp option"

record wait_response =
  wr_exit_status :: u32
  wr_exited_at :: "timestamp option"

section \<open>The service\<close>

record ('w, 'i, 'm) shim_env =
  e_ops :: "('w, 'i) instance_ops"
  e_proc :: "'w process_ops"
  e_decode :: "string \<Rightarrow> (string, string) result"
  e_toml :: "string \<Rightarrow> (shim_config, string) result"
  e_load_spec :: "'w \<Rightarrow> path \<Rightarrow> (oci_spec, string) result"
  e_canonicalize_rootfs :: "'w \<Rightarrow> oci_spec \<Rightarrow> path \<Rightarrow> (oci_spec, string) result"
  e_create_dir_all :: "'w \<Rightarrow> path \<Rightarrow> 'w \<times> (unit, string) result"
  e_mount_rootfs ::
    "'w \<Rightarrow> string option \<Rightarrow> string option \<Rightarrow> string list \<Rightarrow> path \<Rightarrow> 'w \<times> (unit, shim_error) result"
  e_get_metrics :: "'w \<Rightarrow> u32 \<Rightarrow> 'm sandbox_result"
  e_pid :: u32

text \<open>A watcher is the task that \<open>task_start\<close> spawns: the instance, its id and its pid.\<close>

type_synonym watcher = "nat \<times> string \<times> u32"

record ('w, 'i) local =
  l_world :: 'w
  l_heap :: "'i instance_data list"
  l_instances :: "(string \<times> nat) list"
  l_events :: "event list"
  l_exit :: "unit waitable_cell"
  l_namespace :: string
  l_address :: string
  l_watchers :: "watcher list"

definition local_new :: "'w \<Rightarrow> unit waitable_cell \<Rightarrow> string \<Rightarrow> string \<Rightarrow> ('w, 'i) local" where
  "local_new w exit ns address =
     \<lparr>l_world = w, l_heap = [], l_instances = [], l_events = [], l_exit = exit,
      l_namespace = ns, l_address = address, l_watchers = []\<rparr>"

definition get_instance :: "('w, 'i) local \<Rightarrow> string \<Rightarrow> nat sandbox_result" where
  "get_instance s cid = ok_or (NotFound cid) (map_of (l_instances s) cid)"

definition has_instance :: "('w, 'i) local \<Rightarrow> string \<Rightarrow> bool" where
  "has_instance s cid \<longleftrightarrow> map_of (l_instances s) cid \<noteq> None"

definition is_empty :: "('w, 'i) local \<Rightarrow> bool" where
  "is_empty s \<longleftrightarrow> l_instances s = []"

text \<open>\<open>EventSender::send\<close> appends to what the publisher is handed.\<close>

definition send :: "('w, 'i) local \<Rightarrow> event \<Rightarrow> ('w, 'i) local" where
  "send s ev = s\<lparr>l_events := l_events s @ [ev]\<rparr>"

definition on_world ::
  "('w, 'i) local \<Rightarrow> ('w \<Rightarrow> 'w \<times> 'a sandbox_result) \<Rightarrow> ('w, 'i) local \<times> 'a sandbox_result" where
  "on_world s f = (case f (l_world s) of (w, r) \<Rightarrow> (s\<lparr>l_world := w\<rparr>, r))"

definition on_inst ::
  "('w, 'i) local \<Rightarrow> nat \<Rightarrow>
   ('w \<Rightarrow> 'i instance_data \<Rightarrow> ('w \<times> 'i instance_data) \<times> 'a sandbox_result) \<Rightarrow>
   ('w, 'i) local \<times> 'a sandbox_result" where
  "on_inst s r f =
     (case f (l_world s) (l_heap s ! r) of
        ((w, d), res) \<Rightarrow> (s\<lparr>l_world := w, l_heap := (l_heap s)[r := d]\<rparr>, res))"

section \<open>task_create\<close>

definition none_if_empty :: "string \<Rightarrow> string option" where
  "none_if_empty x = (if x = [] then None else Some x)"

fun mount_all ::
  "('w, 'i, 'm) shim_env \<Rightarrow> path \<Rightarrow> mount list \<Rightarrow> 'w \<Rightarrow> 'w \<times> unit sandbox_result" where
  "mount_all env rootfs [] w = (w, Ok ())"
| "mount_all env rootfs (m # ms) w =
     (case e_mount_rootfs env w (none_if_empty (m_type m)) (none_if_empty (m_source m)) (m_options m) rootfs of
        (w', r) \<Rightarrow> st_then (w', map_err Shim r) (\<lambda>w _. mount_all env rootfs ms w))"

definition instance_config_of :: "('w, 'i) local \<Rightarrow> create_request \<Rightarrow> shim_config \<Rightarrow> instance_config" where
  "instance_config_of s req config =
     \<lparr>ic_stdin = cr_stdin req, ic_stdout = cr_stdout req, ic_stderr = cr_stderr req,
      ic_bundle = cr_bundle req, ic_namespace = l_namespace s,
      ic_containerd_address = l_address s, ic_config = config\<rparr>"

text \<open>The checks that touch nothing: the options, the unsupported features, and whether the id is
  taken (under the read lock, which is released at once).\<close>

definition create_check ::
  "('w, 'i, 'm) shim_env \<Rightarrow> ('w, 'i) local \<Rightarrow> create_request \<Rightarrow> shim_config sandbox_result" where
  "create_check env s req =
     and_then (map_err (\<lambda>err. InvalidArgument (''invalid shim options: '' @ err))
                (get_from_options (e_decode env) (e_toml env) (cr_options req)))
       (\<lambda>config.
         if cr_checkpoint req \<noteq> [] \<or> cr_parent_checkpoint req \<noteq> []
         then Err (Shim (ShimUnimplemented ''checkpoint is not supported''))
         else if cr_terminal req then Err (InvalidArgument ''terminal is not supported'')
         else if has_instance s (cr_id req) then Err (AlreadyExists (cr_id req))
         else Ok config)"

definition create_spec ::
  "('w, 'i, 'm) shim_env \<Rightarrow> 'w \<Rightarrow> create_request \<Rightarrow> (oci_spec \<times> path) sandbox_result" where
  "create_spec env w req =
     and_then (map_err (\<lambda>err. InvalidArgument (''could not load runtime spec: '' @ err))
                (e_load_spec env w (path_join (cr_bundle req) ''config.json'')))
       (\<lambda>spec. and_then
         (map_err (\<lambda>err. Shim (ShimInvalidArgument (''could not canonicalize rootfs: '' @ err)))
           (e_canonicalize_rootfs env w spec (cr_bundle req)))
         (\<lambda>spec. and_then (ok_or (InvalidArgument ''rootfs is not set in runtime spec'') (sp_root spec))
           (\<lambda>rootfs. Ok (spec, rootfs))))"

definition create_instance ::
  "('w, 'i, 'm) shim_env \<Rightarrow> ('w, 'i) local \<Rightarrow> create_request \<Rightarrow>
   ('w, 'i) local \<times> (oci_spec \<times> 'i instance_data) sandbox_result" where
  "create_instance env s req =
     st_then (s, create_check env s req) (\<lambda>s config.
     st_then (s, create_spec env (l_world s) req) (\<lambda>s (spec, rootfs).
     st_then (on_world s (\<lambda>w. mount_all env rootfs (cr_rootfs req) (fst (e_create_dir_all env w rootfs))))
       (\<lambda>s _.
     st_then (on_world s (\<lambda>w. id_new (e_ops env) w (cr_id req) (instance_config_of s req config)))
       (\<lambda>s d. (s, Ok (spec, d))))))"

text \<open>\<open>instances.write().await.insert(id, Arc::new(instance))\<close>.\<close>

definition create_insert :: "('w, 'i) local \<Rightarrow> create_request \<Rightarrow> 'i instance_data \<Rightarrow> ('w, 'i) local" where
  "create_insert s req d =
     s\<lparr>l_heap := l_heap s @ [d],
       l_instances := AList.update (cr_id req) (length (l_heap s)) (l_instances s)\<rparr>"

definition create_finish ::
  "('w, 'i, 'm) shim_env \<Rightarrow> ('w, 'i) local \<Rightarrow> create_request \<Rightarrow> oci_spec \<Rightarrow>
   ('w, 'i) local \<times> u32 sandbox_result" where
  "create_finish env s req spec =
     st_then
       (on_world
         (send s (TaskCreate (cr_id req) (cr_bundle req) (cr_rootfs req)
                    (cr_stdin req) (cr_stdout req) (cr_stderr req)))
         (\<lambda>w. setup_prestart_hooks (e_proc env) (e_pid env) w (sp_hooks spec)))
       (\<lambda>s _. (s, Ok (e_pid env)))"

definition task_create ::
  "('w, 'i, 'm) shim_env \<Rightarrow> ('w, 'i) local \<Rightarrow> create_request \<Rightarrow> ('w, 'i) local \<times> u32 sandbox_result" where
  "task_create env s req =
     st_then (create_instance env s req) (\<lambda>s (spec, d).
       create_finish env (create_insert s req d) req spec)"

section \<open>The other handlers\<close>

definition start_finish :: "('w, 'i) local \<Rightarrow> nat \<Rightarrow> string \<Rightarrow> u32 \<Rightarrow> ('w, 'i) local" where
  "start_finish s r cid pid =
     (send s (TaskStart cid pid))\<lparr>l_watchers := l_watchers s @ [(r, cid, pid)]\<rparr>"

definition task_start ::
  "('w, 'i, 'm) shim_env \<Rightarrow> ('w, 'i) local \<Rightarrow> string \<Rightarrow> string \<Rightarrow> ('w, 'i) local \<times> u32 sandbox_result" where
  "task_start env s cid exec_id =
     (if exec_id \<noteq> [] then (s, Err (Shim (ShimUnimplemented ''exec is not supported'')))
      else st_then (s, get_instance s cid) (\<lambda>s r.
           st_then (on_inst s r (id_start (e_ops env))) (\<lambda>s pid.
             (start_finish s r cid pid, Ok pid))))"

text \<open>One poll of a spawned watcher: when the instance has exited, the event is sent and the task
  ends.\<close>

definition watcher_poll :: "('w, 'i, 'm) shim_env \<Rightarrow> ('w, 'i) local \<Rightarrow> nat \<Rightarrow> ('w, 'i) local" where
  "watcher_poll env s k =
     (if k < length (l_watchers s) then
        (case l_watchers s ! k of (r, cid, pid) \<Rightarrow>
          (case id_wait (e_ops env) (l_world s) (l_heap s ! r) of
             (d, None) \<Rightarrow> s
           | (d, Some (exit_code, t)) \<Rightarrow>
               send (s\<lparr>l_heap := (l_heap s)[r := d],
                       l_watchers := take k (l_watchers s) @ drop (Suc k) (l_watchers s)\<rparr>)
                 (TaskExit cid cid pid exit_code (Some (to_timestamp t)))))
      else s)"

definition task_kill ::
  "('w, 'i, 'm) shim_env \<Rightarrow> ('w, 'i) local \<Rightarrow> string \<Rightarrow> string \<Rightarrow> u32 \<Rightarrow> ('w, 'i) local \<times> unit sandbox_result" where
  "task_kill env s cid exec_id signal =
     (if exec_id \<noteq> [] then (s, Err (InvalidArgument ''exec is not supported''))
      else st_then (s, get_instance s cid) (\<lambda>s r.
           on_inst s r (\<lambda>w d. id_kill (e_ops env) w d signal)))"

text \<open>\<open>i.wait().now_or_never()\<close>: one poll; it is not ready either when the write lock of the
  task state is taken by another request (\<open>free\<close> is whether it is free).\<close>

definition wait_now ::
  "('w, 'i, 'm) shim_env \<Rightarrow> ('w, 'i) local \<Rightarrow> nat \<Rightarrow> bool \<Rightarrow> ('w, 'i) local \<times> exit_info option" where
  "wait_now env s r free =
     (if free then
        (case id_wait (e_ops env) (l_world s) (l_heap s ! r) of
           (d, res) \<Rightarrow> (s\<lparr>l_heap := (l_heap s)[r := d]\<rparr>, res))
      else (s, None))"

definition unwrap_or_default :: "u32 option \<Rightarrow> u32" where
  "unwrap_or_default x = (case x of Some v \<Rightarrow> v | None \<Rightarrow> 0)"

definition delete_finish ::
  "('w, 'i) local \<Rightarrow> string \<Rightarrow> u32 \<Rightarrow> exit_info option \<Rightarrow> ('w, 'i) local \<times> delete_response sandbox_result" where
  "delete_finish s cid pid exit =
     (let code = unwrap_or_default (map_option fst exit);
          at = map_option (to_timestamp \<circ> snd) exit
      in (send (s\<lparr>l_instances := AList.delete cid (l_instances s)\<rparr>) (TaskDelete cid pid code at),
          Ok \<lparr>dr_pid = pid, dr_exit_status = code, dr_exited_at = at\<rparr>))"

definition task_delete ::
  "('w, 'i, 'm) shim_env \<Rightarrow> ('w, 'i) local \<Rightarrow> string \<Rightarrow> string \<Rightarrow> bool \<Rightarrow>
   ('w, 'i) local \<times> delete_response sandbox_result" where
  "task_delete env s cid exec_id free =
     (if exec_id \<noteq> [] then (s, Err (InvalidArgument ''exec is not supported''))
      else st_then (s, get_instance s cid) (\<lambda>s r.
           st_then (on_inst s r (id_delete (e_ops env))) (\<lambda>s _.
             case wait_now env s r free of
               (s', exit) \<Rightarrow> delete_finish s' cid (unwrap_or_default (id_pid (l_heap s ! r))) exit)))"

text \<open>\<open>task_wait\<close> finds the instance once and then polls it until it has exited; a pending call
  keeps the instance, and \<open>wait_poll\<close> is its next poll.\<close>

definition task_wait :: "('w, 'i) local \<Rightarrow> string \<Rightarrow> string \<Rightarrow> nat sandbox_result" where
  "task_wait s cid exec_id =
     (if exec_id \<noteq> [] then Err (InvalidArgument ''exec is not supported'') else get_instance s cid)"

definition wait_poll ::
  "('w, 'i, 'm) shim_env \<Rightarrow> ('w, 'i) local \<Rightarrow> nat \<Rightarrow> ('w, 'i) local \<times> wait_response option" where
  "wait_poll env s r =
     (case wait_now env s r True of
        (s', res) \<Rightarrow> (s', map_option (\<lambda>(code, t). \<lparr>wr_exit_status = code,
                                              wr_exited_at = Some (to_timestamp t)\<rparr>) res))"

definition status_of :: "u32 option \<Rightarrow> u32 option \<Rightarrow> status" where
  "status_of pid exit_code =
     (if pid = None then CREATED else if exit_code = None then RUNNING else STOPPED)"

definition task_state ::
  "('w, 'i, 'm) shim_env \<Rightarrow> ('w, 'i) local \<Rightarrow> string \<Rightarrow> string \<Rightarrow> bool \<Rightarrow>
   ('w, 'i) local \<times> state_response sandbox_result" where
  "task_state env s cid exec_id free =
     (if exec_id \<noteq> [] then (s, Err (InvalidArgument ''exec is not supported''))
      else st_then (s, get_instance s cid) (\<lambda>s r.
        case wait_now env s r free of
          (s', exit) \<Rightarrow>
            (let pid = id_pid (l_heap s ! r); cfg = id_config (l_heap s ! r); code = map_option fst exit
             in (s', Ok \<lparr>sr_bundle = ic_bundle cfg, sr_stdin = ic_stdin cfg, sr_stdout = ic_stdout cfg,
                         sr_stderr = ic_stderr cfg, sr_pid = unwrap_or_default pid,
                         sr_exit_status = unwrap_or_default code,
                         sr_exited_at = map_option (to_timestamp \<circ> snd) exit,
                         sr_status = status_of pid code\<rparr>))))"

definition task_stats ::
  "('w, 'i, 'm) shim_env \<Rightarrow> ('w, 'i) local \<Rightarrow> string \<Rightarrow> 'm sandbox_result" where
  "task_stats env s cid =
     and_then (get_instance s cid) (\<lambda>r.
     and_then (ok_or (InvalidArgument ''task is not running'') (id_pid (l_heap s ! r))) (\<lambda>pid.
       e_get_metrics env (l_world s) pid))"

definition connect ::
  "('w, 'i, 'm) shim_env \<Rightarrow> ('w, 'i) local \<Rightarrow> string \<Rightarrow> (u32 \<times> u32) sandbox_result" where
  "connect env s cid =
     and_then (get_instance s cid) (\<lambda>r. Ok (e_pid env, unwrap_or_default (id_pid (l_heap s ! r))))"

definition shutdown :: "('w, 'i) local \<Rightarrow> ('w, 'i) local" where
  "shutdown s = (if is_empty s then s\<lparr>l_exit := fst (wc_set (l_exit s) ())\<rparr> else s)"

text \<open>The methods of the ttrpc service translate the errors and pass everything else on.\<close>

definition ttrpc ::
  "(shim_error \<Rightarrow> string) \<Rightarrow> 's \<times> 'a sandbox_result \<Rightarrow> 's \<times> ('a, ttrpc_error) result" where
  "ttrpc shim_display p = (fst p, map_err (to_ttrpc shim_display) (snd p))"

end
