(* ===== verification/Local_Lifecycle.thy ===== *)
theory Local_Lifecycle
  imports Local_Service "HOL-Library.Multiset"
begin

text \<open>
  The task service as a state machine: requests, polls of the background tasks and changes of the
  world outside, in any order. The invariant of the service, the sequence of events that
  containerd sees for one container, and the replies of the handlers.
\<close>

section \<open>The machine\<close>

datatype 'w label =
    Create create_request
  | Start string string
  | Kill string string u32
  | Delete string string bool
  | WaitPoll nat
  | State string string bool
  | Shutdown
  | Watch nat
  | World 'w

fun svc_step :: "('w, 'i, 'm) shim_env \<Rightarrow> ('w, 'i) local \<Rightarrow> 'w label \<Rightarrow> ('w, 'i) local" where
  "svc_step env s (Create req) = fst (task_create env s req)"
| "svc_step env s (Start cid exec_id) = fst (task_start env s cid exec_id)"
| "svc_step env s (Kill cid exec_id sig) = fst (task_kill env s cid exec_id sig)"
| "svc_step env s (Delete cid exec_id free) = fst (task_delete env s cid exec_id free)"
| "svc_step env s (WaitPoll r) = (if r < length (l_heap s) then fst (wait_poll env s r) else s)"
| "svc_step env s (State cid exec_id free) = fst (task_state env s cid exec_id free)"
| "svc_step env s Shutdown = shutdown s"
| "svc_step env s (Watch k) = watcher_poll env s k"
| "svc_step env s (World w) = s\<lparr>l_world := w\<rparr>"

interpretation svc: machine "local_new w wc_new ns address" "svc_step env" for w ns address env .

abbreviation svc_run ::
  "('w, 'i, 'm) shim_env \<Rightarrow> ('w, 'i) local \<Rightarrow> 'w label list \<Rightarrow> ('w, 'i) local" where
  "svc_run env \<equiv> machine.run (svc_step env)"

section \<open>The registry invariant\<close>

definition registry_ok :: "('w, 'i) local \<Rightarrow> bool" where
  "registry_ok s \<longleftrightarrow>
     distinct (map fst (l_instances s)) \<and>
     (\<forall>c r. map_of (l_instances s) c = Some r \<longrightarrow> r < length (l_heap s)) \<and>
     (\<forall>c c' r. map_of (l_instances s) c = Some r \<longrightarrow> map_of (l_instances s) c' = Some r \<longrightarrow> c = c') \<and>
     (\<forall>d \<in> set (l_heap s). data_ok d) \<and>
     (\<forall>r c p. (r, c, p) \<in> set (l_watchers s) \<longrightarrow> r < length (l_heap s) \<and> pid_cell (l_heap s ! r) = Some p)"

text \<open>What a container's events have announced so far.\<close>

datatype ev_phase = Absent | Announced | Running

fun life_ev :: "string \<Rightarrow> ev_phase option \<Rightarrow> event \<Rightarrow> ev_phase option" where
  "life_ev c p (TaskCreate c' _ _ _ _ _) =
     (if c' \<noteq> c then p else if p = Some Absent then Some Announced else None)"
| "life_ev c p (TaskStart c' _) =
     (if c' \<noteq> c then p else if p = Some Announced then Some Running else None)"
| "life_ev c p (TaskDelete c' _ _ _) =
     (if c' \<noteq> c then p else if p = Some Announced \<or> p = Some Running then Some Absent else None)"
| "life_ev c p (TaskExit _ _ _ _ _) = p"

text \<open>The automaton of one container: \<open>TaskCreate\<close>, then at most one \<open>TaskStart\<close>, then
  \<open>TaskDelete\<close>, then again. \<open>None\<close> is a sequence that breaks it.\<close>

definition lifecycle :: "string \<Rightarrow> event list \<Rightarrow> ev_phase option" where
  "lifecycle c es = foldl (life_ev c) (Some Absent) es"

definition phase_of :: "('w, 'i) local \<Rightarrow> string \<Rightarrow> ev_phase" where
  "phase_of s c =
     (case map_of (l_instances s) c of
        None \<Rightarrow> Absent
      | Some r \<Rightarrow> if pid_cell (l_heap s ! r) = None then Announced else Running)"

text \<open>The starts and the exits that were announced, as (id, pid).\<close>

fun ev_start :: "event \<Rightarrow> (string \<times> u32) list" where
  "ev_start (TaskStart c p) = [(c, p)]"
| "ev_start _ = []"

fun ev_exit :: "event \<Rightarrow> (string \<times> u32) list" where
  "ev_exit (TaskExit c _ p _ _) = [(c, p)]"
| "ev_exit _ = []"

definition starts :: "event list \<Rightarrow> (string \<times> u32) multiset" where
  "starts es = mset (concat (map ev_start es))"

definition exits :: "event list \<Rightarrow> (string \<times> u32) multiset" where
  "exits es = mset (concat (map ev_exit es))"

definition svc_inv :: "('w, 'i) local \<Rightarrow> bool" where
  "svc_inv s \<longleftrightarrow>
     registry_ok s \<and>
     (\<forall>c. lifecycle c (l_events s) = Some (phase_of s c)) \<and>
     starts (l_events s) = exits (l_events s) + mset (map snd (l_watchers s))"

lemma lifecycle_snoc [simp]: "lifecycle c (es @ [e]) = life_ev c (lifecycle c es) e"
  by (simp add: lifecycle_def)

lemma lifecycle_Nil [simp]: "lifecycle c [] = Some Absent"
  by (simp add: lifecycle_def)

lemma starts_snoc [simp]: "starts (es @ [e]) = starts es + mset (ev_start e)"
  by (simp add: starts_def)

lemma exits_snoc [simp]: "exits (es @ [e]) = exits es + mset (ev_exit e)"
  by (simp add: exits_def)

lemma starts_Nil [simp]: "starts [] = {#}" and exits_Nil [simp]: "exits [] = {#}"
  by (simp_all add: starts_def exits_def)

lemma registry_heap: "registry_ok s \<Longrightarrow> map_of (l_instances s) c = Some r \<Longrightarrow> r < length (l_heap s)"
  by (auto simp: registry_ok_def)

lemma registry_data: "registry_ok s \<Longrightarrow> r < length (l_heap s) \<Longrightarrow> data_ok (l_heap s ! r)"
  by (auto simp: registry_ok_def)

lemma registry_inj:
  "registry_ok s \<Longrightarrow> map_of (l_instances s) c = Some r \<Longrightarrow> map_of (l_instances s) c' = Some r \<Longrightarrow> c = c'"
  by (simp add: registry_ok_def)

lemma registry_watcher:
  "registry_ok s \<Longrightarrow> (r, c, p) \<in> set (l_watchers s) \<Longrightarrow> r < length (l_heap s) \<and> pid_cell (l_heap s ! r) = Some p"
  by (auto simp: registry_ok_def)

section \<open>Updates that keep the invariant\<close>

text \<open>A new world, and an instance whose data stays well formed and keeps its pid.\<close>

lemma registry_events [simp]: "registry_ok (s\<lparr>l_events := es\<rparr>) = registry_ok s"
  by (simp add: registry_ok_def)

lemma phase_of_simps [simp]:
  "phase_of (s\<lparr>l_world := w\<rparr>) c = phase_of s c"
  "phase_of (s\<lparr>l_exit := x\<rparr>) c = phase_of s c"
  "phase_of (s\<lparr>l_events := es\<rparr>) c = phase_of s c"
  "phase_of (s\<lparr>l_watchers := ws\<rparr>) c = phase_of s c"
  by (simp_all add: phase_of_def cong: option.case_cong)

lemma inv_world [simp]: "svc_inv (s\<lparr>l_world := w\<rparr>) = svc_inv s"
  by (simp add: svc_inv_def registry_ok_def)

lemma inv_exit [simp]: "svc_inv (s\<lparr>l_exit := x\<rparr>) = svc_inv s"
  by (simp add: svc_inv_def registry_ok_def)

lemma registry_inst:
  assumes "registry_ok s" and "r < length (l_heap s)" and "data_ok d"
    and "pid_cell (l_heap s ! r) = None \<or> pid_cell d = pid_cell (l_heap s ! r)"
  shows "registry_ok (s\<lparr>l_heap := (l_heap s)[r := d]\<rparr>)"
proof -
  have "pid_cell ((l_heap s)[r := d] ! r') = Some p" if "(r', c, p) \<in> set (l_watchers s)" for r' c p
    using registry_watcher [OF assms(1) that] assms(2,4) by (cases "r' = r") auto
  then show ?thesis
    using assms set_update_subset_insert [of "l_heap s" r d]
    by (auto simp: registry_ok_def)
qed

lemma phase_of_inst:
  "r < length (l_heap s) \<Longrightarrow> pid_cell d = pid_cell (l_heap s ! r) \<Longrightarrow>
     phase_of (s\<lparr>l_heap := (l_heap s)[r := d]\<rparr>) c = phase_of s c"
  by (auto simp: phase_of_def nth_list_update split: option.splits)

lemma inv_inst:
  assumes "svc_inv s" and "r < length (l_heap s)" and "data_ok d"
    and "pid_cell d = pid_cell (l_heap s ! r)"
  shows "svc_inv (s\<lparr>l_heap := (l_heap s)[r := d]\<rparr>)"
  using assms registry_inst [of s r d] phase_of_inst [of r s d] by (simp add: svc_inv_def)

text \<open>Only a successful start changes the pid.\<close>

lemma pid_kept:
  "id_kill ops w d sig = ((w', d'), res) \<Longrightarrow> pid_cell d' = pid_cell d"
  "id_delete ops w d = ((w', d'), res') \<Longrightarrow> pid_cell d' = pid_cell d"
  "id_wait ops w d = (d', x) \<Longrightarrow> pid_cell d' = pid_cell d"
  by (auto simp: id_cases id_wait_def split: prod.splits result.splits option.splits if_splits)

lemma inv_on_world: "svc_inv s \<Longrightarrow> svc_inv (fst (on_world s f))"
  by (simp add: on_world_def split: prod.splits)

lemma inv_on_inst:
  assumes "svc_inv s" and "r < length (l_heap s)"
    and "\<And>w w' d d' x. f w d = ((w', d'), x) \<Longrightarrow> data_ok d \<Longrightarrow> data_ok d' \<and> pid_cell d' = pid_cell d"
  shows "svc_inv (fst (on_inst s r f))"
proof (cases "f (l_world s) (l_heap s ! r)")
  case (Pair wd x)
  obtain w' d' where wd: "wd = (w', d')" by (cases wd)
  have "data_ok (l_heap s ! r)"
    using assms(1,2) registry_data by (auto simp: svc_inv_def)
  then have "svc_inv (s\<lparr>l_world := w', l_heap := (l_heap (s\<lparr>l_world := w'\<rparr>))[r := d']\<rparr>)"
    using assms(1,2) assms(3) [of "l_world s" "l_heap s ! r" w' d' x] Pair wd
    by (intro inv_inst) auto
  then show ?thesis
    using Pair wd by (simp add: on_inst_def)
qed

lemma inv_wait_now:
  assumes "svc_inv s" and "r < length (l_heap s)"
  shows "svc_inv (fst (wait_now env s r free))"
proof (cases "id_wait (e_ops env) (l_world s) (l_heap s ! r)")
  case (Pair d x)
  have "data_ok (l_heap s ! r)"
    using assms registry_data by (auto simp: svc_inv_def)
  from data_ok_wait [OF this Pair] pid_kept(3) [OF Pair] have "svc_inv (s\<lparr>l_heap := (l_heap s)[r := d]\<rparr>)"
    by (rule inv_inst [OF assms])
  then show ?thesis
    using Pair assms(1) by (simp add: wait_now_def)
qed

section \<open>One lemma per handler\<close>

lemma get_instance_Ok: "get_instance s cid = Ok r \<longleftrightarrow> map_of (l_instances s) cid = Some r"
  by (simp add: get_instance_def res_simps)

lemma inv_registered: "svc_inv s \<Longrightarrow> get_instance s cid = Ok r \<Longrightarrow> r < length (l_heap s)"
  by (auto simp: svc_inv_def get_instance_Ok intro: registry_heap)

text \<open>\<open>task_create\<close> up to the insertion changes the world only.\<close>

definition same_service :: "('w, 'i) local \<Rightarrow> ('w, 'i) local \<Rightarrow> bool" where
  "same_service s t \<longleftrightarrow> t = s\<lparr>l_world := l_world t\<rparr>"

lemma same_service_refl [simp]: "same_service s s"
  by (simp add: same_service_def)

lemma same_service_fields:
  assumes "same_service s t"
  shows "l_events t = l_events s" and "l_instances t = l_instances s" and "l_heap t = l_heap s"
    and "l_watchers t = l_watchers s" and "l_exit t = l_exit s"
proof -
  obtain w where t: "t = s\<lparr>l_world := w\<rparr>" using assms by (auto simp: same_service_def)
  show "l_events t = l_events s" and "l_instances t = l_instances s" and "l_heap t = l_heap s"
    and "l_watchers t = l_watchers s" and "l_exit t = l_exit s"
    by (simp_all add: t)
qed

lemma same_service_world [simp]: "same_service s (s\<lparr>l_world := w\<rparr>)"
  by (simp add: same_service_def)

lemma same_service_on_world: "same_service s t \<Longrightarrow> same_service s (fst (on_world t f))"
  by (cases s; cases t) (auto simp: same_service_def on_world_def split: prod.splits)

lemma create_instance_world: "same_service s (fst (create_instance env s req))"
  unfolding create_instance_def
  by (auto intro!: fst_st_then_inv [where P = "same_service s"] same_service_on_world
      simp: on_world_def split: prod.splits)

lemma on_world_Ok:
  "on_world s f = (t, Ok a) \<Longrightarrow> f (l_world s) = (l_world t, Ok a) \<and> t = s\<lparr>l_world := l_world t\<rparr>"
  by (auto simp: on_world_def split: prod.splits)

lemma create_instance_Ok:
  assumes "create_instance env s req = (t, Ok (spec, d))"
  shows "same_service s t \<and> map_of (l_instances t) (cr_id req) = None \<and> data_ok d \<and> tstate d = Created"
proof -
  have "same_service s t"
    using create_instance_world [of s env req] assms by simp
  moreover have "\<not> has_instance s (cr_id req)"
    using assms by (auto simp: create_instance_def create_check_def res_simps split: if_splits)
  moreover obtain w cfg where "id_new (e_ops env) w (cr_id req) cfg = (l_world t, Ok d)"
    using assms by (auto simp: create_instance_def res_simps split: prod.splits dest!: on_world_Ok)
  ultimately show ?thesis
    using data_ok_new by (cases s; cases t) (fastforce simp: same_service_def has_instance_def)
qed

lemma svc_inv_same: "same_service s t \<Longrightarrow> svc_inv s \<Longrightarrow> svc_inv t"
  unfolding same_service_def using inv_world [of "l_world t" s] by simp

text \<open>The insertion and the event belong together: between the two the events lag behind.\<close>

lemma inv_insert_send:
  assumes "svc_inv s" and "map_of (l_instances s) (cr_id req) = None" and "data_ok d"
    and "tstate d = Created"
  shows "svc_inv (send (create_insert s req d) (TaskCreate (cr_id req) b m i o' e))"
proof -
  let ?t = "create_insert s req d"
  from assms(1) have ok: "registry_ok s" by (simp add: svc_inv_def)
  have "pid_cell d = None" using assms(3,4) by (simp add: data_ok_def)
  then have ph: "phase_of ?t c = (if c = cr_id req then Announced else phase_of s c)" for c
    using registry_heap [OF ok]
    by (auto simp: phase_of_def create_insert_def nth_append split: option.splits)
  have "distinct (map fst (l_instances ?t))"
    using ok by (simp add: create_insert_def registry_ok_def distinct_update)
  then have "registry_ok (send ?t ev)" for ev
    using ok assms(3) registry_watcher [OF ok] registry_heap [OF ok] registry_inj [OF ok]
    by (fastforce simp: registry_ok_def create_insert_def send_def nth_append less_Suc_eq)
  then show ?thesis
    using assms(1,2) ph
    by (auto simp: svc_inv_def send_def) (auto simp: create_insert_def phase_of_def)
qed

lemma inv_create:
  assumes "svc_inv s"
  shows "svc_inv (fst (task_create env s req))"
proof -
  have "svc_inv (fst (create_finish env (create_insert t req d) req spec))"
    if "create_instance env s req = (t, Ok (spec, d))" for t spec d
    using create_instance_Ok [OF that] svc_inv_same [OF _ assms]
    by (auto simp: create_finish_def intro!: fst_st_then_inv [where P = svc_inv] inv_on_world
        inv_insert_send) (auto simp: on_world_def split: prod.splits intro!: inv_insert_send)
  then show ?thesis
    using svc_inv_same [OF create_instance_world assms] unfolding task_create_def
    by (auto intro!: fst_st_then_inv [where P = svc_inv])
qed

text \<open>A successful start gives the instance its pid; with the event the phase moves along.\<close>

lemma inv_started:
  assumes "svc_inv s" and reg: "map_of (l_instances s) cid = Some r" and "data_ok d"
    and none: "pid_cell (l_heap s ! r) = None" and some: "pid_cell d = Some pid"
  shows "svc_inv (start_finish (s\<lparr>l_world := w, l_heap := (l_heap s)[r := d]\<rparr>) r cid pid)"
proof -
  let ?h = "s\<lparr>l_world := w, l_heap := (l_heap s)[r := d]\<rparr>"
  from assms(1) have ok: "registry_ok s" by (simp add: svc_inv_def)
  have r: "r < length (l_heap s)" using registry_heap [OF ok reg] .
  have "registry_ok (s\<lparr>l_heap := (l_heap s)[r := d]\<rparr>)"
    using registry_inst [OF ok r assms(3)] none by blast
  then have "registry_ok (start_finish ?h r cid pid)"
    using r some by (auto simp: registry_ok_def start_finish_def send_def)
  moreover have "phase_of ?h c = (if c = cid then Running else phase_of s c)" for c
  proof (cases "c = cid")
    case False
    then have "map_of (l_instances s) c \<noteq> Some r" using registry_inj [OF ok reg] by blast
    with False show ?thesis by (auto simp: phase_of_def split: option.splits)
  qed (use reg r some in \<open>simp add: phase_of_def\<close>)
  moreover have "phase_of s cid = Announced"
    using reg none by (simp add: phase_of_def)
  ultimately show ?thesis
    using assms(1) by (auto simp: svc_inv_def start_finish_def send_def)
qed

lemma start_not_Ok_pid:
  "data_ok d \<Longrightarrow> id_start ops w d = ((w', d'), x) \<Longrightarrow> \<not> is_ok x \<Longrightarrow> pid_cell d' = pid_cell d"
  by (auto simp: id_start_cases split: prod.splits result.splits if_splits)

lemma start_Ok_pid:
  "data_ok d \<Longrightarrow> id_start ops w d = ((w', d'), Ok pid) \<Longrightarrow>
     pid_cell d = None \<and> pid_cell d' = Some pid \<and> tstate d = Created \<and> tstate d' = Started"
  by (auto simp: id_start_cases data_ok_def state_transition_error_def
      split: prod.splits result.splits if_splits)

lemma inv_start:
  assumes "svc_inv s"
  shows "svc_inv (fst (task_start env s cid exec_id))"
proof (cases "get_instance s cid")
  case (Ok r)
  then have r: "r < length (l_heap s)" and reg: "map_of (l_instances s) cid = Some r"
    using inv_registered [OF assms] by (auto simp: get_instance_Ok)
  obtain w' d' x where st: "id_start (e_ops env) (l_world s) (l_heap s ! r) = ((w', d'), x)"
    by (metis prod.exhaust)
  have d: "data_ok (l_heap s ! r)" using assms r registry_data by (auto simp: svc_inv_def)
  let ?h = "s\<lparr>l_world := w', l_heap := (l_heap s)[r := d']\<rparr>"
  have "svc_inv ?h" if "\<not> is_ok x"
    using inv_inst [of "s\<lparr>l_world := w'\<rparr>" r d'] assms r data_ok_start [OF d st] start_not_Ok_pid [OF d st that]
    by simp
  moreover have "svc_inv (start_finish ?h r cid pid)" if "x = Ok pid" for pid
    using inv_started [OF assms reg] data_ok_start [OF d st] start_Ok_pid [OF d st [unfolded that]]
    by blast
  ultimately show ?thesis
    using assms Ok st by (cases x) (auto simp: task_start_def on_inst_def)
qed (use assms in \<open>auto simp: task_start_def\<close>)

lemma inv_kill:
  assumes "svc_inv s"
  shows "svc_inv (fst (task_kill env s cid exec_id sig))"
  unfolding task_kill_def
  by (auto intro!: assms fst_st_then_inv [where P = svc_inv] inv_on_inst
      dest: inv_registered [OF assms] data_ok_kill pid_kept)

lemma inv_wait_poll: "svc_inv s \<Longrightarrow> r < length (l_heap s) \<Longrightarrow> svc_inv (fst (wait_poll env s r))"
  using inv_wait_now [of s r env True] by (auto simp: wait_poll_def split: prod.splits)

lemma inv_state:
  assumes "svc_inv s"
  shows "svc_inv (fst (task_state env s cid exec_id free))"
proof -
  have "svc_inv t" if "get_instance s cid = Ok r" "wait_now env s r free = (t, x)" for r t x
    using inv_wait_now [OF assms inv_registered [OF assms that(1)], of env free] that(2) by simp
  then show ?thesis
    unfolding task_state_def
    by (auto intro!: assms fst_st_then_inv [where P = svc_inv] simp: Let_def split: prod.splits)
qed

text \<open>Deleting takes the id out and announces it.\<close>

lemma inv_delete_finish:
  assumes "svc_inv s" and reg: "map_of (l_instances s) cid = Some r"
  shows "svc_inv (fst (delete_finish s cid pid exit))"
proof -
  let ?t = "s\<lparr>l_instances := AList.delete cid (l_instances s)\<rparr>"
  from assms(1) have ok: "registry_ok s" by (simp add: svc_inv_def)
  have "distinct (map fst (l_instances ?t))"
    using ok by (simp add: registry_ok_def distinct_delete)
  then have "registry_ok ?t"
    using ok by (auto simp: registry_ok_def split: if_splits)
  moreover have "phase_of ?t c = (if c = cid then Absent else phase_of s c)" for c
    by (auto simp: phase_of_def split: option.splits)
  moreover have "phase_of s cid \<noteq> Absent"
    using reg by (simp add: phase_of_def)
  ultimately show ?thesis
    using assms(1)
    by (cases "phase_of s cid") (simp_all add: svc_inv_def delete_finish_def send_def Let_def)
qed

lemma on_inst_instances: "on_inst s r f = (t, x) \<Longrightarrow> l_instances t = l_instances s \<and> length (l_heap t) = length (l_heap s)"
  by (auto simp: on_inst_def split: prod.splits)

lemma wait_now_instances: "wait_now env s r free = (t, x) \<Longrightarrow> l_instances t = l_instances s"
  by (auto simp: wait_now_def split: prod.splits if_splits)

lemma inv_delete:
  assumes "svc_inv s"
  shows "svc_inv (fst (task_delete env s cid exec_id free))"
proof -
  have del: "svc_inv (fst (on_inst s r (id_delete (e_ops env))))" if "get_instance s cid = Ok r" for r
    using inv_registered [OF assms that]
    by (auto intro!: inv_on_inst assms dest: data_ok_delete pid_kept)
  have "svc_inv (fst (delete_finish u cid pid x))"
    if "get_instance s cid = Ok r" "on_inst s r (id_delete (e_ops env)) = (t, y)"
      "wait_now env t r free = (u, x)" for r t y u pid x
    using that del [OF that(1)] inv_registered [OF assms that(1)] on_inst_instances [OF that(2)]
      wait_now_instances [OF that(3)] inv_wait_now [of t r env free]
    by (auto simp: get_instance_Ok intro!: inv_delete_finish)
  then show ?thesis
    unfolding task_delete_def
    by (auto intro!: assms del fst_st_then_inv [where P = svc_inv] split: prod.splits)
qed

lemma mset_remove_nth: "k < length xs \<Longrightarrow> mset xs = mset (take k xs @ drop (Suc k) xs) + {#xs ! k#}"
  by (simp flip: id_take_nth_drop union_code add: Cons_nth_drop_Suc [symmetric])
    (metis add_mset_add_single append_take_drop_id Cons_nth_drop_Suc mset.simps(2) mset_append union_mset_add_mset_right)

lemma inv_watch:
  assumes "svc_inv s"
  shows "svc_inv (watcher_poll env s k)"
proof (cases "k < length (l_watchers s)")
  case True
  obtain r cid pid where w: "l_watchers s ! k = (r, cid, pid)" by (metis prod.exhaust)
  let ?ws = "take k (l_watchers s) @ drop (Suc k) (l_watchers s)"
  have r: "r < length (l_heap s)"
    using assms w True nth_mem [OF True] registry_watcher by (fastforce simp: svc_inv_def)
  obtain d x where p: "id_wait (e_ops env) (l_world s) (l_heap s ! r) = (d, x)" by fastforce
  have "svc_inv (s\<lparr>l_heap := (l_heap s)[r := d]\<rparr>)"
    using inv_wait_now [OF assms r, of env True] p by (simp add: wait_now_def)
  moreover have "set ?ws \<subseteq> set (l_watchers s)"
    by (auto dest: in_set_takeD in_set_dropD)
  moreover have "image_mset snd (mset (l_watchers s)) = image_mset snd (mset ?ws) + {#(cid, pid)#}"
    using mset_remove_nth [OF True] w by simp
  ultimately have "svc_inv (send (s\<lparr>l_heap := (l_heap s)[r := d], l_watchers := ?ws\<rparr>)
      (TaskExit cid cid pid c t))" for c t
    by (auto simp: svc_inv_def send_def registry_ok_def)
  then show ?thesis
    using True w p assms by (auto simp: watcher_poll_def split: option.splits)
qed (use assms in \<open>simp add: watcher_poll_def\<close>)

lemma inv_step: "svc_inv s \<Longrightarrow> svc_inv (svc_step env s l)"
  by (cases l)
    (auto simp: inv_create inv_start inv_kill inv_delete inv_wait_poll inv_state inv_watch shutdown_def)

lemma inv_new: "svc_inv (local_new w x ns address)"
  by (simp add: svc_inv_def registry_ok_def local_new_def phase_of_def)

lemma inv_run: "svc_inv (svc_run env (local_new w wc_new ns address) ls)"
  by (rule svc.run_invariant [where I = svc_inv]) (auto intro: inv_new inv_step)

section \<open>The order of the events\<close>

text \<open>No handler sends more than one event.\<close>

definition appends_one :: "event list \<Rightarrow> event list \<Rightarrow> bool" where
  "appends_one es es' \<longleftrightarrow> es' = es \<or> (\<exists>e. es' = es @ [e])"

lemma events_simps [simp]:
  "l_events (send s e) = l_events s @ [e]"
  "l_events (fst (on_world s f)) = l_events s"
  "l_events (fst (on_inst s r g)) = l_events s"
  "l_events (fst (wait_now env s r free)) = l_events s"
  "l_events (fst (create_instance env s req)) = l_events s"
  "l_events (create_insert s req d) = l_events s"
proof -
  show "l_events (fst (create_instance env s req)) = l_events s"
    using create_instance_world [of s env req] same_service_fields by blast
qed (simp_all add: send_def on_world_def on_inst_def wait_now_def create_insert_def split: prod.splits)

lemma events_fst:
  "on_world s f = (t, x) \<Longrightarrow> l_events t = l_events s"
  "on_inst s r g = (t, y) \<Longrightarrow> l_events t = l_events s"
  "wait_now env s r free = (t, z) \<Longrightarrow> l_events t = l_events s"
  "create_instance env s req = (t, u) \<Longrightarrow> l_events t = l_events s"
  by (metis events_simps fst_conv)+

lemma st_then_events:
  assumes "appends_one es (l_events (fst p))"
    and "\<And>s a. p = (s, Ok a) \<Longrightarrow> appends_one es (l_events (fst (f s a)))"
  shows "appends_one es (l_events (fst (st_then p f)))"
  by (rule fst_st_then_inv [where P = "\<lambda>s. appends_one es (l_events s)"]) (use assms in auto)

lemma step_appends_one: "appends_one (l_events s) (l_events (svc_step env s l))"
proof (cases l)
  case (Create req)
  then show ?thesis
    by (auto simp: task_create_def create_finish_def intro!: st_then_events split: prod.splits)
      (auto simp: appends_one_def dest!: events_fst)
next
  case (Start cid e)
  then show ?thesis
    by (auto simp: task_start_def start_finish_def intro!: st_then_events split: prod.splits)
      (auto simp: appends_one_def dest: events_fst)
next
  case (Kill cid e sig)
  then show ?thesis
    by (auto simp: task_kill_def intro!: st_then_events) (auto simp: appends_one_def)
next
  case (Delete cid e free)
  then show ?thesis
    by (auto simp: task_delete_def delete_finish_def Let_def intro!: st_then_events split: prod.splits)
      (auto simp: appends_one_def send_def dest!: events_fst)
next
  case (State cid e free)
  then show ?thesis
    by (auto simp: task_state_def Let_def intro!: st_then_events split: prod.splits)
      (auto simp: appends_one_def dest: events_fst)
next
  case (WaitPoll r)
  then show ?thesis by (auto simp: wait_poll_def appends_one_def dest: events_fst split: prod.splits)
next
  case (Watch k)
  then show ?thesis
    by (auto simp: watcher_poll_def appends_one_def split: prod.splits option.splits)
qed (auto simp: appends_one_def shutdown_def)

text \<open>In every prefix of the log, the exits are among the starts.\<close>

definition exits_follow :: "event list \<Rightarrow> bool" where
  "exits_follow es \<longleftrightarrow> (\<forall>n. exits (take n es) \<subseteq># starts (take n es))"

lemma exits_follow_snoc:
  assumes "exits_follow es" and "exits (es @ [e]) \<subseteq># starts (es @ [e])"
  shows "exits_follow (es @ [e])"
  unfolding exits_follow_def
proof
  fix n
  show "exits (take n (es @ [e])) \<subseteq># starts (take n (es @ [e]))"
  proof (cases "n \<le> length es")
    case True
    then show ?thesis using assms(1) by (simp add: exits_follow_def)
  next
    case False
    then have "take n (es @ [e]) = es @ [e]" by simp
    with assms(2) show ?thesis by simp
  qed
qed

lemma inv_exits_starts: "svc_inv s \<Longrightarrow> exits (l_events s) \<subseteq># starts (l_events s)"
  by (simp add: svc_inv_def)

lemma exits_follow_run: "exits_follow (l_events (svc_run env (local_new w wc_new ns address) ls))"
proof -
  have step: "exits_follow (l_events (svc_step env s l))"
    if "svc_inv s" "exits_follow (l_events s)" for s l
    using step_appends_one [of s env l] that(2) inv_exits_starts [OF inv_step [OF that(1), of env l]]
      exits_follow_snoc [of "l_events s"]
    by (auto simp: appends_one_def simp del: exits_snoc starts_snoc)
  have "(\<lambda>s. svc_inv s \<and> exits_follow (l_events s)) (svc_run env (local_new w wc_new ns address) ls)"
    by (rule svc.run_invariant [where I = "\<lambda>s. svc_inv s \<and> exits_follow (l_events s)"])
      (use inv_new inv_step step in \<open>auto simp: exits_follow_def local_new_def\<close>)
  then show ?thesis by simp
qed

text \<open>C1: The events containerd sees for a container id, \<open>TaskExit\<close> apart, always form a word
  \<open>(TaskCreate TaskStart? TaskDelete)*\<close>, cut off anywhere, whatever requests are made in whatever
  order, whatever they fail with and whatever the background tasks do in between. The last event
  tells whether the id is registered, and \<open>TaskStart\<close> has been sent exactly when the registered
  instance has a pid.\<close>

theorem events_follow_lifecycle:
  "let s = svc_run env (local_new w wc_new ns address) ls
   in lifecycle c (l_events s) = Some (phase_of s c)
      \<and> (phase_of s c = Absent \<longleftrightarrow> \<not> has_instance s c)"
  using inv_run [of env w ns address ls]
  by (auto simp: Let_def svc_inv_def phase_of_def has_instance_def split: option.splits if_splits)

text \<open>C2: Every \<open>TaskExit\<close> follows its own \<open>TaskStart\<close> (same id, same pid), in every prefix of
  the events, and no exit is announced twice: the starts are the exits that were announced and
  the watchers that still run.\<close>

theorem exits_match_starts:
  "let s = svc_run env (local_new w wc_new ns address) ls
   in exits_follow (l_events s)
      \<and> starts (l_events s) = exits (l_events s) + mset (map snd (l_watchers s))"
  using inv_run [of env w ns address ls] exits_follow_run [of env w ns address ls]
  by (simp add: Let_def svc_inv_def)

text \<open>C22: The state of the service is well formed in every state that requests and background tasks can bring it to: an id
  names one instance and no two ids share one, every reference of the map and of a watcher is to an instance that
  exists, an instance has no pid before it has started and has one while it runs, and a watcher knows the pid of
  its instance.\<close>

theorem service_state_wellformed:
  "let s = svc_run env (local_new w wc_new ns address) ls
   in distinct (map fst (l_instances s))
      \<and> inj_on (map_of (l_instances s)) (dom (map_of (l_instances s)))
      \<and> ran (map_of (l_instances s)) \<subseteq> {..< length (l_heap s)}
      \<and> list_all (\<lambda>d. case tstate d of Created \<Rightarrow> pid_cell d = None | Starting \<Rightarrow> pid_cell d = None
                       | Started \<Rightarrow> pid_cell d \<noteq> None | _ \<Rightarrow> True) (l_heap s)
      \<and> list_all (\<lambda>(r, c, p). r < length (l_heap s) \<and> pid_cell (l_heap s ! r) = Some p) (l_watchers s)"
proof -
  have "registry_ok (svc_run env (local_new w wc_new ns address) ls)"
    using inv_run [of env w ns address ls] by (simp add: svc_inv_def)
  then show ?thesis
    unfolding Let_def registry_ok_def data_ok_def list_all_iff
    by (intro conjI) (auto simp: inj_on_def dom_def ran_def split: task_state.split)
qed

section \<open>Replies\<close>

lemma task_create_shape:
  "let (t, res) = task_create env s req in
     case create_instance env s req of
       (u, Ok (spec, d)) \<Rightarrow>
         \<not> has_instance s (cr_id req) \<and> tstate d = Created \<and> pid_cell d = None
         \<and> l_heap t = l_heap s @ [d]
         \<and> map_of (l_instances t) = (map_of (l_instances s))(cr_id req \<mapsto> length (l_heap s))
         \<and> l_events t = l_events s @ [TaskCreate (cr_id req) (cr_bundle req) (cr_rootfs req)
                                        (cr_stdin req) (cr_stdout req) (cr_stderr req)]
         \<and> l_watchers t = l_watchers s
         \<and> (let (w, r) = setup_prestart_hooks (e_proc env) (e_pid env) (l_world u) (sp_hooks spec)
             in l_world t = w \<and> res = and_then r (\<lambda>_. Ok (e_pid env)))
     | _ \<Rightarrow> \<not> is_ok res \<and> t = s\<lparr>l_world := l_world t\<rparr>"
proof (cases "create_instance env s req")
  case (Pair u x)
  have world: "same_service s u" using create_instance_world [of s env req] Pair by simp
  show ?thesis
  proof (cases x)
    case (Ok sd)
    obtain spec d where sd: "sd = (spec, d)" by (cases sd)
    from create_instance_Ok [of env s req u spec d] Pair Ok sd
    have "map_of (l_instances s) (cr_id req) = None" and d: "data_ok d" "tstate d = Created"
      using same_service_fields [OF world] by auto
    moreover obtain w r where "setup_prestart_hooks (e_proc env) (e_pid env) (l_world u) (sp_hooks spec) = (w, r)"
      by fastforce
    moreover have "pid_cell d = None" using d by (simp add: data_ok_def)
    ultimately show ?thesis
      using Pair Ok sd same_service_fields [OF world]
      by (cases r)
        (simp_all add: task_create_def create_finish_def on_world_def send_def create_insert_def has_instance_def)
  qed (use Pair world in \<open>auto simp: task_create_def same_service_def\<close>)
qed

text \<open>C23: What \<open>task_create\<close> leaves behind. Either it failed before the instance was inserted:
  then nothing but the world has changed, no event was sent. Or the id is registered with a fresh
  \<open>Created\<close> instance and \<open>TaskCreate\<close> was sent, also when the prestart hooks then fail: the
  reply is that of the hooks, and the failed container stays registered.\<close>

theorem task_create_outcome:
  "let (t, res) = task_create env s req in
     case create_instance env s req of
       (u, Ok (spec, d)) \<Rightarrow>
         \<not> has_instance s (cr_id req) \<and> tstate d = Created \<and> pid_cell d = None
         \<and> l_heap t = l_heap s @ [d]
         \<and> map_of (l_instances t) = (map_of (l_instances s))(cr_id req \<mapsto> length (l_heap s))
         \<and> l_events t = l_events s @ [TaskCreate (cr_id req) (cr_bundle req) (cr_rootfs req)
                                        (cr_stdin req) (cr_stdout req) (cr_stderr req)]
         \<and> l_watchers t = l_watchers s
         \<and> (let (w, r) = setup_prestart_hooks (e_proc env) (e_pid env) (l_world u) (sp_hooks spec)
             in l_world t = w \<and> res = and_then r (\<lambda>_. Ok (e_pid env)))
     | _ \<Rightarrow> \<not> is_ok res \<and> t = s\<lparr>l_world := l_world t\<rparr>"
  by (rule task_create_shape)

end
