(* ===== verification/Local_Replies.thy ===== *)
theory Local_Replies
  imports Local_Lifecycle
begin

text \<open>
  What the replies of the task service mean: after a delete, of a failed start, of a state
  request, and when the shim may exit.
\<close>

section \<open>An environment for examples\<close>

text \<open>One instance whose start succeeds or fails as given; the world is its exit.\<close>

definition demo_ops :: "u32 sandbox_result \<Rightarrow> (exit_info option, unit) instance_ops" where
  "demo_ops started =
     \<lparr>i_new = (\<lambda>w c cfg. (w, Ok ())), i_start = (\<lambda>w i. (w, started)),
      i_kill = (\<lambda>w i sig. (w, Ok ())), i_delete = (\<lambda>w i. (w, Ok ())), i_poll = (\<lambda>w i. w)\<rparr>"

definition demo_proc :: "'w process_ops" where
  "demo_proc =
     \<lparr>spawn = (\<lambda>w c. (w, Ok 0)), write_stdin = (\<lambda>w p s. (w, Ok ())),
      kill_process = (\<lambda>w p. w), wait_process = (\<lambda>w p. (w, Ok 0))\<rparr>"

definition demo_env :: "('w, 'i) instance_ops \<Rightarrow> ('w, 'i, unit) shim_env" where
  "demo_env ops =
     \<lparr>e_ops = ops, e_proc = demo_proc,
      e_decode = (\<lambda>s. Ok s), e_toml = (\<lambda>s. Ok default_config),
      e_load_spec = (\<lambda>w p. Ok \<lparr>sp_root = Some ''/rootfs'', sp_hooks = None, sp_annotations = None\<rparr>),
      e_canonicalize_rootfs = (\<lambda>w s b. Ok s), e_create_dir_all = (\<lambda>w p. (w, Ok ())),
      e_mount_rootfs = (\<lambda>w t s o' p. (w, Ok ())), e_get_metrics = (\<lambda>w p. Ok ()), e_pid = 42\<rparr>"

definition demo_request :: create_request where
  "demo_request =
     \<lparr>cr_id = ''c1'', cr_bundle = ''/b'', cr_rootfs = [], cr_terminal = False, cr_stdin = [],
      cr_stdout = [], cr_stderr = [], cr_checkpoint = [], cr_parent_checkpoint = [], cr_options = None\<rparr>"

lemmas demo_defs = demo_ops_def demo_proc_def demo_env_def demo_request_def

lemmas handler_defs =
  task_create_def create_instance_def create_check_def create_spec_def create_insert_def
  create_finish_def task_start_def start_finish_def task_kill_def task_delete_def delete_finish_def
  task_state_def wait_poll_def wait_now_def watcher_poll_def task_wait_def task_stats_def connect_def
  shutdown_def get_instance_def has_instance_def is_empty_def send_def on_world_def on_inst_def
  id_new_def id_pid_def id_cases id_wait_def instance_config_of_def unwrap_or_default_def
  setup_prestart_hooks_def status_of_def local_new_def

section \<open>Replies after a delete\<close>

text \<open>C26: After a successful delete the id is free: every handler answers \<open>NotFound\<close> for it and
  changes nothing, and a new create is not refused as a duplicate.\<close>

theorem deleted_id_is_free:
  assumes "task_delete env s cid [] free = (t, Ok resp)"
  shows "\<not> has_instance t cid
    \<and> task_start env t cid [] = (t, Err (NotFound cid))
    \<and> task_kill env t cid [] sig = (t, Err (NotFound cid))
    \<and> task_delete env t cid [] free' = (t, Err (NotFound cid))
    \<and> task_state env t cid [] free' = (t, Err (NotFound cid))
    \<and> task_wait t cid [] = Err (NotFound cid)
    \<and> task_stats env t cid = Err (NotFound cid)
    \<and> connect env t cid = Err (NotFound cid)
    \<and> create_check env t req \<noteq> Err (AlreadyExists cid)"
proof -
  obtain u pid x where t: "delete_finish u cid pid x = (t, Ok resp)"
    using assms by (auto simp: task_delete_def res_simps case_prod_eq)
  have gone: "map_of (l_instances t) cid = None"
    using t by (auto simp: delete_finish_def Let_def send_def)
  then have "create_check env t req \<noteq> Err (AlreadyExists cid)"
    by (cases "get_from_options (e_decode env) (e_toml env) (cr_options req)")
      (auto simp: create_check_def has_instance_def)
  with gone show ?thesis
    by (simp add: has_instance_def get_instance_def task_start_def task_kill_def task_delete_def
        task_state_def task_wait_def task_stats_def connect_def)
qed

theorem deleted_id_is_free_witness:
  "\<exists>s t resp. task_delete (demo_env (demo_ops (Ok 7))) s ''c1'' [] True = (t, Ok resp)
     \<and> has_instance s ''c1'' \<and> \<not> has_instance t ''c1''"
proof -
  let ?env = "demo_env (demo_ops (Ok 7))"
  let ?s = "fst (task_create ?env (local_new None wc_new ''ns'' ''addr'') demo_request)"
  obtain t resp where d: "task_delete ?env ?s ''c1'' [] True = (t, Ok resp)"
    by (simp add: demo_defs handler_defs)
  moreover have "has_instance ?s ''c1''"
    by (simp add: demo_defs handler_defs)
  moreover have "\<not> has_instance t ''c1''"
    using deleted_id_is_free [OF d] by blast
  ultimately show ?thesis by blast
qed

section \<open>Delete and the exit status\<close>

text \<open>C27: A delete that the instance accepts replies with the pid (0 when the task was never started)
  and, when the task state is not locked by another request at that moment, with the exit status
  and time of the instance; \<open>TaskDelete\<close> carries the same values. With the lock taken the exit
  status is reported as 0 without a time, although the task has exited.\<close>

theorem task_delete_reply:
  assumes "map_of (l_instances s) cid = Some r" and "r < length (l_heap s)"
    and "tstate (l_heap s ! r) \<in> {Created, Exited}"
    and "i_delete (e_ops env) (l_world s) (inst (l_heap s ! r)) = (w', Ok ())"
  shows "let (t, res) = task_delete env s cid [] free;
             exit = (if free then i_poll (e_ops env) w' (inst (l_heap s ! r)) else None);
             pid = unwrap_or_default (pid_cell (l_heap s ! r));
             code = (case exit of None \<Rightarrow> 0 | Some (c, _) \<Rightarrow> c);
             at = map_option (\<lambda>(_, ti). to_timestamp ti) exit
         in res = Ok \<lparr>dr_pid = pid, dr_exit_status = code, dr_exited_at = at\<rparr>
            \<and> l_events t = l_events s @ [TaskDelete cid pid code at]
            \<and> map_of (l_instances t) = (map_of (l_instances s))(cid := None)
            \<and> l_world t = w'"
proof -
  let ?d = "(l_heap s ! r)\<lparr>tstate := Deleting\<rparr>"
  have "on_inst s r (id_delete (e_ops env))
      = (s\<lparr>l_world := w', l_heap := (l_heap s)[r := ?d]\<rparr>, Ok ())"
    using assms(3,4) by (auto simp: on_inst_def id_delete_cases)
  then show ?thesis
    using assms(1,2)
    by (auto simp: task_delete_def get_instance_def wait_now_def id_wait_def delete_finish_def Let_def
        send_def id_pid_def unwrap_or_default_def split: option.splits)
qed

theorem task_delete_reply_witness:
  "\<exists>s. let env = demo_env (demo_ops (Ok 7));
          (t, res) = task_delete env s ''c1'' [] True
       in res = Ok \<lparr>dr_pid = 7, dr_exit_status = 3, dr_exited_at = Some (to_timestamp (9, 0))\<rparr>"
proof -
  let ?d = "\<lparr>inst = (), id_config = undefined, pid_cell = Some 7, tstate = Exited\<rparr> :: unit instance_data"
  let ?s = "(local_new (Some (3, 9, 0)) wc_new ''ns'' ''a'')\<lparr>l_heap := [?d], l_instances := [(''c1'', 0)]\<rparr>"
  have "let env = demo_env (demo_ops (Ok 7)); (t, res) = task_delete env ?s ''c1'' [] True
    in res = Ok \<lparr>dr_pid = 7, dr_exit_status = 3, dr_exited_at = Some (to_timestamp (9, 0))\<rparr>"
    using task_delete_reply [of ?s "''c1''" 0 "demo_env (demo_ops (Ok 7))" "Some (3, 9, 0)" True]
    by (simp add: demo_defs local_new_def unwrap_or_default_def Let_def split: prod.splits)
  then show ?thesis by blast
qed

section \<open>State requests\<close>

text \<open>C17: The status a state request reports agrees with the events, in every reachable state:
  \<open>CREATED\<close> exactly when \<open>TaskCreate\<close> was the last event of the id, \<open>RUNNING\<close> or
  \<open>STOPPED\<close> exactly when \<open>TaskStart\<close> was; \<open>CREATED\<close> goes with an instance that has no pid, a reported
  exit moves the task to \<open>Exited\<close>, and a state request sends no event.\<close>

theorem task_state_agrees_with_events:
  assumes "s = svc_run env (local_new w wc_new ns address) ls"
    and "task_state env s cid [] free = (t, Ok r)"
  shows "(sr_status r = CREATED \<longleftrightarrow> lifecycle cid (l_events s) = Some Announced)
    \<and> (sr_status r \<in> {RUNNING, STOPPED} \<longleftrightarrow> lifecycle cid (l_events s) = Some Running)
    \<and> (sr_status r = CREATED \<longleftrightarrow> (\<exists>i. map_of (l_instances s) cid = Some i \<and> pid_cell (l_heap s ! i) = None))
    \<and> (sr_status r = STOPPED \<longrightarrow>
         (\<exists>i. map_of (l_instances t) cid = Some i \<and> tstate (l_heap t ! i) = Exited))
    \<and> l_events t = l_events s"
proof -
  have inv: "svc_inv s" unfolding assms(1) by (rule inv_run)
  obtain i where i: "map_of (l_instances s) cid = Some i"
    using assms(2) by (auto simp: task_state_def res_simps get_instance_def)
  have len: "i < length (l_heap s)" using inv registry_heap i by (auto simp: svc_inv_def)
  have "lifecycle cid (l_events s) = Some (phase_of s cid)" using inv by (simp add: svc_inv_def)
  then show ?thesis
    using assms(2) i len
    by (auto simp: task_state_def get_instance_def wait_now_def id_wait_def status_of_def id_pid_def
        phase_of_def Let_def split: option.splits if_splits)
qed

theorem task_state_agrees_with_events_witness:
  "\<exists>s t r. task_state (demo_env (demo_ops (Ok 7))) s ''c1'' [] True = (t, Ok r) \<and> sr_status r = STOPPED
     \<and> lifecycle ''c1'' (l_events s) = Some Running"
proof -
  let ?env = "demo_env (demo_ops (Ok 7))"
  let ?ls = "[Create demo_request, Start ''c1'' [], World (Some (3, 9, 0))]"
  let ?s = "svc_run ?env (local_new None wc_new [] []) ?ls"
  obtain t r where t: "task_state ?env ?s ''c1'' [] True = (t, Ok r)" and st: "sr_status r = STOPPED"
    by (simp add: demo_defs handler_defs)
  from task_state_agrees_with_events [OF refl t] st
  have "lifecycle ''c1'' (l_events ?s) = Some Running" by simp
  with t st show ?thesis by blast
qed

text \<open>A start that the instance refuses is final and invisible: the task can never be started
  again (\<open>FailedPrecondition\<close>), no event is sent, and a state request keeps reporting
  \<open>CREATED\<close> with pid 0, even when the instance has an exit status.\<close>

theorem failed_start_reported_created:
  assumes "svc_inv s" and "map_of (l_instances s) cid = Some r" and "tstate (l_heap s ! r) = Created"
    and "i_start (e_ops env) (l_world s) (inst (l_heap s ! r)) = (w', Err e)"
  shows "\<exists>t. task_start env s cid [] = (t, Err e) \<and> l_events t = l_events s
    \<and> (\<exists>m. task_start env t cid [] = (t, Err (FailedPrecondition m)))
    \<and> (\<exists>u resp. task_state env t cid [] free = (u, Ok resp) \<and> sr_status resp = CREATED \<and> sr_pid resp = 0)"
proof -
  from assms(1) have ok: "registry_ok s" by (simp add: svc_inv_def)
  note r = registry_heap [OF ok assms(2)]
  then have p: "pid_cell (l_heap s ! r) = None"
    using registry_data [OF ok] assms(3) by (simp add: data_ok_def)
  let ?t = "s\<lparr>l_world := w', l_heap := (l_heap s)[r := (l_heap s ! r)\<lparr>tstate := Exited\<rparr>]\<rparr>"
  have "task_start env s cid [] = (?t, Err e)"
    using assms(2-4) by (simp add: task_start_def get_instance_def on_inst_def id_start_cases)
  moreover have "\<exists>m. task_start env ?t cid [] = (?t, Err (FailedPrecondition m))"
    using assms(2) r
    by (simp add: task_start_def get_instance_def on_inst_def id_start_cases state_transition_error_def)
  moreover have "\<exists>u resp. task_state env ?t cid [] free = (u, Ok resp) \<and> sr_status resp = CREATED
      \<and> sr_pid resp = 0"
    using assms(2) r p
    by (auto simp: task_state_def get_instance_def id_pid_def status_of_def unwrap_or_default_def Let_def
        split: prod.splits)
  ultimately show ?thesis by (intro exI [of _ ?t]) simp
qed

theorem failed_start_reported_created_witness:
  "\<exists>s t resp. task_start (demo_env (demo_ops (Err (Any ''boom'')))) s ''c1'' [] = (t, Err (Any ''boom''))
     \<and> (\<exists>u. task_state (demo_env (demo_ops (Err (Any ''boom'')))) t ''c1'' [] True = (u, Ok resp))
     \<and> sr_status resp = CREATED"
proof -
  let ?env = "demo_env (demo_ops (Err (Any ''boom'')))"
  let ?s = "fst (task_create ?env (local_new None wc_new [] []) demo_request)"
  have "svc_inv ?s" by (intro inv_create inv_new)
  moreover have "map_of (l_instances ?s) ''c1'' = Some 0" and "tstate (l_heap ?s ! 0) = Created"
    and "i_start (e_ops ?env) (l_world ?s) (inst (l_heap ?s ! 0)) = (None, Err (Any ''boom''))"
    by (simp_all add: demo_defs handler_defs)
  ultimately show ?thesis
    using failed_start_reported_created [of ?s "''c1''" 0 ?env None "Any ''boom''" True] by blast
qed

section \<open>When the shim exits\<close>

lemma exit_kept [simp]:
  "l_exit (fst (on_world s f)) = l_exit s"
  "l_exit (fst (on_inst s r g)) = l_exit s"
  "l_exit (fst (wait_now env s r free)) = l_exit s"
  "l_exit (fst (create_instance env s req)) = l_exit s"
proof -
  show "l_exit (fst (create_instance env s req)) = l_exit s"
    using create_instance_world [of s env req] same_service_fields by blast
qed (simp_all add: on_world_def on_inst_def wait_now_def split: prod.splits)

lemma exit_fst:
  "on_world s f = (t, x) \<Longrightarrow> l_exit t = l_exit s"
  "on_inst s r g = (t, y) \<Longrightarrow> l_exit t = l_exit s"
  "wait_now env s r free = (t, z) \<Longrightarrow> l_exit t = l_exit s"
  "create_instance env s req = (t, u) \<Longrightarrow> l_exit t = l_exit s"
  by (metis exit_kept fst_conv)+

lemmas st_then_exit = fst_st_then_inv [where P = "\<lambda>s. l_exit s = e" for e]

lemma exit_handlers:
  "l_exit (fst (task_create env s req)) = l_exit s"
  "l_exit (fst (task_start env s cid ex)) = l_exit s"
  "l_exit (fst (task_kill env s cid ex sig)) = l_exit s"
  "l_exit (fst (task_delete env s cid ex free)) = l_exit s"
  "l_exit (fst (task_state env s cid ex free)) = l_exit s"
  "l_exit (fst (wait_poll env s r)) = l_exit s"
  "l_exit (watcher_poll env s k) = l_exit s"
  by (auto simp: task_create_def create_finish_def create_insert_def send_def task_start_def
      start_finish_def task_kill_def task_delete_def delete_finish_def task_state_def wait_poll_def
      watcher_poll_def Let_def intro!: st_then_exit dest!: exit_fst split: prod.splits option.splits)

lemma exit_step:
  "l_exit (svc_step env s l) =
     (if l = Shutdown \<and> is_empty s then fst (wc_set (l_exit s) ()) else l_exit s)"
  by (cases l) (auto simp: exit_handlers shutdown_def)

text \<open>C30: The shim is told to exit exactly when a shutdown request finds no container: a shutdown
  while a container is registered has no effect, and an exit is never taken back.\<close>

theorem shim_exits_iff_empty_shutdown:
  "wc_wait (l_exit (svc_run env (local_new w wc_new ns address) ls)) \<noteq> None \<longleftrightarrow>
     (\<exists>xs ys. ls = xs @ Shutdown # ys \<and> is_empty (svc_run env (local_new w wc_new ns address) xs))"
proof (induction ls rule: rev_induct)
  case Nil
  then show ?case by (simp add: local_new_def wc_new_def wc_wait_def)
next
  case (snoc l ls)
  let ?s = "svc_run env (local_new w wc_new ns address)"
  have "wc_wait (l_exit (?s (ls @ [l]))) \<noteq> None \<longleftrightarrow>
      wc_wait (l_exit (?s ls)) \<noteq> None \<or> (l = Shutdown \<and> is_empty (?s ls))"
    using wc.get_set [of "l_exit (?s ls)" "()"]
    by (auto simp: svc.run_append exit_step split: option.splits)
  also have "\<dots> \<longleftrightarrow> (\<exists>xs ys. ls @ [l] = xs @ Shutdown # ys \<and> is_empty (?s xs))"
    unfolding snoc.IH
    by (auto simp: append_eq_append_conv2 append_eq_Cons_conv Cons_eq_append_conv) blast+
  finally show ?case .
qed

end
