(* ===== verification/Local_Interleaving.thy ===== *)
theory Local_Interleaving
  imports Local_Replies
begin

text \<open>
  Requests to the task service that run at the same time. ttrpc serves every request on its own
  thread; a handler holds the lock of the instance map only while it looks up, inserts or removes
  an id, and the lock of a task state only while it works on that instance. Here a thread gives
  way wherever a handler holds no lock: every step is one of the pieces of which the handlers of
  \<open>Local_Service\<close> are composed, so a thread that runs alone is the handler.
\<close>

datatype request = RCreate create_request | RStart string | RKill string u32 | RDelete string

datatype 'i thread =
    Todo request
  | CreateMade create_request oci_spec "'i instance_data"
  | CreateInserted create_request oci_spec
  | StartFound string nat
  | StartRan string nat u32
  | KillFound string nat u32
  | DeleteFound string nat
  | DeleteDone string nat
  | DeleteWaited string u32 "exit_info option"
  | Replied "u32 sandbox_result"

definition proceed ::
  "('a \<Rightarrow> 'i thread) \<Rightarrow> ('w, 'i) local \<times> 'a sandbox_result \<Rightarrow> ('w, 'i) local \<times> 'i thread" where
  "proceed k p =
     (fst p, case snd p of Ok a \<Rightarrow> k a | Err e \<Rightarrow> Replied (Err e) | Panic m \<Rightarrow> Replied (Panic m))"

text \<open>The next piece of a thread; \<open>free\<close> is whether a \<open>now_or_never\<close> finds the state lock
  free.\<close>

fun advance ::
  "('w, 'i, 'm) shim_env \<Rightarrow> bool \<Rightarrow> ('w, 'i) local \<Rightarrow> 'i thread \<Rightarrow> ('w, 'i) local \<times> 'i thread" where
  "advance env free s (Todo (RCreate req)) =
     proceed (\<lambda>(spec, d). CreateMade req spec d) (create_instance env s req)"
| "advance env free s (CreateMade req spec d) = (create_insert s req d, CreateInserted req spec)"
| "advance env free s (CreateInserted req spec) =
     proceed (\<lambda>pid. Replied (Ok pid)) (create_finish env s req spec)"
| "advance env free s (Todo (RStart cid)) = proceed (StartFound cid) (s, get_instance s cid)"
| "advance env free s (StartFound cid r) =
     proceed (StartRan cid r) (on_inst s r (id_start (e_ops env)))"
| "advance env free s (StartRan cid r pid) = (start_finish s r cid pid, Replied (Ok pid))"
| "advance env free s (Todo (RKill cid sig)) = proceed (\<lambda>r. KillFound cid r sig) (s, get_instance s cid)"
| "advance env free s (KillFound cid r sig) =
     proceed (\<lambda>_. Replied (Ok 0)) (on_inst s r (\<lambda>w d. id_kill (e_ops env) w d sig))"
| "advance env free s (Todo (RDelete cid)) = proceed (DeleteFound cid) (s, get_instance s cid)"
| "advance env free s (DeleteFound cid r) =
     proceed (\<lambda>_. DeleteDone cid r) (on_inst s r (id_delete (e_ops env)))"
| "advance env free s (DeleteDone cid r) =
     (case wait_now env s r free of
        (s', exit) \<Rightarrow> (s', DeleteWaited cid (unwrap_or_default (id_pid (l_heap s ! r))) exit))"
| "advance env free s (DeleteWaited cid pid exit) =
     proceed (\<lambda>resp. Replied (Ok (dr_exit_status resp))) (delete_finish s cid pid exit)"
| "advance env free s (Replied r) = (s, Replied r)"

record ('w, 'i) concurrent =
  c_local :: "('w, 'i) local"
  c_threads :: "nat \<Rightarrow> 'i thread"

datatype 'w conc_label = Run nat bool | Background nat | Outside 'w

fun conc_step ::
  "('w, 'i, 'm) shim_env \<Rightarrow> ('w, 'i) concurrent \<Rightarrow> 'w conc_label \<Rightarrow> ('w, 'i) concurrent" where
  "conc_step env c (Run i free) =
     (case advance env free (c_local c) (c_threads c i) of
        (s, th) \<Rightarrow> c\<lparr>c_local := s, c_threads := (c_threads c)(i := th)\<rparr>)"
| "conc_step env c (Background k) = c\<lparr>c_local := watcher_poll env (c_local c) k\<rparr>"
| "conc_step env c (Outside w) = c\<lparr>c_local := (c_local c)\<lparr>l_world := w\<rparr>\<rparr>"

definition conc_init :: "('w, 'i) local \<Rightarrow> (nat \<Rightarrow> request) \<Rightarrow> ('w, 'i) concurrent" where
  "conc_init s reqs = \<lparr>c_local = s, c_threads = (\<lambda>i. Todo (reqs i))\<rparr>"

interpretation conc: machine "conc_init s reqs" "conc_step env" for s reqs env .

abbreviation conc_run ::
  "('w, 'i, 'm) shim_env \<Rightarrow> ('w, 'i) concurrent \<Rightarrow> 'w conc_label list \<Rightarrow> ('w, 'i) concurrent" where
  "conc_run env \<equiv> machine.run (conc_step env)"

section \<open>A thread that runs alone is the handler\<close>

fun alone ::
  "('w, 'i, 'm) shim_env \<Rightarrow> bool \<Rightarrow> nat \<Rightarrow> ('w, 'i) local \<times> 'i thread \<Rightarrow> ('w, 'i) local \<times> 'i thread" where
  "alone env free 0 p = p"
| "alone env free (Suc n) p = alone env free n (advance env free (fst p) (snd p))"

lemma alone_Replied [simp]: "alone env free n (s, Replied r) = (s, Replied r)"
  by (induction n) auto

lemma alone_create:
  "alone env free 4 (s, Todo (RCreate req)) = (case task_create env s req of (t, r) \<Rightarrow> (t, Replied r))"
proof (cases "create_instance env s req")
  case (Pair t x)
  show ?thesis
  proof (cases x)
    case (Ok sd)
    obtain spec d where sd: "sd = (spec, d)" by (cases sd)
    obtain u y where "create_finish env (create_insert t req d) req spec = (u, y)" by fastforce
    with Pair Ok sd show ?thesis by (cases y) (simp_all add: numeral_eq_Suc proceed_def task_create_def)
  qed (use Pair in \<open>simp_all add: numeral_eq_Suc proceed_def task_create_def\<close>)
qed

lemma alone_start:
  "alone env free 4 (s, Todo (RStart cid)) = (case task_start env s cid [] of (t, r) \<Rightarrow> (t, Replied r))"
proof (cases "get_instance s cid")
  case (Ok r)
  obtain t x where "on_inst s r (id_start (e_ops env)) = (t, x)" by fastforce
  with Ok show ?thesis by (cases x) (simp_all add: numeral_eq_Suc proceed_def task_start_def)
qed (simp_all add: numeral_eq_Suc proceed_def task_start_def)

lemma alone_kill:
  "alone env free 4 (s, Todo (RKill cid sig))
     = (case task_kill env s cid [] sig of (t, r) \<Rightarrow> (t, Replied (and_then r (\<lambda>_. Ok 0))))"
proof (cases "get_instance s cid")
  case (Ok r)
  obtain t x where "on_inst s r (\<lambda>w d. id_kill (e_ops env) w d sig) = (t, x)" by fastforce
  with Ok show ?thesis by (cases x) (simp_all add: numeral_eq_Suc proceed_def task_kill_def)
qed (simp_all add: numeral_eq_Suc proceed_def task_kill_def)

lemma alone_delete:
  "alone env free 4 (s, Todo (RDelete cid))
     = (case task_delete env s cid [] free of
          (t, r) \<Rightarrow> (t, Replied (and_then r (\<lambda>resp. Ok (dr_exit_status resp)))))"
proof (cases "get_instance s cid")
  case (Ok r)
  obtain t x where 1: "on_inst s r (id_delete (e_ops env)) = (t, x)" by fastforce
  obtain u e where "wait_now env t r free = (u, e)" by fastforce
  with Ok 1 show ?thesis
    by (cases x) (simp_all add: numeral_eq_Suc proceed_def task_delete_def delete_finish_def Let_def)
qed (simp_all add: numeral_eq_Suc proceed_def task_delete_def)


section \<open>What holds under every interleaving\<close>

definition balanced :: "('w, 'i) local \<Rightarrow> bool" where
  "balanced s \<longleftrightarrow> starts (l_events s) = exits (l_events s) + mset (map snd (l_watchers s))"

lemma balanced_simps [simp]:
  "balanced (s\<lparr>l_world := w\<rparr>) = balanced s"
  "balanced (s\<lparr>l_heap := h\<rparr>) = balanced s"
  "balanced (s\<lparr>l_instances := m\<rparr>) = balanced s"
  by (simp_all add: balanced_def)

lemma balanced_pieces:
  assumes "balanced s"
  shows "balanced (fst (create_instance env s req))" "balanced (create_insert s req d)"
    "balanced (fst (create_finish env s req spec))" "balanced (fst (on_inst s r f))"
    "balanced (start_finish s r cid pid)" "balanced (fst (wait_now env s r free))"
    "balanced (fst (delete_finish s cid pid x))"
proof -
  show "balanced (fst (create_instance env s req))"
    using assms same_service_fields [OF create_instance_world [of s env req]] by (simp add: balanced_def)
  show "balanced (fst (create_finish env s req spec))"
    using assms unfolding create_finish_def
    by (intro fst_st_then_inv [where P = balanced])
      (auto simp: balanced_def on_world_def send_def split: prod.splits)
qed (use assms in \<open>auto simp: balanced_def create_insert_def on_inst_def start_finish_def send_def
      wait_now_def delete_finish_def Let_def split: prod.splits\<close>)

lemma balanced_watch:
  assumes "balanced s"
  shows "balanced (watcher_poll env s k)"
proof (cases "k < length (l_watchers s)")
  case True
  obtain r cid pid where "l_watchers s ! k = (r, cid, pid)" by (metis prod.exhaust)
  with assms mset_remove_nth [OF True] True show ?thesis
    by (auto simp: watcher_poll_def balanced_def send_def split: prod.splits option.splits)
qed (use assms in \<open>simp add: watcher_poll_def\<close>)

lemma fst_proceed [simp]: "fst (proceed k p) = fst p"
  by (simp add: proceed_def)

lemma balanced_advance: "balanced s \<Longrightarrow> balanced (fst (advance env free s th))"
  by (induction env free s th rule: advance.induct) (simp_all add: balanced_pieces prod.case_eq_if)

lemma balanced_conc_step: "balanced (c_local c) \<Longrightarrow> balanced (c_local (conc_step env c l))"
  by (cases l) (auto simp: balanced_watch prod.case_eq_if balanced_advance)

text \<open>C25: Also when the requests interleave, at every point where a handler holds no lock, every
  \<open>TaskExit\<close> that was sent has its own \<open>TaskStart\<close>, and the starts that have no exit yet have a
  watcher.\<close>

theorem exits_match_starts_interleaved:
  "let s = c_local (conc_run env (conc_init (local_new w wc_new ns address) reqs) ls)
   in starts (l_events s) = exits (l_events s) + mset (map snd (l_watchers s))"
proof -
  have "balanced (c_local (conc_run env (conc_init (local_new w wc_new ns address) reqs) ls))"
  proof (rule conc.run_invariant [where I = "\<lambda>c. balanced (c_local c)"])
    show "balanced (c_local (conc_init (local_new w wc_new ns address) reqs))"
      by (simp add: conc_init_def local_new_def balanced_def)
  qed (rule balanced_conc_step)
  then show ?thesis by (simp add: balanced_def Let_def)
qed

section \<open>Races\<close>


text \<open>\<open>TaskExit\<close> is sent by a task of its own, so a delete can overtake it: containerd may
  see \<open>TaskDelete\<close> before the \<open>TaskExit\<close> of the same run, even when the requests come strictly
  one after the other.\<close>

theorem delete_event_overtakes_exit_event:
  "\<exists>(env :: (exit_info option, unit, unit) shim_env) ls b m i o' e p c t t'.
     l_events (svc_run env (local_new None wc_new ns address) ls) =
       [TaskCreate ''c1'' b m i o' e, TaskStart ''c1'' p, TaskDelete ''c1'' p c t,
        TaskExit ''c1'' ''c1'' p c t']"
proof -
  have "l_events (svc_run (demo_env (demo_ops (Ok 7))) (local_new None wc_new ns address)
      [Create demo_request, Start ''c1'' [], World (Some (3, 9, 0)), State ''c1'' [] True,
       Delete ''c1'' [] True, Watch 0]) =
    [TaskCreate ''c1'' ''/b'' [] [] [] [], TaskStart ''c1'' 7,
     TaskDelete ''c1'' 7 3 (Some (to_timestamp (9, 0))),
     TaskExit ''c1'' ''c1'' 7 3 (Some (to_timestamp (9, 0)))]"
    by (simp add: demo_defs handler_defs Let_def)
  then show ?thesis by blast
qed

end
