(* ===== verification/Local_Refinement.thy ===== *)
theory Local_Refinement
  imports Local_Replies
begin

text \<open>
  The task service against an abstract specification: containerd's picture of a pod is a map from container ids to
  the life cycle of each container, and a request or a background step changes at most one of them, along one of the
  moves of the life cycle. The abstraction forgets the heap of instances, the world, the events, the watchers and
  the configuration.
\<close>

section \<open>The specification\<close>

type_synonym task_view = "(task_state \<times> u32 option) option"

inductive task_moves :: "task_view \<Rightarrow> task_view \<Rightarrow> bool" where
  stay: "task_moves v v"
| create: "task_moves None (Some (Created, None))"
| start: "task_moves (Some (Created, None)) (Some (Started, Some pid))"
| start_panics: "task_moves (Some (Created, p)) (Some (Starting, p))"
| exit: "task_moves (Some (st, p)) (Some (Exited, p))"
| delete: "st = Created \<or> st = Exited \<Longrightarrow> task_moves (Some (st, p)) None"
| delete_panics: "st = Created \<or> st = Exited \<Longrightarrow> task_moves (Some (st, p)) (Some (Deleting, p))"

inductive_cases task_moves_fromE: "task_moves (Some (st, p)) v"
inductive_simps task_moves_from_None: "task_moves None v"

definition pod_step :: "(string \<Rightarrow> task_view) \<Rightarrow> (string \<Rightarrow> task_view) \<Rightarrow> bool" where
  "pod_step p p' \<longleftrightarrow> (\<exists>c v. p' = p(c := v) \<and> task_moves (p c) v)"

section \<open>The abstraction\<close>

definition view_of :: "'i instance_data \<Rightarrow> task_state \<times> u32 option" where
  "view_of d = (tstate d, pid_cell d)"

definition task_view :: "('w, 'i) local \<Rightarrow> string \<Rightarrow> task_view" where
  "task_view s c = map_option (\<lambda>r. view_of (l_heap s ! r)) (map_of (l_instances s) c)"

lemma pod_step_refl: "pod_step p p"
  unfolding pod_step_def by (intro exI [of _ "[]"] exI [of _ "p []"]) (simp add: task_moves.stay)

lemma task_view_cong:
  "l_heap t = l_heap s \<Longrightarrow> l_instances t = l_instances s \<Longrightarrow> task_view t = task_view s"
  by (simp add: task_view_def fun_eq_iff)

text \<open>A changed instance is a changed life cycle of the one id that names it, if any.\<close>

lemma task_view_inst:
  assumes "registry_ok s" and "map_of (l_instances s) c = Some r"
    and "l_heap t = (l_heap s)[r := d]" and "l_instances t = l_instances s"
  shows "task_view t = (task_view s)(c := Some (view_of d))"
proof
  fix c'
  show "task_view t c' = ((task_view s)(c := Some (view_of d))) c'"
    using assms registry_heap [OF assms(1,2)] registry_inj [OF assms(1,2), of c']
    by (cases "map_of (l_instances s) c'") (auto simp: task_view_def nth_list_update)
qed

lemma pod_step_inst:
  assumes "registry_ok s" and "l_heap t = (l_heap s)[r := d]" and "l_instances t = l_instances s"
    and moves: "task_moves (Some (view_of (l_heap s ! r))) (Some (view_of d))"
  shows "pod_step (task_view s) (task_view t)"
proof (cases "\<exists>c. map_of (l_instances s) c = Some r")
  case True
  then obtain c where c: "map_of (l_instances s) c = Some r" by blast
  show ?thesis
    unfolding pod_step_def using task_view_inst [OF assms(1) c assms(2,3)] moves c
    by (intro exI [of _ c] exI [of _ "Some (view_of d)"]) (simp add: task_view_def)
next
  case False
  have "task_view t c = task_view s c" for c
  proof (cases "map_of (l_instances s) c")
    case (Some r')
    then have "r \<noteq> r'" using False by blast
    then show ?thesis using Some assms(2,3) by (simp add: task_view_def)
  qed (simp add: task_view_def assms(3))
  then have "task_view t = task_view s" by blast
  then show ?thesis by (simp add: pod_step_refl)
qed

section \<open>The operations of an instance make moves\<close>

lemma start_moves:
  assumes "data_ok d" and "id_start ops w d = ((w', d'), x)"
  shows "task_moves (Some (view_of d)) (Some (view_of d'))"
proof (cases "tstate d = Created")
  case True
  then have "pid_cell d = None" using assms(1) by (simp add: data_ok_def)
  then show ?thesis
    using assms(2) True
    by (auto simp: id_start_cases view_of_def intro: task_moves.intros split: prod.splits result.splits)
qed (use assms(2) in \<open>auto simp: id_start_cases view_of_def intro: task_moves.stay\<close>)

lemma kill_moves: "id_kill ops w d sig = ((w', d'), x) \<Longrightarrow> d' = d"
  by (auto simp: id_kill_cases split: prod.splits if_splits)

lemma delete_moves:
  "id_delete ops w d = ((w', d'), x) \<Longrightarrow> task_moves (Some (view_of d)) (Some (view_of d'))"
  by (auto simp: id_delete_cases view_of_def intro: task_moves.intros split: prod.splits result.splits if_splits)

lemma delete_Ok_state: "id_delete ops w d = ((w', d'), Ok u) \<Longrightarrow> tstate d = Created \<or> tstate d = Exited"
  by (auto simp: id_delete_cases state_transition_error_def split: prod.splits result.splits if_splits)

lemma wait_moves: "id_wait ops w d = (d', x) \<Longrightarrow> task_moves (Some (view_of d)) (Some (view_of d'))"
  by (auto simp: id_wait_def view_of_def intro: task_moves.intros split: option.splits)

section \<open>The handlers refine the specification\<close>

lemma pod_step_on_inst:
  assumes "registry_ok s" and "r < length (l_heap s)"
    and "\<And>w w' d d' x. f w d = ((w', d'), x) \<Longrightarrow> data_ok d \<Longrightarrow> task_moves (Some (view_of d)) (Some (view_of d'))"
  shows "pod_step (task_view s) (task_view (fst (on_inst s r f)))"
proof -
  obtain w' d' x where f: "f (l_world s) (l_heap s ! r) = ((w', d'), x)" by (metis prod.exhaust)
  show ?thesis
    using assms(3) [OF f registry_data [OF assms(1,2)]] f
    by (intro pod_step_inst [OF assms(1), of _ r d']) (simp_all add: on_inst_def)
qed

lemma pod_step_wait_now:
  assumes "registry_ok s"
  shows "pod_step (task_view s) (task_view (fst (wait_now env s r free)))"
proof (cases free)
  case True
  obtain d x where w: "id_wait (e_ops env) (l_world s) (l_heap s ! r) = (d, x)" by (metis prod.exhaust)
  show ?thesis
    using wait_moves [OF w] w True by (intro pod_step_inst [OF assms, of _ r d]) (simp_all add: wait_now_def)
qed (simp add: wait_now_def pod_step_refl)

lemma pod_step_create:
  assumes "registry_ok s"
  shows "pod_step (task_view s) (task_view (fst (task_create env s req)))"
proof -
  obtain u x where u: "create_instance env s req = (u, x)" by (metis prod.exhaust)
  have same: "l_heap u = l_heap s" "l_instances u = l_instances s"
    using same_service_fields create_instance_world [of s env req] u by (metis fst_conv)+
  have view: "task_view u = task_view s" using same by (rule task_view_cong)
  show ?thesis
  proof (cases x)
    case (Ok sd)
    obtain spec d where sd: "sd = (spec, d)" by (cases sd)
    note new = create_instance_Ok [OF u [unfolded Ok sd]]
    have d: "view_of d = (Created, None)" using new by (simp add: view_of_def data_ok_def)
    let ?t = "fst (task_create env s req)"
    have t: "l_heap ?t = l_heap s @ [d]" "l_instances ?t = AList.update (cr_id req) (length (l_heap s)) (l_instances s)"
      using u Ok sd same
      by (auto simp: task_create_def create_finish_def create_insert_def on_world_def send_def st_then_eq_Ok
          split: prod.splits) (cases "snd (setup_prestart_hooks (e_proc env) (e_pid env) (l_world u) (sp_hooks spec))"; force)+
    have "task_view ?t = (task_view s)(cr_id req := Some (Created, None))"
      using registry_heap [OF assms] d
      by (auto simp: task_view_def fun_eq_iff t nth_append intro!: option.map_cong0 split: option.splits)
    then show ?thesis
      unfolding pod_step_def using new same
      by (intro exI [of _ "cr_id req"] exI [of _ "Some (Created, None)"])
        (simp add: task_view_def task_moves.create)
  qed (use u view in \<open>simp_all add: task_create_def pod_step_refl\<close>)
qed

lemma pod_step_start:
  assumes "registry_ok s"
  shows "pod_step (task_view s) (task_view (fst (task_start env s cid exec_id)))"
proof (cases "get_instance s cid")
  case (Ok r)
  then have r: "r < length (l_heap s)" using registry_heap [OF assms] by (auto simp: get_instance_Ok)
  have view: "task_view (start_finish u r cid pid) = task_view u" for u :: "('a, 'b) local" and pid
    by (rule task_view_cong) (simp_all add: start_finish_def send_def)
  have "pod_step (task_view s) (task_view (fst (on_inst s r (id_start (e_ops env)))))"
    by (rule pod_step_on_inst [OF assms r]) (blast intro: start_moves)
  then show ?thesis
    using Ok
    by (cases "on_inst s r (id_start (e_ops env))"; cases "snd (on_inst s r (id_start (e_ops env)))")
      (auto simp: task_start_def view pod_step_refl)
qed (simp_all add: task_start_def pod_step_refl)

lemma pod_step_kill:
  assumes "registry_ok s"
  shows "pod_step (task_view s) (task_view (fst (task_kill env s cid exec_id sig)))"
proof (cases "get_instance s cid")
  case (Ok r)
  then have r: "r < length (l_heap s)" using registry_heap [OF assms] by (auto simp: get_instance_Ok)
  have "pod_step (task_view s) (task_view (fst (on_inst s r (\<lambda>w d. id_kill (e_ops env) w d sig))))"
    by (rule pod_step_on_inst [OF assms r]) (auto dest: kill_moves intro: task_moves.stay)
  then show ?thesis using Ok by (simp add: task_kill_def pod_step_refl)
qed (simp_all add: task_kill_def pod_step_refl)

lemma pod_step_delete:
  assumes "registry_ok s"
  shows "pod_step (task_view s) (task_view (fst (task_delete env s cid exec_id free)))"
proof (cases "get_instance s cid")
  case (Ok r)
  then have reg: "map_of (l_instances s) cid = Some r" by (simp add: get_instance_Ok)
  have r: "r < length (l_heap s)" using registry_heap [OF assms reg] .
  obtain u x where u: "on_inst s r (id_delete (e_ops env)) = (u, x)" by (metis prod.exhaust)
  have step: "pod_step (task_view s) (task_view u)"
    using pod_step_on_inst [OF assms r, of "id_delete (e_ops env)"] delete_moves u by (metis fst_conv)
  show ?thesis
  proof (cases "exec_id = [] \<and> is_ok x")
    case False
    then show ?thesis using Ok u step by (cases x) (auto simp: task_delete_def pod_step_refl)
  next
    case True
    obtain t y where t: "wait_now env u r free = (t, y)" by (metis prod.exhaust)
    obtain d where d: "l_heap t = (l_heap s)[r := d]" "l_instances t = l_instances s"
      using u t by (auto simp: on_inst_def wait_now_def split: prod.splits if_splits)
    let ?v = "fst (task_delete env s cid exec_id free)"
    have v: "l_heap ?v = l_heap t" "l_instances ?v = AList.delete cid (l_instances t)"
      using Ok u t True by (auto simp: task_delete_def delete_finish_def send_def Let_def is_ok_iff)
    have "task_view ?v = (task_view t)(cid := None)"
      by (simp add: task_view_def fun_eq_iff v)
    also have "\<dots> = (task_view s)(cid := None)"
      using task_view_inst [OF assms reg d] by simp
    finally have view: "task_view ?v = (task_view s)(cid := None)" .
    have "tstate (l_heap s ! r) = Created \<or> tstate (l_heap s ! r) = Exited"
      using u True by (auto simp: on_inst_def is_ok_iff split: prod.splits dest: delete_Ok_state)
    then have "task_moves (task_view s cid) None"
      using reg by (simp add: task_view_def view_of_def task_moves.delete)
    with view show ?thesis unfolding pod_step_def by blast
  qed
qed (simp_all add: task_delete_def pod_step_refl)

lemma pod_step_state:
  assumes "registry_ok s"
  shows "pod_step (task_view s) (task_view (fst (task_state env s cid exec_id free)))"
proof (cases "get_instance s cid")
  case (Ok r)
  then show ?thesis
    using pod_step_wait_now [OF assms, of env r free]
    by (auto simp: task_state_def pod_step_refl Let_def split: prod.splits)
qed (simp_all add: task_state_def pod_step_refl)

lemma pod_step_watch:
  assumes "registry_ok s"
  shows "pod_step (task_view s) (task_view (watcher_poll env s k))"
proof (cases "k < length (l_watchers s)")
  case True
  obtain r cid pid where w: "l_watchers s ! k = (r, cid, pid)" by (metis prod.exhaust)
  obtain d x where p: "id_wait (e_ops env) (l_world s) (l_heap s ! r) = (d, x)" by (metis prod.exhaust)
  have "pod_step (task_view s) (task_view (send (s\<lparr>l_heap := (l_heap s)[r := d], l_watchers := ws\<rparr>) e))" for ws e
    by (rule pod_step_inst [OF assms, of _ r d]) (simp_all add: send_def wait_moves [OF p])
  then show ?thesis
    using True w p by (cases x) (auto simp: watcher_poll_def pod_step_refl)
qed (simp add: watcher_poll_def pod_step_refl)

lemma pod_step_svc:
  assumes "registry_ok s"
  shows "pod_step (task_view s) (task_view (svc_step env s l))"
proof (cases l)
  case (WaitPoll r)
  then show ?thesis
    using pod_step_wait_now [OF assms, of env r True]
    by (auto simp: wait_poll_def pod_step_refl split: prod.splits)
next
  case (World w)
  have "task_view (s\<lparr>l_world := w\<rparr>) = task_view s" by (rule task_view_cong) simp_all
  then show ?thesis using World by (simp add: pod_step_refl)
next
  case Shutdown
  have "task_view (shutdown s) = task_view s" by (rule task_view_cong) (simp_all add: shutdown_def)
  then show ?thesis using Shutdown by (simp add: pod_step_refl)
qed (simp_all add: assms pod_step_create pod_step_start pod_step_kill pod_step_delete pod_step_state pod_step_watch)

text \<open>C3: The task service refines the life cycle of its containers. Whatever has been asked of it before, one more
  request, poll of a background task or change of the world changes the state of at most one container, and only
  along a move of the specification: an id that is free becomes a created container without pid; a created one
  becomes running with the pid of its process; any may be found to have exited; and only one that was created or
  has exited is ever removed, or left in deletion by a panic. A running container is never removed, a pid never
  changes, and a container that has exited never runs again.\<close>

theorem service_refines_lifecycle:
  "pod_step (task_view (svc_run env (local_new w wc_new ns address) ls))
     (task_view (svc_run env (local_new w wc_new ns address) (ls @ [l])))"
  using pod_step_svc [of "svc_run env (local_new w wc_new ns address) ls" env l] inv_run [of env w ns address ls]
  by (simp add: svc.run_append svc_inv_def)

text \<open>What the moves alone give.\<close>

lemma exited_stays: "task_moves (Some (Exited, p)) v \<Longrightarrow> v = None \<or> v = Some (Exited, p) \<or> v = Some (Deleting, p)"
  by (auto elim: task_moves_fromE)

lemma running_not_removed: "task_moves (Some (Started, p)) v \<Longrightarrow> v = Some (Started, p) \<or> v = Some (Exited, p)"
  by (auto elim: task_moves_fromE)

end
