(* ===== verification/Sandbox_Context.thy ===== *)
theory Sandbox_Context
  imports Base
begin

text \<open>
  What a wasm engine is told about a container: arguments, environment and entrypoint
  (\<open>containerd-shim-wasm/src/sandbox/context.rs\<close>), the search for the module in \<open>PATH\<close>
  (\<open>sandbox/path.rs\<close>), the default \<open>can_handle\<close> (\<open>sandbox/mod.rs\<close>) and the choice between
  Linux and wasm (\<open>sys/unix/container/executor.rs\<close>).

  The file system and the wasm and wat parsers are outside: they are the fields of \<open>fs\<close>. The
  errors are the texts of the \<open>anyhow\<close> errors.
\<close>

section \<open>The runtime context\<close>

record descriptor =
  media_type :: string
  digest :: string

record wasm_layer =
  wl_config :: descriptor
  wl_layer :: string

datatype source = File path | Oci "wasm_layer list"

record entrypoint =
  func :: string
  name :: "string option"
  arg0 :: "path option"
  source :: source

record process =
  pr_args :: "string list option"
  pr_env :: "string list option"

record wasi_context =
  ctx_process :: "process option"
  wasm_layers :: "wasm_layer list"

definition args :: "wasi_context \<Rightarrow> string list" where
  "args ctx = (case Option.bind (ctx_process ctx) pr_args of Some a \<Rightarrow> a | None \<Rightarrow> [])"

definition envs :: "wasi_context \<Rightarrow> string list" where
  "envs ctx = (case Option.bind (ctx_process ctx) pr_env of Some a \<Rightarrow> a | None \<Rightarrow> [])"

definition split_entrypoint :: "string \<Rightarrow> path \<times> string" where
  "split_entrypoint e = (case split_once CHR ''#'' e of Some pf \<Rightarrow> pf | None \<Rightarrow> (e, ''_start''))"

definition entrypoint_of :: "wasi_context \<Rightarrow> entrypoint" where
  "entrypoint_of ctx =
     (let a0 = (case args ctx of [] \<Rightarrow> None | a # _ \<Rightarrow> Some a);
          entry_point = (case a0 of Some a \<Rightarrow> a | None \<Rightarrow> []);
          (p, f) = split_entrypoint entry_point
      in \<lparr>func = f, name = file_stem p, arg0 = a0,
          source = (if wasm_layers ctx = [] then File p else Oci (wasm_layers ctx))\<rparr>)"

datatype wasm_binary_type = Module | Component

definition binary_type :: "(string \<Rightarrow> bool) \<Rightarrow> (string \<Rightarrow> bool) \<Rightarrow> string \<Rightarrow> wasm_binary_type option" where
  "binary_type is_component is_core_wasm bytes =
     (if is_component bytes then Some Component
      else if is_core_wasm bytes then Some Module else None)"

section \<open>Resolving paths\<close>

record fs =
  fs_cwd :: "path option"
  fs_path_var :: "string option"
  fs_canonicalize :: "path \<Rightarrow> path option"
  fs_is_dir :: "path \<Rightarrow> bool"
  fs_is_file :: "path \<Rightarrow> bool"
  fs_mode :: "path \<Rightarrow> u32 option"
  fs_read :: "path \<Rightarrow> (string, string) result"
  fs_parse_wat :: "path \<Rightarrow> (unit, string) result"

definition env_paths :: "fs \<Rightarrow> path list" where
  "env_paths f = (case fs_path_var f of None \<Rightarrow> [] | Some v \<Rightarrow> split_on CHR '':'' v)"

text \<open>\<open>filter_map\<close> over an iterator.\<close>

definition filter_map :: "('a \<Rightarrow> 'b option) \<Rightarrow> 'a list \<Rightarrow> 'b list" where
  "filter_map g xs = List.map_filter g xs"

definition has_separator :: "path \<Rightarrow> bool" where
  "has_separator p \<longleftrightarrow> 1 < length (components p)"

definition existing_file :: "fs \<Rightarrow> path \<Rightarrow> path \<Rightarrow> path option" where
  "existing_file f file dir =
     Option.bind (fs_canonicalize f (path_join dir file)) (\<lambda>p. if fs_is_file f p then Some p else None)"

definition existing_dir :: "fs \<Rightarrow> path \<Rightarrow> path option" where
  "existing_dir f d =
     Option.bind (fs_cwd f) (\<lambda>cwd.
     Option.bind (fs_canonicalize f (path_join cwd d)) (\<lambda>p. if fs_is_dir f p then Some p else None))"

definition resolve_in_dirs :: "fs \<Rightarrow> path \<Rightarrow> path list \<Rightarrow> path list" where
  "resolve_in_dirs f file dirs =
     filter_map (existing_file f file)
       (if has_separator file then (case fs_cwd f of None \<Rightarrow> [] | Some c \<Rightarrow> [c])
        else filter_map (existing_dir f) dirs)"

definition resolve_in_path :: "fs \<Rightarrow> path \<Rightarrow> path list" where
  "resolve_in_path f file = resolve_in_dirs f file (env_paths f)"

definition resolve_in_path_or_cwd :: "fs \<Rightarrow> path \<Rightarrow> path list" where
  "resolve_in_path_or_cwd f file =
     resolve_in_dirs f file (env_paths f @ (case fs_cwd f of None \<Rightarrow> [] | Some c \<Rightarrow> [c]))"

text \<open>\<open>Source::as_bytes\<close>: the file that the search finds first, or the only layer.\<close>

fun as_bytes :: "fs \<Rightarrow> source \<Rightarrow> (string, string) result" where
  "as_bytes f (File p) =
     (case resolve_in_path_or_cwd f p of [] \<Rightarrow> Err ''module not found'' | q # _ \<Rightarrow> fs_read f q)"
| "as_bytes f (Oci [m]) = Ok (wl_layer m)"
| "as_bytes f (Oci ms) = Err ''only a single module is supported when using images with OCI layers''"

text \<open>\<open>read_exact\<close> of four bytes.\<close>

definition read_exact4 :: "fs \<Rightarrow> path \<Rightarrow> (string, string) result" where
  "read_exact4 f p =
     and_then (fs_read f p) (\<lambda>b. if length b < 4 then Err ''failed to fill whole buffer'' else Ok (take 4 b))"

definition wasm_magic :: string where
  "wasm_magic = [CHR 0x00, CHR ''a'', CHR ''s'', CHR ''m'']"

text \<open>The default \<open>Sandbox::can_handle\<close>; the file that is opened is the path as given, not the
  one the search found.\<close>

definition can_handle :: "fs \<Rightarrow> wasi_context \<Rightarrow> (unit, string) result" where
  "can_handle f ctx =
     (case source (entrypoint_of ctx) of
        Oci _ \<Rightarrow> Ok ()
      | File p \<Rightarrow>
          and_then (ok_or ''module not found''
                     (case resolve_in_path_or_cwd f p of [] \<Rightarrow> None | q # _ \<Rightarrow> Some q)) (\<lambda>_.
          and_then (read_exact4 f p) (\<lambda>buffer.
            if buffer \<noteq> wasm_magic then fs_parse_wat f p else Ok ())))"

section \<open>The executor\<close>

definition executable_mode :: "u32 \<Rightarrow> bool" where
  "executable_mode mode \<longleftrightarrow> and mode 1 \<noteq> 0"

definition find_executable :: "fs \<Rightarrow> path list \<Rightarrow> path option" where
  "find_executable f ps =
     find (\<lambda>p. case fs_mode f p of None \<Rightarrow> False | Some m \<Rightarrow> executable_mode m) ps"

definition is_linux_container :: "fs \<Rightarrow> wasi_context \<Rightarrow> (unit, string) result" where
  "is_linux_container f ctx =
     (case source (entrypoint_of ctx) of
        Oci _ \<Rightarrow> Err ''the entry point contains wasm layers''
      | File _ \<Rightarrow>
          and_then (ok_or ''no entrypoint provided'' (arg0 (entrypoint_of ctx))) (\<lambda>a.
          and_then (ok_or ''entrypoint not found'' (find_executable f (resolve_in_path f a))) (\<lambda>exe.
          and_then (read_exact4 f exe) (\<lambda>buffer.
            if buffer = [CHR 0x7F, CHR ''E'', CHR ''L'', CHR ''F''] then Ok ()
            else if take 2 buffer = ''#!'' then Ok ()
            else Err ''not a valid script or elf file''))))"

datatype executor_type = Wasm | Linux | CantHandle

record executor =
  ex_ty :: "executor_type option"
  ex_layers :: "wasm_layer list"

definition executor_new :: "wasm_layer list \<Rightarrow> executor" where
  "executor_new layers = \<lparr>ex_ty = None, ex_layers = layers\<rparr>"

definition executor_ctx :: "executor \<Rightarrow> process option \<Rightarrow> wasi_context" where
  "executor_ctx ex spec = \<lparr>ctx_process = spec, wasm_layers = ex_layers ex\<rparr>"

text \<open>\<open>ty\<close> decides once, by the first spec; \<open>handles\<close> is the \<open>can_handle\<close> of the engine.\<close>

definition executor_ty ::
  "fs \<Rightarrow> (wasi_context \<Rightarrow> (unit, string) result) \<Rightarrow> executor \<Rightarrow> process option \<Rightarrow> executor \<times> executor_type" where
  "executor_ty f handles ex spec =
     (case ex_ty ex of
        Some t \<Rightarrow> (ex, t)
      | None \<Rightarrow>
          (let ctx = executor_ctx ex spec;
               t = (if is_ok (is_linux_container f ctx) then Linux
                    else if is_ok (handles ctx) then Wasm else CantHandle)
           in (ex\<lparr>ex_ty := Some t\<rparr>, t)))"

definition validate ::
  "fs \<Rightarrow> (wasi_context \<Rightarrow> (unit, string) result) \<Rightarrow> string \<Rightarrow> executor \<Rightarrow> process option \<Rightarrow>
   executor \<times> (unit, string) result" where
  "validate f handles shim ex spec =
     (case executor_ty f handles ex spec of
        (ex', t) \<Rightarrow> (ex', if t = CantHandle then Err shim else Ok ()))"

text \<open>\<open>exec\<close> hands over to youki's default executor, or runs the engine and ends the process.\<close>

datatype exec_outcome = ExecCantHandle string | ExecDefault | ProcessExit i32 | ProcessPanic string

definition exec ::
  "fs \<Rightarrow> (wasi_context \<Rightarrow> (unit, string) result) \<Rightarrow> (wasi_context \<Rightarrow> (i32, string) result) \<Rightarrow> string \<Rightarrow>
   executor \<Rightarrow> process option \<Rightarrow> executor \<times> exec_outcome" where
  "exec f handles run_wasi shim ex spec =
     (case executor_ty f handles ex spec of
        (ex', CantHandle) \<Rightarrow> (ex', ExecCantHandle shim)
      | (ex', Linux) \<Rightarrow> (ex', ExecDefault)
      | (ex', Wasm) \<Rightarrow>
          (ex', case run_wasi (executor_ctx ex' spec) of
                  Ok code \<Rightarrow> ProcessExit code | Err _ \<Rightarrow> ProcessExit 137 | Panic m \<Rightarrow> ProcessPanic m))"

section \<open>Facts\<close>

lemma entrypoint_args_Nil:
  "args ctx = [] \<Longrightarrow> entrypoint_of ctx =
     \<lparr>func = ''_start'', name = None, arg0 = None,
      source = (if wasm_layers ctx = [] then File [] else Oci (wasm_layers ctx))\<rparr>"
  by (simp add: entrypoint_of_def split_entrypoint_def Let_def file_stem_def file_name_def components_def
      is_absolute_def)

lemma entrypoint_args_Cons:
  "args ctx = a # as \<Longrightarrow> split_entrypoint a = (p, f) \<Longrightarrow> entrypoint_of ctx =
     \<lparr>func = f, name = file_stem p, arg0 = Some a,
      source = (if wasm_layers ctx = [] then File p else Oci (wasm_layers ctx))\<rparr>"
  by (simp add: entrypoint_of_def Let_def)

lemma split_entrypoint_hash:
  "CHR ''#'' \<notin> set p \<Longrightarrow> split_entrypoint (p @ ''#'' @ f) = (p, f)"
  using split_once_Some [of "CHR ''#''" "p @ ''#'' @ f" p f] by (simp add: split_entrypoint_def)

lemma split_entrypoint_plain: "CHR ''#'' \<notin> set p \<Longrightarrow> split_entrypoint p = (p, ''_start'')"
  using split_once_None [of "CHR ''#''" p] by (simp add: split_entrypoint_def)

lemma set_filter_map: "p \<in> set (filter_map g xs) \<longleftrightarrow> (\<exists>x \<in> set xs. g x = Some p)"
  by (force simp: filter_map_def List.map_filter_def)

text \<open>The entrypoint of an image is read as documented: \<open>path#func\<close> names the function after
  the first \<open>#\<close>, without a \<open>#\<close> it is \<open>_start\<close>; the module is the path, unless the image has
  wasm layers, which are then used whatever the path is; \<open>arg0\<close> stays the argument as written
  and the module name is the file stem of the path.\<close>

theorem entrypoint_parsed:
  assumes "CHR ''#'' \<notin> set p"
  shows "(args ctx = (p @ ''#'' @ f) # as \<longrightarrow>
      entrypoint_of ctx = \<lparr>func = f, name = file_stem p, arg0 = Some (p @ ''#'' @ f),
        source = (if wasm_layers ctx = [] then File p else Oci (wasm_layers ctx))\<rparr>)
    \<and> (args ctx = p # as \<longrightarrow>
      entrypoint_of ctx = \<lparr>func = ''_start'', name = file_stem p, arg0 = Some p,
        source = (if wasm_layers ctx = [] then File p else Oci (wasm_layers ctx))\<rparr>)"
  using entrypoint_args_Cons [OF _ split_entrypoint_hash [OF assms]]
    entrypoint_args_Cons [OF _ split_entrypoint_plain [OF assms]]
  by simp

theorem entrypoint_parsed_witness:
  "entrypoint_of \<lparr>ctx_process = Some \<lparr>pr_args = Some [''/app/app.wasm'' @ ''#'' @ ''entry''], pr_env = None\<rparr>,
                  wasm_layers = []\<rparr>
   = \<lparr>func = ''entry'', name = Some ''app'', arg0 = Some ''/app/app.wasm#entry'', source = File ''/app/app.wasm''\<rparr>"
proof -
  let ?ctx = "\<lparr>ctx_process = Some \<lparr>pr_args = Some [''/app/app.wasm'' @ ''#'' @ ''entry''], pr_env = None\<rparr>,
                  wasm_layers = []\<rparr>"
  have "args ?ctx = (''/app/app.wasm'' @ ''#'' @ ''entry'') # []" by (simp add: args_def)
  moreover have "file_stem ''/app/app.wasm'' = Some ''app''"
    by (simp add: file_stem_def file_name_def components_def is_absolute_def rsplit_dot_def)
  ultimately show ?thesis
    using entrypoint_parsed [of "''/app/app.wasm''" ?ctx "''entry''" "[]"] by simp
qed


definition demo_fs :: fs where
  "demo_fs =
     \<lparr>fs_cwd = Some ''/work'', fs_path_var = Some ''/bin'', fs_canonicalize = (\<lambda>p. Some p),
      fs_is_dir = (\<lambda>p. True), fs_is_file = (\<lambda>p. p = ''/bin/app.wasm''), fs_mode = (\<lambda>p. Some 0x1ED),
      fs_read = (\<lambda>p. if p = ''/bin/app.wasm'' then Ok (wasm_magic @ ''x'') else Err ''not found''),
      fs_parse_wat = (\<lambda>p. Err ''not found'')\<rparr>"


text \<open>\<open>can_handle\<close> and the engine disagree about modules in \<open>PATH\<close>: \<open>as_bytes\<close> loads the file
  the search found, but \<open>can_handle\<close> opens the path as written, so a valid module that is only
  reachable through \<open>PATH\<close> is refused.\<close>

theorem can_handle_refuses_module_in_path:
  "\<exists>f ctx bytes. source (entrypoint_of ctx) = File ''app.wasm''
     \<and> as_bytes f (source (entrypoint_of ctx)) = Ok bytes \<and> take 4 bytes = wasm_magic
     \<and> is_err (can_handle f ctx)"
proof (intro exI)
  let ?ctx = "\<lparr>ctx_process = Some \<lparr>pr_args = Some [''app.wasm''], pr_env = None\<rparr>, wasm_layers = []\<rparr>"
  have src: "source (entrypoint_of ?ctx) = File ''app.wasm''"
    by (simp add: entrypoint_of_def split_entrypoint_def args_def Let_def)
  have res: "resolve_in_path_or_cwd demo_fs ''app.wasm'' = [''/bin/app.wasm'']"
    by (simp add: resolve_in_path_or_cwd_def resolve_in_dirs_def filter_map_def List.map_filter_def
        existing_file_def existing_dir_def has_separator_def components_def is_absolute_def env_paths_def
        path_join_def demo_fs_def)
  have "fs_read demo_fs ''app.wasm'' = Err ''not found''"
    and "fs_read demo_fs ''/bin/app.wasm'' = Ok (wasm_magic @ ''x'')"
    by (simp_all add: demo_fs_def)
  with src res show "source (entrypoint_of ?ctx) = File ''app.wasm''
     \<and> as_bytes demo_fs (source (entrypoint_of ?ctx)) = Ok (wasm_magic @ ''x'')
     \<and> take 4 (wasm_magic @ ''x'') = wasm_magic \<and> is_err (can_handle demo_fs ?ctx)"
    by (simp add: can_handle_def read_exact4_def wasm_magic_def)
qed

section \<open>The executor decides once\<close>

lemma executor_ty_again:
  "executor_ty f h ex spec = (ex', t) \<Longrightarrow> executor_ty f' h' ex' spec' = (ex', t)"
  by (auto simp: executor_ty_def Let_def split: option.splits)

lemma executor_ty_layers: "executor_ty f h ex spec = (ex', t) \<Longrightarrow> ex_layers ex' = ex_layers ex"
  by (auto simp: executor_ty_def Let_def split: option.splits)

text \<open>C21: The decision is made when the container is validated and is final: whatever the file
  system or the spec are when it is executed, a container that was accepted is executed the way it
  was classified then (as Linux process, or by the engine, whose failure gives exit status 137), and one
  that was refused is refused. A container with wasm layers never runs as a Linux process.\<close>

theorem executor_decides_once:
  assumes "validate f handles shim (executor_new layers) spec = (ex, r)"
    and "exec f' handles' run_wasi shim ex spec' = (ex', out)"
  shows "(is_err r \<longleftrightarrow> out = ExecCantHandle shim)
    \<and> (out = ExecDefault \<longleftrightarrow> is_ok (is_linux_container f \<lparr>ctx_process = spec, wasm_layers = layers\<rparr>))
    \<and> (layers \<noteq> [] \<longrightarrow> out \<noteq> ExecDefault)
    \<and> (is_err (run_wasi \<lparr>ctx_process = spec', wasm_layers = layers\<rparr>) \<and> ex_ty ex = Some Wasm
         \<longrightarrow> out = ProcessExit 137)"
proof -
  let ?ctx = "\<lparr>ctx_process = spec, wasm_layers = layers\<rparr>"
  define t where "t = (if is_ok (is_linux_container f ?ctx) then Linux
      else if is_ok (handles ?ctx) then Wasm else CantHandle)"
  have ty: "executor_ty f handles (executor_new layers) spec = (\<lparr>ex_ty = Some t, ex_layers = layers\<rparr>, t)"
    by (simp add: executor_ty_def executor_new_def executor_ctx_def Let_def t_def)
  have ex: "ex = \<lparr>ex_ty = Some t, ex_layers = layers\<rparr>" and r: "r = (if t = CantHandle then Err shim else Ok ())"
    using assms(1) ty by (auto simp: validate_def)
  have out: "out = (case t of CantHandle \<Rightarrow> ExecCantHandle shim | Linux \<Rightarrow> ExecDefault
      | Wasm \<Rightarrow> (case run_wasi \<lparr>ctx_process = spec', wasm_layers = layers\<rparr> of
                  Ok code \<Rightarrow> ProcessExit code | Err _ \<Rightarrow> ProcessExit 137 | Panic m \<Rightarrow> ProcessPanic m))"
    using assms(2) executor_ty_again [OF ty, of f' handles' spec'] ex
    by (cases t) (auto simp: exec_def executor_ctx_def)
  have "layers \<noteq> [] \<Longrightarrow> \<not> is_ok (is_linux_container f ?ctx)"
    by (simp add: is_linux_container_def entrypoint_of_def Let_def split: prod.splits)
  moreover have "t = Linux \<longleftrightarrow> is_ok (is_linux_container f ?ctx)" by (simp add: t_def)
  ultimately show ?thesis
    using out r ex
    by (cases t; cases "run_wasi \<lparr>ctx_process = spec', wasm_layers = layers\<rparr>") auto
qed

theorem executor_decides_once_witness:
  "\<exists>ex ex'. validate demo_fs (\<lambda>_. Ok ()) ''wasmtime'' (executor_new [\<lparr>wl_config = undefined, wl_layer = []\<rparr>]) None
       = (ex, Ok ())
     \<and> exec demo_fs (\<lambda>_. Ok ()) (\<lambda>_. Err ''trap'') ''wasmtime'' ex None = (ex', ProcessExit 137)"
proof -
  let ?layers = "[\<lparr>wl_config = undefined, wl_layer = []\<rparr>]"
  obtain ex where v: "validate demo_fs (\<lambda>_. Ok ()) ''wasmtime'' (executor_new ?layers) None = (ex, Ok ())"
    and w: "ex_ty ex = Some Wasm"
    by (simp add: validate_def executor_ty_def executor_new_def executor_ctx_def is_linux_container_def
        entrypoint_of_def args_def split_entrypoint_def Let_def)
  obtain ex' out where e: "exec demo_fs (\<lambda>_. Ok ()) (\<lambda>_. Err ''trap'') ''wasmtime'' ex None = (ex', out)"
    by fastforce
  from executor_decides_once [OF v e] w have "out = ProcessExit 137" by simp
  with v e show ?thesis by blast
qed

end
