(* ===== verification/Content_Client.thy ===== *)
theory Content_Client
  imports Errors Sandbox_Context
begin

text \<open>
  The client of containerd's content store (\<open>containerd-shim-wasm/src/containerd/client.rs\<close> and
  \<open>lease.rs\<close>): reading the wasm layers of an image, precompiling them and caching the result.

  containerd itself, the OCI parsers and SHA-256 are outside: they are the fields of
  \<open>containerd\<close>, over a world \<open>'w\<close>. The compiler of the engine is an argument, too; it may
  change the world.
\<close>

section \<open>The interface of containerd\<close>

datatype write_action = Stat | Write | Commit

record write_request =
  wq_action :: write_action
  wq_ref :: string
  wq_total :: int
  wq_offset :: int
  wq_expected :: string
  wq_labels :: "(string \<times> string) list"
  wq_data :: string

record write_response =
  wp_offset :: int
  wp_digest :: string

datatype write_error = WriteAlreadyExists | WriteOther string

record info =
  in_digest :: string
  in_labels :: "(string \<times> string) list"

record manifest =
  mf_config :: descriptor
  mf_layers :: "descriptor list"

record 'w containerd =
  cd_lease_create :: "'w \<Rightarrow> string \<Rightarrow> 'w \<times> (string option, string) result"
  cd_lease_delete :: "'w \<Rightarrow> string \<Rightarrow> 'w \<times> (unit, string) result"
  cd_write :: "'w \<Rightarrow> string \<Rightarrow> write_request \<Rightarrow> 'w \<times> (unit, write_error) result"
  cd_send :: "'w \<Rightarrow> write_request \<Rightarrow> 'w \<times> (unit, string) result"
  cd_message :: "'w \<Rightarrow> 'w \<times> (write_response option, string) result"
  cd_read :: "'w \<Rightarrow> string \<Rightarrow> ((string, string) result list, string) result"
  cd_info :: "'w \<Rightarrow> string \<Rightarrow> (info option, string) result"
  cd_update :: "'w \<Rightarrow> info \<Rightarrow> 'w \<times> (info option, string) result"
  cd_delete :: "'w \<Rightarrow> string \<Rightarrow> 'w \<times> (unit, string) result"
  cd_image :: "'w \<Rightarrow> string \<Rightarrow> (string option option, string) result"
  cd_container :: "'w \<Rightarrow> string \<Rightarrow> (string option, string) result"
  cd_parse_manifest :: "string \<Rightarrow> (manifest, string) result"
  cd_parse_platform :: "string \<Rightarrow> (string, string) result"
  cd_parse_digest :: "string \<Rightarrow> (string, string) result"
  cd_sha256 :: "string \<Rightarrow> string"

text \<open>\<open>Client\<close> and \<open>Client::connect\<close>: the channel of \<open>containerd_client::connect\<close> and the namespace that every request is made in.\<close>

record 'h content_client =
  ct_inner :: 'h
  ct_namespace :: string

definition content_connect ::
  "(path \<Rightarrow> ('h, string) result) \<Rightarrow> path \<Rightarrow> string \<Rightarrow> 'h content_client sandbox_result" where
  "content_connect open_channel address ns =
     and_then (map_err Containerd (open_channel address)) (\<lambda>inner. Ok \<lparr>ct_inner = inner, ct_namespace = ns\<rparr>)"

section \<open>Reading\<close>

text \<open>\<open>try_concat\<close> over the messages of the stream.\<close>

fun try_concat :: "(string, string) result list \<Rightarrow> (string, string) result" where
  "try_concat [] = Ok []"
| "try_concat (m # ms) = and_then m (\<lambda>d. and_then (try_concat ms) (\<lambda>rest. Ok (d @ rest)))"

definition read_content :: "'w containerd \<Rightarrow> 'w \<Rightarrow> string \<Rightarrow> string sandbox_result" where
  "read_content cd w dig = map_err Containerd (and_then (cd_read cd w dig) try_concat)"

definition delete_content :: "'w containerd \<Rightarrow> 'w \<Rightarrow> string \<Rightarrow> 'w \<times> unit sandbox_result" where
  "delete_content cd w dig = (case cd_delete cd w dig of (w', r) \<Rightarrow> (w', map_err Containerd r))"

definition get_info :: "'w containerd \<Rightarrow> 'w \<Rightarrow> string \<Rightarrow> info sandbox_result" where
  "get_info cd w dig =
     and_then (map_err Containerd (cd_info cd w dig))
       (ok_or (Containerd (''failed to get info for content '' @ dig)))"

definition update_info :: "'w containerd \<Rightarrow> 'w \<Rightarrow> info \<Rightarrow> 'w \<times> info sandbox_result" where
  "update_info cd w i =
     (case cd_update cd w i of
        (w', r) \<Rightarrow> (w', and_then (map_err Containerd r)
                          (ok_or (Containerd (''failed to update info for content '' @ in_digest i)))))"

definition get_image :: "'w containerd \<Rightarrow> 'w \<Rightarrow> string \<Rightarrow> string option sandbox_result" where
  "get_image cd w image_name =
     and_then (map_err Containerd (cd_image cd w image_name))
       (ok_or (Containerd (''failed to get image for image '' @ image_name)))"

definition extract_image_content_sha :: "string \<Rightarrow> string option \<Rightarrow> string sandbox_result" where
  "extract_image_content_sha image_name target =
     ok_or (Containerd (''failed to get image content sha for image '' @ image_name)) target"

definition get_container :: "'w containerd \<Rightarrow> 'w \<Rightarrow> string \<Rightarrow> string sandbox_result" where
  "get_container cd w cid =
     and_then (map_err Containerd (cd_container cd w cid))
       (ok_or (Containerd (''failed to get image for container '' @ cid)))"

definition get_image_manifest_and_digest ::
  "'w containerd \<Rightarrow> 'w \<Rightarrow> string \<Rightarrow> (manifest \<times> string) sandbox_result" where
  "get_image_manifest_and_digest cd w image_name =
     and_then (get_image cd w image_name) (\<lambda>target.
     and_then (extract_image_content_sha image_name target) (\<lambda>sha.
     and_then (map_err sandbox_error.Oci (cd_parse_digest cd sha)) (\<lambda>image_digest.
     and_then (read_content cd w image_digest) (\<lambda>bytes.
     and_then (map_err sandbox_error.Oci (cd_parse_manifest cd bytes)) (\<lambda>manifest.
       Ok (manifest, image_digest))))))"

definition read_original_layer :: "'w containerd \<Rightarrow> 'w \<Rightarrow> descriptor \<Rightarrow> wasm_layer sandbox_result" where
  "read_original_layer cd w config =
     and_then (read_content cd w (digest config)) (\<lambda>m. Ok \<lparr>wl_config = config, wl_layer = m\<rparr>)"

definition read_precompiled_layer ::
  "'w containerd \<Rightarrow> 'w \<Rightarrow> descriptor \<Rightarrow> string \<Rightarrow> wasm_layer sandbox_result" where
  "read_precompiled_layer cd w config precompile_id =
     and_then (get_info cd w (digest config)) (\<lambda>info.
     and_then (ok_or (NotFound ''precompiled layer not found'') (map_of (in_labels info) precompile_id)) (\<lambda>label.
     and_then (map_err sandbox_error.Oci (cd_parse_digest cd label)) (\<lambda>dig.
     and_then (read_content cd w dig) (\<lambda>m. Ok \<lparr>wl_config = config, wl_layer = m\<rparr>))))"

section \<open>Writing\<close>

definition MAX_WRITE_CHUNK_SIZE_BYTES :: int where
  "MAX_WRITE_CHUNK_SIZE_BYTES = 1024 * 1024 * 15"

text \<open>\<open>..Default::default()\<close>.\<close>

definition default_request :: "write_action \<Rightarrow> write_request" where
  "default_request a =
     \<lparr>wq_action = a, wq_ref = [], wq_total = 0, wq_offset = 0, wq_expected = [], wq_labels = [], wq_data = []\<rparr>"

definition send_message ::
  "'w containerd \<Rightarrow> 'w \<Rightarrow> write_request \<Rightarrow> string \<Rightarrow> 'w \<times> write_response sandbox_result" where
  "send_message cd w req dig =
     (case cd_send cd w req of
        (w, r) \<Rightarrow> st_then (w, map_err (\<lambda>e. Containerd (''commit request error: '' @ e)) r) (\<lambda>w _.
          (case cd_message cd w of
             (w, m) \<Rightarrow> (w, and_then (map_err (\<lambda>e. Containerd (''response stream error: '' @ e)) m)
               (ok_or (Containerd (''no response received after write content request for '' @ dig)))))))"

definition write_chunk :: "string \<Rightarrow> int \<Rightarrow> int \<Rightarrow> write_request" where
  "write_chunk data offset end' =
     (default_request Write)\<lparr>wq_offset := offset, wq_data := take (nat end' - nat offset) (drop (nat offset) data)\<rparr>"

text \<open>The loop over the chunks. The first offset comes from containerd; a negative one makes the
  slice panic.\<close>

function write_chunks ::
  "'w containerd \<Rightarrow> string \<Rightarrow> string \<Rightarrow> int \<Rightarrow> 'w \<Rightarrow> 'w \<times> unit sandbox_result" where
  "write_chunks cd data expected offset w =
     (if offset < int (length data) then
        (let end' = min (offset + MAX_WRITE_CHUNK_SIZE_BYTES) (int (length data))
         in if offset < 0 then (w, Panic ''slice index starts after its end'')
            else st_then (send_message cd w (write_chunk data offset end') expected) (\<lambda>w _.
                   write_chunks cd data expected end' w))
      else (w, Ok ()))"
  by pat_completeness auto
termination
  by (relation "measure (\<lambda>(cd, data, expected, offset, w). nat (int (length data) - offset))")
    (auto simp: MAX_WRITE_CHUNK_SIZE_BYTES_def)

declare write_chunks.simps [simp del]

definition lease :: "'w containerd \<Rightarrow> 'w \<Rightarrow> string \<Rightarrow> 'w \<times> string sandbox_result" where
  "lease cd w reference =
     (case cd_lease_create cd w reference of
        (w, r) \<Rightarrow> (w, and_then (map_err Containerd r)
                        (ok_or (Containerd (''unable to create lease for  '' @ reference)))))"

text \<open>Releasing a lease, or dropping its guard: the result is not used.\<close>

definition drop_lease :: "'w containerd \<Rightarrow> 'w \<Rightarrow> string \<Rightarrow> 'w" where
  "drop_lease cd w lid = fst (cd_lease_delete cd w lid)"

text \<open>\<open>WriteContent::release\<close> hands the result on.\<close>

definition release_content :: "'w containerd \<Rightarrow> 'w \<Rightarrow> string \<times> string \<Rightarrow> 'w \<times> (unit, string) result" where
  "release_content cd w wc =
     (case cd_lease_delete cd w (fst wc) of (w', r) \<Rightarrow> (w', map_err (\<lambda>_. ''Failed to remove lease'') r))"

text \<open>The block \<open>'digest\<close> of \<open>save_content\<close>.\<close>

definition save_digest ::
  "'w containerd \<Rightarrow> 'w \<Rightarrow> string \<Rightarrow> string \<Rightarrow> string \<Rightarrow> (string \<times> string) list \<Rightarrow> string \<Rightarrow>
   'w \<times> string sandbox_result" where
  "save_digest cd w lid reference expected labels data =
     (case cd_write cd w lid ((default_request Stat)\<lparr>wq_ref := reference, wq_expected := expected\<rparr>) of
        (w, Err WriteAlreadyExists) \<Rightarrow> (w, Ok expected)
      | (w, Err (WriteOther e)) \<Rightarrow> (w, Err (Containerd e))
      | (w, Panic m) \<Rightarrow> (w, Panic m)
      | (w, Ok _) \<Rightarrow>
          (case cd_message cd w of
             (w, m) \<Rightarrow>
               st_then (w, and_then (map_err Containerd m)
                 (ok_or (Containerd (''no response received after write request for '' @ expected)))) (\<lambda>w resp.
               st_then (write_chunks cd data expected (wp_offset resp) w) (\<lambda>w _.
               st_then (send_message cd w
                   ((default_request Commit)\<lparr>wq_total := int (length data), wq_offset := int (length data),
                      wq_expected := expected, wq_labels := labels\<rparr>) expected) (\<lambda>w resp.
                 if wp_offset resp \<noteq> int (length data)
                 then (w, Err (Containerd (''failed to write all bytes, expected '' @ show_nat (length data)
                              @ '' got '' @ show_int (wp_offset resp))))
                 else if wp_digest resp \<noteq> expected
                 then (w, Err (Containerd (''unexpected digest, expected '' @ expected @ '' got '' @ wp_digest resp)))
                 else (w, Ok (wp_digest resp)))))))"

definition save_content ::
  "'w containerd \<Rightarrow> 'w \<Rightarrow> string \<Rightarrow> string \<Rightarrow> (string \<times> string) list \<Rightarrow> 'w \<times> (string \<times> string) sandbox_result" where
  "save_content cd w data unique_id labels =
     (let expected = ''sha256:'' @ cd_sha256 cd data; reference = ''precompile-'' @ unique_id
      in st_then (lease cd w reference) (\<lambda>w lid.
           case save_digest cd w lid reference expected labels data of
             (w, Ok dig) \<Rightarrow> (w, Ok (lid, dig))
           | (w, Err e) \<Rightarrow> (drop_lease cd w lid, Err e)
           | (w, Panic m) \<Rightarrow> (drop_lease cd w lid, Panic m)))"

section \<open>Loading the modules of an image\<close>

definition PRECOMPILE_PREFIX :: string where
  "PRECOMPILE_PREFIX = ''runwasi.io/precompiled''"

text \<open>\<open>version\<close> is the 64-bit hash of the cache key.\<close>

definition precompile_label :: "string \<Rightarrow> u64 \<Rightarrow> string" where
  "precompile_label engine version = PRECOMPILE_PREFIX @ ''/'' @ engine @ ''/'' @ show_nat (unat version)"

definition is_wasm_layer :: "string \<Rightarrow> string list \<Rightarrow> bool" where
  "is_wasm_layer mt supported_layer_types \<longleftrightarrow> mt \<in> set supported_layer_types"

text \<open>\<open>Shim::supported_layers_types\<close> of an engine that does not override it.\<close>

definition supported_layers_types :: "string list" where
  "supported_layers_types =
     [''application/vnd.bytecodealliance.wasm.component.layer.v0+wasm'', ''application/wasm'']"

definition gc_label :: "nat \<Rightarrow> string" where
  "gc_label i = ''containerd.io/gc.ref.content.precompile.'' @ show_nat i"

record 'w compiler =
  co_cache_key :: u64
  co_compile :: "'w \<Rightarrow> wasm_layer list \<Rightarrow> 'w \<times> (string option list, string) result"

fun read_layers :: "(descriptor \<Rightarrow> wasm_layer sandbox_result) \<Rightarrow> descriptor list \<Rightarrow> wasm_layer list sandbox_result" where
  "read_layers f [] = Ok []"
| "read_layers f (c # cs) = and_then (f c) (\<lambda>l. and_then (read_layers f cs) (\<lambda>ls. Ok (l # ls)))"

text \<open>The loop that prefers the precompiled layers; the flag is \<open>needs_precompile\<close>.\<close>

fun read_cached_layers ::
  "'w containerd \<Rightarrow> 'w \<Rightarrow> string \<Rightarrow> bool \<Rightarrow> descriptor list \<Rightarrow> (bool \<times> wasm_layer list) sandbox_result" where
  "read_cached_layers cd w pid needs [] = Ok (needs, [])"
| "read_cached_layers cd w pid needs (c # cs) =
     (case read_precompiled_layer cd w c pid of
        Ok l \<Rightarrow> and_then (read_cached_layers cd w pid needs cs) (\<lambda>(n, ls). Ok (n, l # ls))
      | Err _ \<Rightarrow> and_then (read_original_layer cd w c) (\<lambda>l.
                 and_then (read_cached_layers cd w pid True cs) (\<lambda>(n, ls). Ok (n, l # ls)))
      | Panic m \<Rightarrow> Panic m)"

definition update_labels ::
  "'w containerd \<Rightarrow> 'w \<Rightarrow> string \<Rightarrow> string \<Rightarrow> nat \<Rightarrow> descriptor \<Rightarrow> string \<Rightarrow> 'w \<times> unit sandbox_result" where
  "update_labels cd w image_digest pid i config dig =
     st_then (w, get_info cd w (digest config)) (\<lambda>w original.
     st_then (update_info cd w (original\<lparr>in_labels :=
         AList.update (gc_label i) dig (AList.update pid dig (in_labels original))\<rparr>)) (\<lambda>w _.
     st_then (w, get_info cd w image_digest) (\<lambda>w image.
     st_then (update_info cd w (image\<lparr>in_labels :=
         AList.update pid ''true'' (AList.update (gc_label i) dig (in_labels image))\<rparr>)) (\<lambda>w _. (w, Ok ())))))"

text \<open>One compiled layer: save it, label it, release the lease (on an error the guard is dropped).\<close>

definition store_layer ::
  "'w containerd \<Rightarrow> 'w \<Rightarrow> string \<Rightarrow> string \<Rightarrow> nat \<Rightarrow> wasm_layer \<Rightarrow> string \<Rightarrow> 'w \<times> wasm_layer sandbox_result" where
  "store_layer cd w image_digest pid i l compiled =
     st_then (save_content cd w compiled pid [(pid @ ''/original'', digest (wl_config l))]) (\<lambda>w (lid, dig).
       case update_labels cd w image_digest pid i (wl_config l) dig of
         (w, Ok _) \<Rightarrow> (drop_lease cd w lid, Ok \<lparr>wl_config = wl_config l, wl_layer = compiled\<rparr>)
       | (w, Err e) \<Rightarrow> (drop_lease cd w lid, Err e)
       | (w, Panic m) \<Rightarrow> (drop_lease cd w lid, Panic m))"

fun store_layers ::
  "'w containerd \<Rightarrow> string \<Rightarrow> string \<Rightarrow> nat \<Rightarrow> (wasm_layer \<times> string option) list \<Rightarrow> 'w \<Rightarrow>
   'w \<times> wasm_layer list sandbox_result" where
  "store_layers cd image_digest pid i [] w = (w, Ok [])"
| "store_layers cd image_digest pid i ((l, None) # ls) w =
     st_then (store_layers cd image_digest pid (Suc i) ls w) (\<lambda>w rest. (w, Ok (l # rest)))"
| "store_layers cd image_digest pid i ((l, Some compiled) # ls) w =
     st_then (store_layer cd w image_digest pid i l compiled) (\<lambda>w l'.
     st_then (store_layers cd image_digest pid (Suc i) ls w) (\<lambda>w rest. (w, Ok (l' # rest))))"

definition precompile_layers ::
  "'w containerd \<Rightarrow> 'w compiler \<Rightarrow> 'w \<Rightarrow> string \<Rightarrow> string \<Rightarrow> wasm_layer list \<Rightarrow>
   'w \<times> wasm_layer list sandbox_result" where
  "precompile_layers cd co w image_digest pid layers =
     (case co_compile co w layers of
        (w, Err _) \<Rightarrow> (w, Ok layers)
      | (w, Panic m) \<Rightarrow> (w, Panic m)
      | (w, Ok compiled) \<Rightarrow>
          if length compiled \<noteq> length layers
          then (w, Err (FailedPrecondition ''precompile returned wrong number of layers''))
          else store_layers cd image_digest pid 0 (zip layers compiled) w)"

definition load_layers ::
  "'w containerd \<Rightarrow> 'w compiler option \<Rightarrow> string \<Rightarrow> 'w \<Rightarrow> string \<Rightarrow> descriptor list \<Rightarrow>
   'w \<times> wasm_layer list sandbox_result" where
  "load_layers cd compiler engine w image_digest configs =
     (case compiler of
        None \<Rightarrow> (w, read_layers (read_original_layer cd w) configs)
      | Some co \<Rightarrow>
          (let pid = precompile_label engine (co_cache_key co)
           in st_then (w, get_info cd w image_digest) (\<lambda>w image_info.
              st_then (w, read_cached_layers cd w pid (map_of (in_labels image_info) pid = None) configs)
                (\<lambda>w (needs, layers).
                  if needs then precompile_layers cd co w image_digest pid layers else (w, Ok layers)))))"

definition load_modules ::
  "'w containerd \<Rightarrow> 'w compiler option \<Rightarrow> string list \<Rightarrow> string \<Rightarrow> 'w \<Rightarrow> string \<Rightarrow>
   'w \<times> wasm_layer list sandbox_result" where
  "load_modules cd compiler supported engine w cid =
     st_then (w, get_container cd w cid) (\<lambda>w image.
     st_then (w, get_image_manifest_and_digest cd w image) (\<lambda>w (manifest, image_digest).
     st_then (w, read_content cd w (digest (mf_config manifest))) (\<lambda>w image_config.
     st_then (w, map_err Json (cd_parse_platform cd image_config)) (\<lambda>w arch.
       if arch \<noteq> ''wasm'' then (w, Ok [])
       else (let configs = filter (\<lambda>c. is_wasm_layer (media_type c) supported) (mf_layers manifest)
             in if configs = [] then (w, Ok [])
                else load_layers cd compiler engine w image_digest configs)))))"

section \<open>The layers are those of the manifest\<close>

lemma read_original_config: "read_original_layer cd w c = Ok l \<Longrightarrow> wl_config l = c"
  by (auto simp: read_original_layer_def res_simps)

lemma read_precompiled_config: "read_precompiled_layer cd w c pid = Ok l \<Longrightarrow> wl_config l = c"
  by (auto simp: read_precompiled_layer_def res_simps)

lemma read_layers_configs:
  "(\<And>c l. f c = Ok l \<Longrightarrow> wl_config l = c) \<Longrightarrow> read_layers f cs = Ok ls \<Longrightarrow> map wl_config ls = cs"
  by (induction cs arbitrary: ls) (auto simp: res_simps)

lemma read_cached_configs: "read_cached_layers cd w pid needs cs = Ok (n, ls) \<Longrightarrow> map wl_config ls = cs"
proof (induction cs arbitrary: needs n ls)
  case (Cons c cs)
  show ?case
  proof (cases "read_precompiled_layer cd w c pid")
    case (Ok l)
    then show ?thesis using Cons read_precompiled_config by (auto simp: res_simps)
  next
    case (Err e)
    then show ?thesis using Cons read_original_config by (auto simp: res_simps)
  next
    case (Panic m)
    then show ?thesis using Cons by simp
  qed
qed simp

lemma store_layer_config: "store_layer cd w d pid i l c = (w', Ok l') \<Longrightarrow> wl_config l' = wl_config l \<and> wl_layer l' = c"
proof -
  assume "store_layer cd w d pid i l c = (w', Ok l')"
  then obtain v lid dig where *: "(case update_labels cd v d pid i (wl_config l) dig of
         (w, Ok _) \<Rightarrow> (drop_lease cd w lid, Ok \<lparr>wl_config = wl_config l, wl_layer = c\<rparr>)
       | (w, Err e) \<Rightarrow> (drop_lease cd w lid, Err e)
       | (w, Panic m) \<Rightarrow> (drop_lease cd w lid, Panic m)) = (w', Ok l')"
    unfolding store_layer_def st_then_eq_Ok by auto
  obtain u r where "update_labels cd v d pid i (wl_config l) dig = (u, r)" by fastforce
  with * show ?thesis by (cases r) auto
qed

lemma store_layers_configs:
  "store_layers cd d pid i lcs w = (w', Ok ls) \<Longrightarrow>
     map wl_config ls = map (wl_config \<circ> fst) lcs
     \<and> map wl_layer ls = map (\<lambda>(l, c). case c of None \<Rightarrow> wl_layer l | Some b \<Rightarrow> b) lcs"
proof (induction cd d pid i lcs w arbitrary: w' ls rule: store_layers.induct)
  case (2 cd d pid i l lcs w)
  then show ?case by (auto simp: res_simps)
next
  case (3 cd d pid i l c lcs w)
  then obtain w1 l' rest where "store_layer cd w d pid i l c = (w1, Ok l')"
    and "store_layers cd d pid (Suc i) lcs w1 = (w', Ok rest)" and "ls = l' # rest"
    by (auto simp: res_simps)
  with "3.IH" show ?case using store_layer_config by fastforce
qed simp

lemma precompile_layers_configs:
  "precompile_layers cd co w d pid layers = (w', Ok ls) \<Longrightarrow> map wl_config ls = map wl_config layers"
  by (auto simp: precompile_layers_def split: prod.splits result.splits if_splits dest!: store_layers_configs)
    (metis comp_apply map_map map_fst_zip)

lemma load_layers_configs:
  "load_layers cd co engine w d cs = (w', Ok ls) \<Longrightarrow> map wl_config ls = cs"
proof (cases co)
  case None
  assume "load_layers cd co engine w d cs = (w', Ok ls)"
  with None show ?thesis
    using read_layers_configs [OF read_original_config] by (auto simp: load_layers_def)
next
  case (Some c)
  assume "load_layers cd co engine w d cs = (w', Ok ls)"
  with Some show ?thesis
    by (auto simp: load_layers_def Let_def res_simps split: if_splits
        dest!: precompile_layers_configs read_cached_configs)
qed

text \<open>C12: The layers the engine gets are the layers of the image manifest that have a supported
  media type, all of them, in manifest order, each with its own descriptor, whether they come from
  the cache, from the image or fresh from the compiler; and an image for another architecture
  gives none.\<close>

theorem load_modules_matches_manifest:
  assumes "load_modules cd co supported engine w cid = (w', Ok ls)"
  shows "\<exists>image manifest d bytes arch.
     get_container cd w cid = Ok image
     \<and> get_image_manifest_and_digest cd w image = Ok (manifest, d)
     \<and> read_content cd w (digest (mf_config manifest)) = Ok bytes
     \<and> cd_parse_platform cd bytes = Ok arch
     \<and> map wl_config ls =
         (if arch = ''wasm'' then filter (\<lambda>c. media_type c \<in> set supported) (mf_layers manifest) else [])"
  using assms
  by (auto simp: load_modules_def is_wasm_layer_def res_simps Let_def split: if_splits dest!: load_layers_configs)

section \<open>The cache\<close>

lemma show_nat_no_slash: "CHR ''/'' \<notin> set (show_nat n)"
proof
  assume "CHR ''/'' \<in> set (show_nat n)"
  then obtain d where "d < 10" and "CHR ''/'' = digit_char d" using set_show_nat [of n] by auto
  then have "char_digit (CHR ''/'') = Some d" by simp
  then show False by (simp add: char_digit_def)
qed

lemma split_last_eq:
  fixes c :: char
  assumes "a @ c # b = a' @ c # b'" and "c \<notin> set b" and "c \<notin> set b'"
  shows "a = a' \<and> b = b'"
proof -
  have "rev b @ c # rev a = rev b' @ c # rev a'"
    using arg_cong [OF assms(1), of rev] by simp
  then have "split_once c (rev b @ c # rev a) = Some (rev b, rev a)"
    and "split_once c (rev b @ c # rev a) = Some (rev b', rev a')"
    using assms(2,3) by (auto simp: split_once_Some)
  then show ?thesis by simp
qed

lemma precompile_label_inj:
  "precompile_label e v = precompile_label e' v' \<longleftrightarrow> e = e' \<and> v = v'"
proof
  assume "precompile_label e v = precompile_label e' v'"
  then have "e @ CHR ''/'' # show_nat (unat v) = e' @ CHR ''/'' # show_nat (unat v')"
    by (simp add: precompile_label_def)
  then have "e = e' \<and> show_nat (unat v) = show_nat (unat v')"
    by (rule split_last_eq) (rule show_nat_no_slash)+
  then show "e = e' \<and> v = v'" by (auto dest!: show_nat_inj intro: unsigned_word_eqI)
qed simp

text \<open>The label under which a precompiled layer is found is different for every engine name and
  every hash of the engine's cache key, also for names that contain a slash: no engine and no
  version is given another's machine code.\<close>

theorem precompile_label_injective:
  "precompile_label e v = precompile_label e' v' \<longleftrightarrow> e = e' \<and> v = v'"
  by (rule precompile_label_inj)

lemma read_cached_hit:
  assumes "\<forall>c \<in> set cs. \<exists>l. read_precompiled_layer cd w c pid = Ok l"
  shows "\<exists>ls. read_cached_layers cd w pid False cs = Ok (False, ls)
    \<and> list_all2 (\<lambda>c l. read_precompiled_layer cd w c pid = Ok l) cs ls"
  using assms by (induction cs) auto

text \<open>A cached image is not compiled again: if the image carries the label of this engine and
  every layer has readable precompiled content, then \<open>load_modules\<close> hands out exactly that
  content, does not call the compiler and changes nothing in containerd.\<close>

theorem cached_image_not_compiled:
  assumes "get_info cd w image_digest = Ok info"
    and "map_of (in_labels info) (precompile_label engine (co_cache_key co)) = Some x"
    and "\<forall>c \<in> set configs. \<exists>l. read_precompiled_layer cd w c (precompile_label engine (co_cache_key co)) = Ok l"
  shows "\<exists>ls. load_layers cd (Some co) engine w image_digest configs = (w, Ok ls)
    \<and> list_all2 (\<lambda>c l. read_precompiled_layer cd w c (precompile_label engine (co_cache_key co)) = Ok l) configs ls"
  using read_cached_hit [OF assms(3)] assms(1,2) by (auto simp: load_layers_def Let_def)

lemma read_cached_miss:
  assumes "\<forall>c \<in> set cs. is_err (read_precompiled_layer cd w c pid)"
    and "read_layers (read_original_layer cd w) cs = Ok ls"
  shows "read_cached_layers cd w pid True cs = Ok (True, ls)"
  using assms
proof (induction cs arbitrary: ls)
  case (Cons c cs)
  then show ?case by (cases "read_precompiled_layer cd w c pid") (auto simp: res_simps)
qed simp

lemma store_layers_None: "store_layers cd d pid i (map (\<lambda>l. (l, None)) ls) w = (w, Ok ls)"
  by (induction ls arbitrary: i) auto

text \<open>Layers that the compiler declines are compiled on every run: \<open>None\<close> is not remembered,
  the only change to the world is what the compiler itself did, so the next load finds the same
  state and calls it again, although the trait documents that \<open>compile\<close> is called only the first time a module is
  run.\<close>

theorem declined_layers_compiled_again:
  assumes "get_info cd w image_digest = Ok info"
    and "map_of (in_labels info) (precompile_label engine (co_cache_key co)) = None"
    and "\<forall>c \<in> set configs. is_err (read_precompiled_layer cd w c (precompile_label engine (co_cache_key co)))"
    and "read_layers (read_original_layer cd w) configs = Ok ls"
    and "co_compile co w ls = (w', Ok (map (\<lambda>_. None) ls))"
  shows "load_layers cd (Some co) engine w image_digest configs = (w', Ok ls)"
proof -
  have "zip ls (map (\<lambda>_. None :: string option) ls) = map (\<lambda>l. (l, None)) ls" by (induction ls) auto
  then show ?thesis
    using assms(1,2,5) read_cached_miss [OF assms(3,4)] store_layers_None [of cd image_digest _ 0 ls w']
    by (simp add: load_layers_def Let_def precompile_layers_def)
qed

section \<open>An example store\<close>

text \<open>One image with one layer; the world is the queue of replies to write requests and the number
  of compilations.\<close>

definition demo_layer :: descriptor where
  "demo_layer = \<lparr>media_type = ''application/wasm'', digest = ''sha256:l''\<rparr>"

definition demo_cd :: "(string \<times> string) list \<Rightarrow> (write_response list \<times> nat) containerd" where
  "demo_cd labels =
     \<lparr>cd_lease_create = (\<lambda>w r. (w, Ok (Some ''lease''))), cd_lease_delete = (\<lambda>w l. (w, Ok ())),
      cd_write = (\<lambda>w l q. (w, Ok ())), cd_send = (\<lambda>w q. (w, Ok ())),
      cd_message = (\<lambda>(rs, n). case rs of [] \<Rightarrow> ((rs, n), Ok None) | r # rs' \<Rightarrow> ((rs', n), Ok (Some r))),
      cd_read = (\<lambda>w d. Ok [Ok ''by'', Ok ''tes'']), cd_info = (\<lambda>w d. Ok (Some \<lparr>in_digest = d, in_labels = labels\<rparr>)),
      cd_update = (\<lambda>w i. (w, Ok (Some i))), cd_delete = (\<lambda>w d. (w, Ok ())), cd_image = (\<lambda>w n. Ok (Some (Some ''sha256:i''))),
      cd_container = (\<lambda>w c. Ok (Some ''img'')),
      cd_parse_manifest = (\<lambda>b. Ok \<lparr>mf_config = demo_layer, mf_layers =
         [demo_layer, \<lparr>media_type = ''text/plain'', digest = ''sha256:t''\<rparr>]\<rparr>),
      cd_parse_platform = (\<lambda>b. Ok ''wasm''), cd_parse_digest = (\<lambda>s. Ok s), cd_sha256 = (\<lambda>s. ''h'')\<rparr>"

definition demo_compiler :: "(write_response list \<times> nat) compiler" where
  "demo_compiler = \<lparr>co_cache_key = 1, co_compile = (\<lambda>(rs, n) ls. ((rs, Suc n), Ok (map (\<lambda>_. None) ls)))\<rparr>"

lemmas demo_cd_simps =
  demo_cd_def demo_compiler_def read_original_layer_def read_precompiled_layer_def read_content_def
  get_info_def demo_layer_def

theorem load_modules_matches_manifest_witness:
  "\<exists>w' ls. load_modules (demo_cd []) None [''application/wasm''] ''wasmtime'' ([], 0) ''c1'' = (w', Ok ls)
     \<and> map wl_config ls = [demo_layer]"
proof -
  obtain w' ls where l: "load_modules (demo_cd []) None [''application/wasm''] ''wasmtime'' ([], 0) ''c1'' = (w', Ok ls)"
    by (simp add: load_modules_def load_layers_def get_container_def get_image_manifest_and_digest_def get_image_def
        extract_image_content_sha_def is_wasm_layer_def demo_cd_simps)
  with load_modules_matches_manifest [OF l] show ?thesis
    by (auto simp: demo_cd_simps get_container_def get_image_manifest_and_digest_def get_image_def
        extract_image_content_sha_def)
qed

theorem cached_image_not_compiled_witness:
  "\<exists>ls. load_layers (demo_cd [(precompile_label ''wasmtime'' 1, ''sha256:p'')]) (Some demo_compiler) ''wasmtime''
       ([], 0) ''sha256:i'' [demo_layer] = (([], 0), Ok ls)"
proof -
  let ?cd = "demo_cd [(precompile_label ''wasmtime'' 1, ''sha256:p'')]"
  have k: "co_cache_key demo_compiler = 1" by (simp add: demo_compiler_def)
  have 1: "get_info ?cd ([], 0) ''sha256:i''
      = Ok \<lparr>in_digest = ''sha256:i'', in_labels = [(precompile_label ''wasmtime'' 1, ''sha256:p'')]\<rparr>"
    by (simp add: demo_cd_simps)
  have "\<exists>l. read_precompiled_layer ?cd ([], 0) demo_layer (precompile_label ''wasmtime'' 1) = Ok l"
    by (simp add: demo_cd_simps)
  then show ?thesis
    using cached_image_not_compiled [OF 1, of "''wasmtime''" demo_compiler "''sha256:p''" "[demo_layer]"]
    by (auto simp: k)
qed

theorem declined_layers_compiled_again_witness:
  "load_layers (demo_cd []) (Some demo_compiler) ''wasmtime'' ([], 0) ''sha256:i'' [demo_layer]
     = (([], 1), Ok [\<lparr>wl_config = demo_layer, wl_layer = ''bytes''\<rparr>])"
proof -
  have 1: "get_info (demo_cd []) ([], 0) ''sha256:i'' = Ok \<lparr>in_digest = ''sha256:i'', in_labels = []\<rparr>"
    by (simp add: demo_cd_simps)
  show ?thesis
    using declined_layers_compiled_again [OF 1, of "''wasmtime''" demo_compiler "[demo_layer]"
        "[\<lparr>wl_config = demo_layer, wl_layer = ''bytes''\<rparr>]" "([], 1)"]
    by (simp add: demo_cd_simps)
qed

end
