(* ===== verification/Wasmtime_Shim.thy ===== *)
theory Wasmtime_Shim
  imports Content_Client
begin

text \<open>
  The wasmtime shim: precompilation, the choice of what to run, signals and exit codes
  (\<open>containerd-shim-wasmtime/src/instance.rs\<close>) and the HTTP proxy
  (\<open>containerd-shim-wasmtime/src/http_proxy.rs\<close>).

  The wasmtime engine is outside: it is the record \<open>wt_engine\<close>, with types \<open>'m\<close> of modules and
  \<open>'k\<close> of components. An error is the \<open>I32Exit\<close> that a guest's \<open>proc_exit\<close> raises, or any
  other.
\<close>

section \<open>Exit codes\<close>

datatype wt_error = I32Exit i32 | WtError string

fun into_error_code :: "(i32, wt_error) result \<Rightarrow> (i32, wt_error) result" where
  "into_error_code (Ok c) = Ok c"
| "into_error_code (Err (I32Exit c)) = Ok c"
| "into_error_code (Err e) = Err e"
| "into_error_code (Panic m) = Panic m"

definition unit_into_error_code :: "(unit, wt_error) result \<Rightarrow> (i32, wt_error) result" where
  "unit_into_error_code r = into_error_code (and_then r (\<lambda>_. Ok 0))"

section \<open>Choosing what to run\<close>

datatype component_target = CommandTarget | HttpProxyTarget | CoreTarget string

fun export_target :: "string \<Rightarrow> component_target option" where
  "export_target nm =
     (if starts_with ''wasi:http/incoming-handler'' nm then Some HttpProxyTarget
      else if starts_with ''wasi:cli/run'' nm then Some CommandTarget else None)"

definition component_target_new :: "string list \<Rightarrow> string \<Rightarrow> component_target" where
  "component_target_new exports f =
     (case filter_map export_target exports of t # _ \<Rightarrow> t | [] \<Rightarrow> CoreTarget f)"

record ('m, 'k) wt_engine =
  we_is_component :: "string \<Rightarrow> bool"
  we_is_core_wasm :: "string \<Rightarrow> bool"
  we_detect_precompiled :: "string \<Rightarrow> wasm_binary_type option"
  we_precompile_module :: "string \<Rightarrow> (string, string) result"
  we_precompile_component :: "string \<Rightarrow> (string, string) result"
  we_module :: "string \<Rightarrow> ('m, wt_error) result"
  we_component :: "string \<Rightarrow> ('k, wt_error) result"
  we_deserialize_module :: "string \<Rightarrow> ('m, wt_error) result"
  we_deserialize_component :: "string \<Rightarrow> ('k, wt_error) result"
  we_instantiate_module :: "wasi_context \<Rightarrow> 'm \<Rightarrow> (unit, wt_error) result"
  we_call_module :: "wasi_context \<Rightarrow> 'm \<Rightarrow> string \<Rightarrow> (unit, wt_error) result option"
  we_exports :: "'k \<Rightarrow> string list"
  we_serve_http :: "wasi_context \<Rightarrow> 'k \<Rightarrow> (unit, wt_error) result"
  we_run_command :: "wasi_context \<Rightarrow> 'k \<Rightarrow> ((unit, unit) result, wt_error) result"
  we_instantiate_component :: "wasi_context \<Rightarrow> 'k \<Rightarrow> (unit, wt_error) result"
  we_call_component :: "wasi_context \<Rightarrow> 'k \<Rightarrow> string \<Rightarrow> (unit, wt_error) result option"

definition execute_module ::
  "('m, 'k) wt_engine \<Rightarrow> wasi_context \<Rightarrow> 'm \<Rightarrow> string \<Rightarrow> (i32, wt_error) result" where
  "execute_module e ctx m f =
     and_then (we_instantiate_module e ctx m) (\<lambda>_.
       case we_call_module e ctx m f of
         None \<Rightarrow> Err (WtError ''module does not have a WASI start function'')
       | Some r \<Rightarrow> unit_into_error_code r)"

definition execute_component_async ::
  "('m, 'k) wt_engine \<Rightarrow> wasi_context \<Rightarrow> 'k \<Rightarrow> string \<Rightarrow> (i32, wt_error) result" where
  "execute_component_async e ctx k f =
     (case component_target_new (we_exports e k) f of
        HttpProxyTarget \<Rightarrow> unit_into_error_code (we_serve_http e ctx k)
      | CommandTarget \<Rightarrow>
          and_then (we_run_command e ctx k) (\<lambda>r.
            unit_into_error_code
              (map_err (\<lambda>_. WtError ''failed to run component targeting `wasi:cli/command` world'') r))
      | CoreTarget g \<Rightarrow>
          and_then (we_instantiate_component e ctx k) (\<lambda>_.
            case we_call_component e ctx k g of
              None \<Rightarrow> Err (WtError (''component does not have exported function '' @ g))
            | Some r \<Rightarrow> unit_into_error_code r))"

definition SIGINT :: i32 where "SIGINT = 2"
definition SIGQUIT :: i32 where "SIGQUIT = 3"
definition SIGTERM :: i32 where "SIGTERM = 15"

text \<open>\<open>handle_signals\<close> on the signals that arrive, in their order: whether the cancellation token is set,
  and the result once there is one.\<close>

fun handle_signals :: "i32 list \<Rightarrow> bool \<times> i32 option" where
  "handle_signals [] = (False, None)"
| "handle_signals (sig # sigs) =
     (if sig = SIGINT then (True, (case sigs of [] \<Rightarrow> None | sig2 # _ \<Rightarrow> Some sig2))
      else (False, Some (128 + sig)))"

text \<open>\<open>execute_component\<close> races the component against \<open>handle_signals\<close>: \<open>won\<close> is the result of the
  signal handler if it was ready first. A module is not raced.\<close>

definition execute_component ::
  "('m, 'k) wt_engine \<Rightarrow> wasi_context \<Rightarrow> 'k \<Rightarrow> string \<Rightarrow> i32 option \<Rightarrow> (i32, wt_error) result" where
  "execute_component e ctx k f won =
     (case won of Some status \<Rightarrow> Ok status | None \<Rightarrow> execute_component_async e ctx k f)"

definition execute ::
  "('m, 'k) wt_engine \<Rightarrow> wasi_context \<Rightarrow> string \<Rightarrow> string \<Rightarrow> i32 option \<Rightarrow> (i32, wt_error) result" where
  "execute e ctx wasm f won =
     (case binary_type (we_is_component e) (we_is_core_wasm e) wasm of
        Some Module \<Rightarrow> and_then (we_module e wasm) (\<lambda>m. execute_module e ctx m f)
      | Some Component \<Rightarrow> and_then (we_component e wasm) (\<lambda>k. execute_component e ctx k f won)
      | None \<Rightarrow>
          (case we_detect_precompiled e wasm of
             Some Module \<Rightarrow> and_then (we_deserialize_module e wasm) (\<lambda>m. execute_module e ctx m f)
           | Some Component \<Rightarrow> and_then (we_deserialize_component e wasm) (\<lambda>k. execute_component e ctx k f won)
           | None \<Rightarrow> Err (WtError ''invalid precompiled module'')))"

definition run_wasi :: "('m, 'k) wt_engine \<Rightarrow> fs \<Rightarrow> wasi_context \<Rightarrow> i32 option \<Rightarrow> (i32, wt_error) result" where
  "run_wasi e f ctx won =
     and_then (map_err WtError (as_bytes f (source (entrypoint_of ctx)))) (\<lambda>wasm.
       into_error_code (execute e ctx wasm (func (entrypoint_of ctx)) won))"

section \<open>Precompiling\<close>

fun compile_layers :: "('m, 'k) wt_engine \<Rightarrow> wasm_layer list \<Rightarrow> (string option list, string) result" where
  "compile_layers e [] = Ok []"
| "compile_layers e (l # ls) =
     (if we_detect_precompiled e (wl_layer l) \<noteq> None
      then and_then (compile_layers e ls) (\<lambda>cs. Ok (None # cs))
      else (case binary_type (we_is_component e) (we_is_core_wasm e) (wl_layer l) of
              Some Module \<Rightarrow> and_then (we_precompile_module e (wl_layer l)) (\<lambda>c.
                and_then (compile_layers e ls) (\<lambda>cs. Ok (Some c # cs)))
            | Some Component \<Rightarrow> and_then (we_precompile_component e (wl_layer l)) (\<lambda>c.
                and_then (compile_layers e ls) (\<lambda>cs. Ok (Some c # cs)))
            | None \<Rightarrow> compile_layers e ls))"

definition wasmtime_compiler :: "('m, 'k) wt_engine \<Rightarrow> u64 \<Rightarrow> 'w compiler" where
  "wasmtime_compiler e key = \<lparr>co_cache_key = key, co_compile = (\<lambda>w ls. (w, compile_layers e ls))\<rparr>"

definition known_layer :: "('m, 'k) wt_engine \<Rightarrow> wasm_layer \<Rightarrow> bool" where
  "known_layer e l \<longleftrightarrow>
     we_detect_precompiled e (wl_layer l) \<noteq> None
     \<or> binary_type (we_is_component e) (we_is_core_wasm e) (wl_layer l) \<noteq> None"

section \<open>The HTTP proxy\<close>

definition env_pair :: "string \<Rightarrow> string \<times> string" where
  "env_pair v = (case split_once CHR ''='' v of Some kv \<Rightarrow> kv | None \<Rightarrow> (v, []))"

definition envs_from_ctx :: "wasi_context \<Rightarrow> (string \<times> string) list" where
  "envs_from_ctx ctx = map env_pair (envs ctx)"

definition env_map :: "(string \<times> string) list \<Rightarrow> (string \<times> string) list" where
  "env_map kvs = foldl (\<lambda>m (k, v). AList.update k v m) [] kvs"

record 'a proxy_config =
  px_addr :: 'a
  px_backlog :: u32
  px_env :: "(string \<times> string) list"

definition proxy_config :: "(string \<Rightarrow> 'a option) \<Rightarrow> 'a \<Rightarrow> wasi_context \<Rightarrow> 'a proxy_config" where
  "proxy_config parse_addr default_addr ctx =
     (let env = env_map (envs_from_ctx ctx);
          addr = (case Option.bind (map_of env ''WASMTIME_HTTP_PROXY_SOCKET_ADDR'') parse_addr of
                    Some a \<Rightarrow> a | None \<Rightarrow> default_addr);
          env1 = AList.delete ''WASMTIME_HTTP_PROXY_SOCKET_ADDR'' env;
          backlog = (case Option.bind (map_of env1 ''WASMTIME_HTTP_BACKLOG'') (parse_uint 32) of
                       Some n \<Rightarrow> of_nat n | None \<Rightarrow> 100);
          env2 = AList.delete ''WASMTIME_HTTP_BACKLOG'' env1
      in \<lparr>px_addr = addr, px_backlog = backlog, px_env = env2\<rparr>)"

definition request_env :: "(string \<times> string) list \<Rightarrow> u64 \<Rightarrow> (string \<times> string) list" where
  "request_env env req_id = env @ [(''REQUEST_ID'', show_nat (unat req_id))]"

text \<open>The server: the tasks it tracks (the open connections and the guest calls, both spawned on one
  \<open>TaskTracker\<close>), the counter of \<open>next_req_id\<close>, and where the loop is. \<open>Accept False\<close> is an accept
  error (the loop continues), \<open>Accept True\<close> a connection; a request comes in on an open
  connection and calls the guest unless its preparation fails; the loop sees the cancellation when
  it gets its turn.\<close>

datatype serve_phase = Serving | Draining | Done

record server =
  sv_phase :: serve_phase
  sv_cancelled :: bool
  sv_open :: "nat list"
  sv_guests :: "u64 list"
  sv_accepted :: nat
  sv_next_id :: u64
  sv_ids :: "u64 list"

datatype serve_label = Accept bool | Cancel | SeeCancel | Request nat bool | GuestReturns u64 | Finish nat | Drained

definition server_init :: server where
  "server_init = \<lparr>sv_phase = Serving, sv_cancelled = False, sv_open = [], sv_guests = [], sv_accepted = 0, sv_next_id = 0, sv_ids = []\<rparr>"

definition next_req_id :: "server \<Rightarrow> server \<times> u64" where
  "next_req_id s = (s\<lparr>sv_next_id := sv_next_id s + 1, sv_ids := sv_ids s @ [sv_next_id s]\<rparr>, sv_next_id s)"

definition start_request :: "server \<Rightarrow> bool \<Rightarrow> server" where
  "start_request s prepared =
     (case next_req_id s of (s, req_id) \<Rightarrow> if prepared then s\<lparr>sv_guests := sv_guests s @ [req_id]\<rparr> else s)"

fun serve_step :: "server \<Rightarrow> serve_label \<Rightarrow> server" where
  "serve_step s (Accept okay) =
     (if sv_phase s = Serving \<and> okay
      then s\<lparr>sv_open := sv_open s @ [sv_accepted s], sv_accepted := Suc (sv_accepted s)\<rparr> else s)"
| "serve_step s Cancel = s\<lparr>sv_cancelled := True\<rparr>"
| "serve_step s SeeCancel = (if sv_phase s = Serving \<and> sv_cancelled s then s\<lparr>sv_phase := Draining\<rparr> else s)"
| "serve_step s (Request c prepared) = (if c \<in> set (sv_open s) then start_request s prepared else s)"
| "serve_step s (GuestReturns g) = s\<lparr>sv_guests := remove1 g (sv_guests s)\<rparr>"
| "serve_step s (Finish c) = s\<lparr>sv_open := removeAll c (sv_open s)\<rparr>"
| "serve_step s Drained = (if sv_phase s = Draining \<and> sv_open s = [] \<and> sv_guests s = [] then s\<lparr>sv_phase := Done\<rparr> else s)"

interpretation serve: machine server_init serve_step .

text \<open>The end of \<open>handle_request\<close>: what arrived over the channel, and how the task that calls the
  guest ended.\<close>

definition handle_response ::
  "('r, string) result option \<Rightarrow> ((unit, string) result, string) result \<Rightarrow> ('r, string) result" where
  "handle_response received task =
     (case received of
        Some r \<Rightarrow> r
      | None \<Rightarrow>
          (case task of
             Ok (Ok _) \<Rightarrow> Panic ''if the receiver has an error, the task must have failed''
           | Ok (Err e) \<Rightarrow> Err (''guest never invoked `response-outparam::set` method: '' @ e)
           | Ok (Panic m) \<Rightarrow> Panic m
           | Err e \<Rightarrow> Err (''guest never invoked `response-outparam::set` method: '' @ e)
           | Panic m \<Rightarrow> Panic m))"

section \<open>Exit codes and signals\<close>

lemma into_error_code_idem: "into_error_code (into_error_code r) = into_error_code r"
  by (induction r rule: into_error_code.induct) auto

lemma into_error_code_not_exit: "into_error_code r \<noteq> Err (I32Exit c)"
  by (induction r rule: into_error_code.induct) auto

text \<open>C31: Exit codes of a wasm module: a start function that returns gives 0, \<open>proc_exit(c)\<close> gives
  \<open>c\<close>, any trap is an error (which the executor turns into 137), whether the module is run from
  source or from the precompiled cache, and a \<open>proc_exit\<close> never surfaces as an error.\<close>

theorem module_exit_codes:
  assumes "as_bytes f (source (entrypoint_of ctx)) = Ok wasm"
    and "binary_type (we_is_component e) (we_is_core_wasm e) wasm = Some Module \<and> we_module e wasm = Ok m
       \<or> binary_type (we_is_component e) (we_is_core_wasm e) wasm = None
         \<and> we_detect_precompiled e wasm = Some Module \<and> we_deserialize_module e wasm = Ok m"
    and "we_instantiate_module e ctx m = Ok ()"
    and "we_call_module e ctx m (func (entrypoint_of ctx)) = Some r"
  shows "(r = Ok () \<longrightarrow> run_wasi e f ctx won = Ok 0)
    \<and> (r = Err (I32Exit c) \<longrightarrow> run_wasi e f ctx won = Ok c)
    \<and> (r = Err (WtError t) \<longrightarrow> run_wasi e f ctx won = Err (WtError t))
    \<and> run_wasi e f ctx won \<noteq> Err (I32Exit c)"
  using assms
  by (auto simp: run_wasi_def execute_def execute_module_def unit_into_error_code_def into_error_code_not_exit)

definition demo_engine :: "(unit, unit) wt_engine" where
  "demo_engine =
     \<lparr>we_is_component = (\<lambda>b. False), we_is_core_wasm = (\<lambda>b. take 4 b = wasm_magic),
      we_detect_precompiled = (\<lambda>b. if take 3 b = ''ELF'' then Some Module else None),
      we_precompile_module = (\<lambda>b. Ok (''ELF'' @ b)), we_precompile_component = (\<lambda>b. Ok (''ELF'' @ b)),
      we_module = (\<lambda>b. Ok ()), we_component = (\<lambda>b. Ok ()), we_deserialize_module = (\<lambda>b. Ok ()),
      we_deserialize_component = (\<lambda>b. Ok ()), we_instantiate_module = (\<lambda>c m. Ok ()),
      we_call_module = (\<lambda>c m f. Some (Err (I32Exit 42))), we_exports = (\<lambda>k. []), we_serve_http = (\<lambda>c k. Ok ()),
      we_run_command = (\<lambda>c k. Ok (Ok ())), we_instantiate_component = (\<lambda>c k. Ok ()),
      we_call_component = (\<lambda>c k f. None)\<rparr>"

theorem module_exit_codes_witness:
  "run_wasi demo_engine demo_fs \<lparr>ctx_process = None, wasm_layers = [\<lparr>wl_config = demo_layer, wl_layer = wasm_magic\<rparr>]\<rparr> None
     = Ok 42"
proof -
  let ?ctx = "\<lparr>ctx_process = None, wasm_layers = [\<lparr>wl_config = demo_layer, wl_layer = wasm_magic\<rparr>]\<rparr>"
  have src: "as_bytes demo_fs (source (entrypoint_of ?ctx)) = Ok wasm_magic"
    by (simp add: entrypoint_of_def args_def split_entrypoint_def Let_def)
  show ?thesis
    using module_exit_codes [OF src, of demo_engine "()" "Err (I32Exit 42)" None 42 "[]"]
    by (simp add: demo_engine_def binary_type_def wasm_magic_def)
qed

text \<open>How a component reacts to signals: \<open>SIGTERM\<close> and \<open>SIGQUIT\<close> end it at once with status
  128 plus the signal; the first \<open>SIGINT\<close> only requests a graceful shutdown; the signal after that
  ends it, but with the bare signal number as exit status (2 for a second \<open>SIGINT\<close>), not
  128 plus it.\<close>

theorem component_signals:
  "handle_signals [] = (False, None)
   \<and> handle_signals (SIGTERM # sigs) = (False, Some 143)
   \<and> handle_signals (SIGQUIT # sigs) = (False, Some 131)
   \<and> handle_signals [SIGINT] = (True, None)
   \<and> handle_signals (SIGINT # SIGINT # sigs) = (True, Some 2)
   \<and> handle_signals (SIGINT # SIGTERM # sigs) = (True, Some 15)
   \<and> execute_component e ctx k f (snd (handle_signals (SIGTERM # sigs))) = Ok 143
   \<and> execute_component e ctx k f (snd (handle_signals [SIGINT])) = execute_component_async e ctx k f
   \<and> execute_component e ctx k f (snd (handle_signals (SIGINT # SIGINT # sigs))) = Ok 2"
  by (simp add: execute_component_def SIGINT_def SIGTERM_def SIGQUIT_def)

section \<open>Precompiling and the cache\<close>

lemma compile_layers_length:
  "compile_layers e ls = Ok cs \<Longrightarrow> length cs = length (filter (known_layer e) ls)"
proof (induction ls arbitrary: cs)
  case (Cons l ls)
  then show ?case
    by (auto simp: known_layer_def res_simps split: if_splits option.splits wasm_binary_type.splits)
qed simp

lemma filter_length_less: "length (filter P xs) = length xs \<longleftrightarrow> (\<forall>x \<in> set xs. P x)"
proof -
  have "length (filter P xs) = length xs \<longleftrightarrow> filter (\<lambda>x. \<not> P x) xs = []"
    using sum_length_filter_compl [of P xs] by (metis add_cancel_right_right length_0_conv)
  then show ?thesis by (simp add: filter_empty_conv)
qed

text \<open>wasmtime's \<open>compile\<close> keeps the positions only as long as every layer is wasm or already
  precompiled: an unknown layer is dropped instead of answered with \<open>None\<close>, as the trait asks. The
  client then finds the wrong number of layers and loading fails with
  \<open>FailedPrecondition\<close>.\<close>

theorem unknown_layer_fails_load:
  assumes "compile_layers e layers = Ok cs"
  shows "(length cs = length layers \<longleftrightarrow> (\<forall>l \<in> set layers. known_layer e l))
    \<and> ((\<exists>l \<in> set layers. \<not> known_layer e l) \<longrightarrow>
        precompile_layers cd (wasmtime_compiler e key) w image_digest pid layers
          = (w, Err (FailedPrecondition ''precompile returned wrong number of layers'')))"
  using compile_layers_length [OF assms] filter_length_less [of "known_layer e" layers] assms
  by (auto simp: precompile_layers_def wasmtime_compiler_def)

theorem unknown_layer_fails_load_witness:
  "precompile_layers (demo_cd []) (wasmtime_compiler demo_engine 1) ([], 0) ''i'' ''p''
     [\<lparr>wl_config = demo_layer, wl_layer = wasm_magic\<rparr>, \<lparr>wl_config = demo_layer, wl_layer = ''text''\<rparr>]
     = (([], 0), Err (FailedPrecondition ''precompile returned wrong number of layers''))"
proof -
  let ?ls = "[\<lparr>wl_config = demo_layer, wl_layer = wasm_magic\<rparr>, \<lparr>wl_config = demo_layer, wl_layer = ''text''\<rparr>]"
  have "compile_layers demo_engine ?ls = Ok [Some (''ELF'' @ wasm_magic)]"
    by (simp add: demo_engine_def binary_type_def wasm_magic_def)
  from unknown_layer_fails_load [OF this] show ?thesis
    by (simp add: known_layer_def demo_engine_def binary_type_def wasm_magic_def)
qed

section \<open>Serving HTTP\<close>

lemma map_of_env_map: "map_of (env_map kvs) = map_of (rev kvs)"
proof -
  have "map_of (foldl (\<lambda>m (k, v). AList.update k v m) al kvs) = map_of al ++ map_of (rev kvs)" for al
    by (induction kvs arbitrary: al) (auto simp: fun_eq_iff map_add_def split: option.splits)
  then show ?thesis by (simp add: env_map_def)
qed

text \<open>The two settings of the proxy are taken out of the environment and never reach the guest; every
  other variable does, with its last value; a value that does not parse, also a backlog that
  does not fit into 32 bits, means the default.\<close>

theorem proxy_environment:
  "let c = proxy_config parse_addr default_addr ctx
   in map_of (px_env c) = (map_of (rev (envs_from_ctx ctx)))
        (''WASMTIME_HTTP_PROXY_SOCKET_ADDR'' := None, ''WASMTIME_HTTP_BACKLOG'' := None)
      \<and> (Option.bind (map_of (rev (envs_from_ctx ctx)) ''WASMTIME_HTTP_PROXY_SOCKET_ADDR'') parse_addr = None
           \<longrightarrow> px_addr c = default_addr)
      \<and> (\<forall>n v. map_of (rev (envs_from_ctx ctx)) ''WASMTIME_HTTP_BACKLOG'' = Some v \<longrightarrow> parse_uint 32 v = Some n
           \<longrightarrow> unat (px_backlog c) = n)
      \<and> (map_of (rev (envs_from_ctx ctx)) ''WASMTIME_HTTP_BACKLOG'' = None \<longrightarrow> px_backlog c = 100)"
proof -
  have "unat (of_nat n :: u32) = n" if "parse_uint 32 v = Some n" for n v
    using that by (auto simp: parse_uint_def Let_def unat_of_nat split: if_splits option.splits list.splits)
  then show ?thesis
    by (simp add: proxy_config_def Let_def map_of_env_map)
qed

theorem proxy_environment_witness:
  "px_backlog (proxy_config (\<lambda>s. None) ()
     \<lparr>ctx_process = Some \<lparr>pr_args = None, pr_env = Some [''WASMTIME_HTTP_BACKLOG=abc'', ''A=b'']\<rparr>, wasm_layers = []\<rparr>) = 100
   \<and> px_addr (proxy_config (\<lambda>s. None) ()
     \<lparr>ctx_process = Some \<lparr>pr_args = None, pr_env = Some [''WASMTIME_HTTP_BACKLOG=abc'', ''A=b'']\<rparr>, wasm_layers = []\<rparr>) = ()"
  using proxy_environment [of "\<lambda>s. None" "()"
      "\<lparr>ctx_process = Some \<lparr>pr_args = None, pr_env = Some [''WASMTIME_HTTP_BACKLOG=abc'', ''A=b'']\<rparr>, wasm_layers = []\<rparr>"]
  by (simp add: proxy_config_def env_map_def envs_from_ctx_def envs_def env_pair_def parse_uint_def char_digit_def Let_def)

text \<open>The requests get the ids 0, 1, 2, ... of the counter, which wraps at 64 bits.\<close>

definition serve_inv :: "server \<Rightarrow> bool" where
  "serve_inv s \<longleftrightarrow>
     sv_ids s = map of_nat [0..<length (sv_ids s)] \<and> sv_next_id s = of_nat (length (sv_ids s))
     \<and> (\<forall>c \<in> set (sv_open s). c < sv_accepted s)
     \<and> (sv_phase s \<noteq> Serving \<longrightarrow> sv_cancelled s) \<and> (sv_phase s = Done \<longrightarrow> sv_open s = [] \<and> sv_guests s = [])"

lemma serve_inv_step: "serve_inv s \<Longrightarrow> serve_inv (serve_step s l)"
proof (cases l)
  case (Request c prepared)
  assume "serve_inv s"
  with Request show ?thesis
    by (auto simp: serve_inv_def start_request_def next_req_id_def)
qed (auto simp: serve_inv_def less_SucI)

lemma serve_inv_run: "serve_inv (serve.run server_init ls)"
proof (rule serve.run_invariant [where I = serve_inv])
  show "serve_inv server_init" by (simp add: serve_inv_def server_init_def)
qed (rule serve_inv_step)

lemma of_nat_inj_u64:
  assumes "m < 2 ^ 64" and "n < 2 ^ 64" and "(of_nat m :: u64) = of_nat n"
  shows "m = n"
proof -
  have m: "unat (of_nat m :: u64) = m" using assms(1) by (simp add: unsigned_of_nat take_bit_nat_eq_self)
  have n: "unat (of_nat n :: u64) = n" using assms(2) by (simp add: unsigned_of_nat take_bit_nat_eq_self)
  show ?thesis using arg_cong [OF assms(3), of unat] unfolding m n .
qed

text \<open>C32: The proxy shuts down gracefully: \<open>serve_conn\<close> returns only after a cancellation and when no
  connection is open and no guest call runs any more, it accepts no connection once it has seen the cancellation,
  and the \<open>REQUEST_ID\<close>s it hands out are the numbers 0, 1, 2, ... in 64 bits, different for every
  request as long as there are at most \<open>2^64\<close> of them.\<close>

theorem proxy_graceful_shutdown:
  "let s = serve.run server_init ls
   in (sv_phase s = Done \<longrightarrow> sv_cancelled s \<and> sv_open s = [] \<and> sv_guests s = [])
      \<and> (sv_phase s \<noteq> Serving \<longrightarrow> sv_accepted (serve.run s ls') = sv_accepted s)
      \<and> sv_ids s = map of_nat [0..<length (sv_ids s)]
      \<and> (length (sv_ids s) \<le> 2 ^ 64 \<longrightarrow> distinct (sv_ids s))"
proof -
  define s where "s = serve.run server_init ls"
  have inv: "serve_inv s" unfolding s_def by (rule serve_inv_run)
  have stop: "sv_phase (serve.run s ls') \<noteq> Serving \<and> sv_accepted (serve.run s ls') = sv_accepted s"
    if "sv_phase s \<noteq> Serving"
  proof (rule serve.run_invariant [where I = "\<lambda>t. sv_phase t \<noteq> Serving \<and> sv_accepted t = sv_accepted s"])
    fix t :: server and l
    assume "sv_phase t \<noteq> Serving \<and> sv_accepted t = sv_accepted s"
    then show "sv_phase (serve_step t l) \<noteq> Serving \<and> sv_accepted (serve_step t l) = sv_accepted s"
      by (cases l) (auto simp: start_request_def next_req_id_def)
  qed (use that in simp)
  have "distinct (sv_ids s)" if "length (sv_ids s) \<le> 2 ^ 64"
  proof -
    have "sv_ids s = map of_nat [0..<length (sv_ids s)]" using inv by (simp add: serve_inv_def)
    moreover have "inj_on (of_nat :: nat \<Rightarrow> u64) {0..<length (sv_ids s)}"
      using that by (intro inj_onI) (auto intro: of_nat_inj_u64)
    ultimately show ?thesis by (metis distinct_map distinct_upt set_upt)
  qed
  moreover have "sv_phase s = Done \<Longrightarrow> sv_cancelled s \<and> sv_open s = [] \<and> sv_guests s = []"
    using inv by (simp add: serve_inv_def)
  moreover have "sv_ids s = map of_nat [0..<length (sv_ids s)]"
    using inv unfolding serve_inv_def by (elim conjE)
  ultimately show ?thesis
    using stop unfolding Let_def s_def [symmetric] by blast
qed

theorem proxy_graceful_shutdown_witness:
  "let s = serve.run server_init [Accept True, Request 0 True, Cancel, SeeCancel, Finish 0, Drained, GuestReturns 0, Drained]
   in sv_phase s = Done \<and> sv_open s = [] \<and> sv_accepted (serve.run s [Accept True]) = 1"
proof -
  let ?ls = "[Accept True, Request 0 True, Cancel, SeeCancel, Finish 0, Drained, GuestReturns 0, Drained]"
  have "sv_phase (serve.run server_init ?ls) = Done \<and> sv_accepted (serve.run server_init ?ls) = 1"
    by (simp add: server_init_def start_request_def next_req_id_def)
  then show ?thesis
    using proxy_graceful_shutdown [of ?ls "[Accept True]"] unfolding Let_def by (metis serve_phase.distinct(3))
qed

text \<open>A guest that returns without an error and without ever setting a response panics the request
  handler: the code expects that the task must have failed when the channel is closed, but a normal
  return closes it as well. In every other case the handler answers.\<close>

theorem silent_guest_panics:
  assumes "\<not> is_panic task" and "\<And>r. task = Ok r \<Longrightarrow> \<not> is_panic r" and "\<And>r. received = Some r \<Longrightarrow> \<not> is_panic r"
  shows "is_panic (handle_response received task) \<longleftrightarrow> received = None \<and> task = Ok (Ok ())"
proof (cases received)
  case None
  then show ?thesis
    using assms(1,2) by (cases task) (auto simp: handle_response_def split: result.splits)
next
  case (Some r)
  then show ?thesis using assms(3) by (simp add: handle_response_def)
qed

theorem silent_guest_panics_witness: "is_panic (handle_response (None :: (nat, string) result option) (Ok (Ok ())))"
  using silent_guest_panics [of "Ok (Ok ())" "None :: (nat, string) result option"] by simp

end
