(* ===== verification/Shim_Main.thy ===== *)
theory Shim_Main
  imports Base
begin

text \<open>
  The entry point of a shim binary: the telemetry configuration
  (\<open>containerd-shimkit/src/sandbox/shim/otel.rs\<close>), \<open>shim_main\<close> with the memory report
  (\<open>containerd-shimkit/src/sandbox/cli.rs\<close>) and the wrapper of the wasm shims
  (\<open>containerd-shim-wasm/src/shim/cli.rs\<close>).

  The argument parser, the OpenTelemetry library and JSON are outside: they are the fields of
  \<open>main_env\<close>. What the process does is the list of its \<open>action\<close>s.
\<close>

section \<open>The process environment\<close>

text \<open>A value of an environment variable is valid unicode or not; \<open>env::var_os\<close> gives both, \<open>env::var\<close>
  fails on the second.\<close>

datatype os_value = Unicode string | NotUnicode string

type_synonym env = "string \<Rightarrow> os_value option"

definition var_os :: "env \<Rightarrow> string \<Rightarrow> os_value option" where
  "var_os e k = e k"

definition var :: "env \<Rightarrow> string \<Rightarrow> (string, string) result" where
  "var e k =
     (case e k of
        None \<Rightarrow> Err ''environment variable not found''
      | Some (Unicode v) \<Rightarrow> Ok v
      | Some (NotUnicode v) \<Rightarrow> Err ''environment variable was not valid unicode'')"

fun os_is_empty :: "os_value \<Rightarrow> bool" where
  "os_is_empty (Unicode v) = (v = [])"
| "os_is_empty (NotUnicode v) = False"

definition or_else :: "('a, 'e) result \<Rightarrow> ('a, 'e) result \<Rightarrow> ('a, 'e) result" where
  "or_else r s = (case r of Err _ \<Rightarrow> s | _ \<Rightarrow> r)"

definition unwrap_or :: "'a \<Rightarrow> ('a, 'e) result \<Rightarrow> 'a" where
  "unwrap_or d r = (case r of Ok a \<Rightarrow> a | _ \<Rightarrow> d)"

fun expect :: "string \<Rightarrow> ('a, 'e) result \<Rightarrow> ('a, 'f) result" where
  "expect m (Ok a) = Ok a"
| "expect m (Err _) = Panic m"
| "expect m (Panic p) = Panic p"

section \<open>Telemetry configuration\<close>

definition TRACES_ENDPOINT :: string where "TRACES_ENDPOINT = ''OTEL_EXPORTER_OTLP_TRACES_ENDPOINT''"
definition OTLP_ENDPOINT :: string where "OTLP_ENDPOINT = ''OTEL_EXPORTER_OTLP_ENDPOINT''"
definition TRACES_PROTOCOL :: string where "TRACES_PROTOCOL = ''OTEL_EXPORTER_OTLP_TRACES_PROTOCOL''"
definition OTLP_PROTOCOL :: string where "OTLP_PROTOCOL = ''OTEL_EXPORTER_OTLP_PROTOCOL''"
definition SDK_DISABLED :: string where "SDK_DISABLED = ''OTEL_SDK_DISABLED''"

lemmas otel_names = TRACES_ENDPOINT_def OTLP_ENDPOINT_def TRACES_PROTOCOL_def OTLP_PROTOCOL_def SDK_DISABLED_def

datatype protocol = HttpBinary | HttpJson | Grpc

record otel_config =
  oc_endpoint :: string
  oc_protocol :: protocol

definition check_env_var :: "env \<Rightarrow> string \<Rightarrow> bool" where
  "check_env_var e k = (case var_os e k of None \<Rightarrow> False | Some v \<Rightarrow> \<not> os_is_empty v)"

definition traces_enabled :: "env \<Rightarrow> bool" where
  "traces_enabled e \<longleftrightarrow>
     (check_env_var e TRACES_ENDPOINT \<or> check_env_var e OTLP_ENDPOINT)
     \<and> var_os e SDK_DISABLED \<noteq> Some (Unicode ''true'')"

definition traces_endpoint_from_env :: "env \<Rightarrow> (string, string) result" where
  "traces_endpoint_from_env e = or_else (var e TRACES_ENDPOINT) (var e OTLP_ENDPOINT)"

text \<open>\<open>default_protocol\<close> is a constant of the OpenTelemetry library.\<close>

definition traces_protocol_from_env :: "string \<Rightarrow> env \<Rightarrow> (protocol, string) result" where
  "traces_protocol_from_env default_protocol e =
     (let p = unwrap_or (unwrap_or default_protocol (var e OTLP_PROTOCOL)) (var e TRACES_PROTOCOL)
      in if p = ''http/protobuf'' then Ok HttpBinary
         else if p = ''grpc'' then Ok Grpc
         else if p = ''http/json'' then Ok HttpJson
         else Err ''Invalid OTEL_EXPORTER_OTLP_PROTOCOL value'')"

definition build_from_env :: "string \<Rightarrow> env \<Rightarrow> (otel_config, string) result" where
  "build_from_env default_protocol e =
     and_then (traces_endpoint_from_env e) (\<lambda>ep.
     and_then (traces_protocol_from_env default_protocol e) (\<lambda>pr.
       Ok \<lparr>oc_endpoint = ep, oc_protocol = pr\<rparr>))"

datatype exporter = HttpExporter string | GrpcExporter string

definition init_tracer :: "otel_config \<Rightarrow> exporter" where
  "init_tracer c =
     (case oc_protocol c of
        HttpBinary \<Rightarrow> HttpExporter (oc_endpoint c)
      | HttpJson \<Rightarrow> HttpExporter (oc_endpoint c)
      | Grpc \<Rightarrow> GrpcExporter (oc_endpoint c))"

text \<open>\<open>MetadataExtractor\<close>: the first value of a ttrpc metadata key.\<close>

definition extractor_get :: "(string \<times> string list) list \<Rightarrow> string \<Rightarrow> string option" where
  "extractor_get metadata k =
     Option.bind (map_of metadata k) (\<lambda>vs. case vs of [] \<Rightarrow> None | v # _ \<Rightarrow> Some v)"

definition extractor_keys :: "(string \<times> string list) list \<Rightarrow> string list" where
  "extractor_keys metadata = map fst metadata"

text \<open>\<open>SpanNamingLayer\<close>.\<close>

definition span_name :: "string \<Rightarrow> string \<Rightarrow> string" where
  "span_name target original_name = target @ ''::'' @ original_name"

section \<open>The entry point\<close>

record config =
  no_setup_logger :: bool
  default_log_level :: string
  no_reaper :: bool
  no_sub_reaper :: bool

record version =
  v_version :: string
  v_revision :: string

definition version_default :: version where
  "version_default = \<lparr>v_version = ''<none>'', v_revision = ''<none>''\<rparr>"

record flags =
  f_version :: bool
  f_debug :: bool

datatype action =
    Println string
  | ExitProcess nat
  | ZygoteInit
  | LoggerInit bool string
  | OtelInit exporter
  | SetParent "(string \<times> string) list"
  | SetVar string string
  | RunShim string "config option"
  | OtelShutdown
  | LogMem string "nat \<times> nat"

record main_env =
  me_parse :: "string list \<Rightarrow> (flags, string) result"
  me_default_config :: config
  me_opentelemetry :: bool
  me_default_protocol :: string
  me_otel_init :: "exporter \<Rightarrow> (unit, string) result"
  me_inject :: "(string \<times> string) list"
  me_to_json :: "(string \<times> string) list \<Rightarrow> (string, string) result"
  me_from_json :: "string \<Rightarrow> ((string \<times> string) list, string) result"
  me_pid :: u32
  me_zygote_pid :: u32
  me_read :: "path \<Rightarrow> (string, string) result"

text \<open>\<open>str::lines\<close>: no line after a final line feed, and a carriage return before a line feed is not
  part of the line.\<close>

definition drop_cr :: "string \<Rightarrow> string" where
  "drop_cr l = (if l \<noteq> [] \<and> last l = CHR 0x0D then butlast l else l)"

definition lines :: "string \<Rightarrow> string list" where
  "lines s =
     (let ps = split_on CHR 0x0A s
      in map drop_cr (butlast ps) @ (if last ps = [] then [] else [last ps]))"

text \<open>One line of \<open>/proc/<pid>/status\<close>; \<open>usize\<close> has 64 bits.\<close>

definition parse_kb :: "string \<Rightarrow> nat" where
  "parse_kb rest = (case parse_uint 64 (trim rest) of Some n \<Rightarrow> n | None \<Rightarrow> 0)"

definition mem_line :: "nat \<times> nat \<Rightarrow> string \<Rightarrow> nat \<times> nat" where
  "mem_line m l =
     (let l = trim l
      in (case strip_prefix ''VmPeak:'' l of
            Some rest \<Rightarrow> (case strip_suffix ''kB'' rest of Some r \<Rightarrow> (fst m, parse_kb r) | None \<Rightarrow> m)
          | None \<Rightarrow>
              (case strip_prefix ''VmHWM:'' l of
                 Some rest \<Rightarrow> (case strip_suffix ''kB'' rest of Some r \<Rightarrow> (parse_kb r, snd m) | None \<Rightarrow> m)
               | None \<Rightarrow> m)))"

definition get_mem :: "main_env \<Rightarrow> u32 \<Rightarrow> (nat \<times> nat, string) result" where
  "get_mem me pid =
     and_then (expect ''called Result::unwrap() on an Err value''
                (me_read me (''/proc/'' @ show_nat (unat pid) @ ''/status'')))
       (\<lambda>s. Ok (foldl mem_line (0, 0) (lines s)))"

text \<open>A step of the process: the actions so far, and the result.\<close>

type_synonym 'a main = "action list \<times> ('a, string) result"

definition act :: "action list \<Rightarrow> action \<Rightarrow> unit main" where
  "act l a = (l @ [a], Ok ())"

definition log_mem :: "main_env \<Rightarrow> action list \<Rightarrow> unit main" where
  "log_mem me l =
     st_then (l, get_mem me (me_pid me)) (\<lambda>l m.
     st_then (act l (LogMem ''Shim'' m)) (\<lambda>l _.
     st_then (l, get_mem me (me_zygote_pid me)) (\<lambda>l m. act l (LogMem ''Zygote'' m))))"

definition init_zygote_and_logger :: "bool \<Rightarrow> config \<Rightarrow> action list \<Rightarrow> action list" where
  "init_zygote_and_logger debug cfg l =
     l @ ZygoteInit # (if no_setup_logger cfg then [] else [LoggerInit debug (default_log_level cfg)])"

definition set_trace_context :: "main_env \<Rightarrow> string \<Rightarrow> action list \<Rightarrow> unit main" where
  "set_trace_context me ctx l = st_then (l, me_from_json me ctx) (\<lambda>l m. act l (SetParent m))"

definition get_trace_context :: "main_env \<Rightarrow> (string, string) result" where
  "get_trace_context me = me_to_json me (me_inject me)"

definition unwrap_main :: "'a main \<Rightarrow> 'a main" where
  "unwrap_main p = (fst p, expect ''called Result::unwrap() on an Err value'' (snd p))"

definition shim_main_inner :: "main_env \<Rightarrow> env \<Rightarrow> string \<Rightarrow> config option \<Rightarrow> action list \<Rightarrow> unit main" where
  "shim_main_inner me e name cfg l =
     st_then
       (if me_opentelemetry me then
          (case var e ''TRACECONTEXT'' of
             Ok ctx \<Rightarrow> unwrap_main (set_trace_context me ctx l)
           | _ \<Rightarrow> st_then (unwrap_main (l, get_trace_context me)) (\<lambda>l ctx. act l (SetVar ''TRACECONTEXT'' ctx)))
        else (l, Ok ()))
       (\<lambda>l _. act l (RunShim name cfg))"

text \<open>\<open>build_from_env().expect(..)\<close>, \<open>init().expect(..)\<close>, the shim, and the guard that shuts telemetry
  down on every way out.\<close>

definition shim_main_traced :: "main_env \<Rightarrow> env \<Rightarrow> string \<Rightarrow> config option \<Rightarrow> action list \<Rightarrow> unit main" where
  "shim_main_traced me e name cfg l =
     st_then (l, expect ''Failed to build OtelConfig.'' (build_from_env (me_default_protocol me) e)) (\<lambda>l oc.
     st_then (l, expect ''Failed to initialize OpenTelemetry.'' (me_otel_init me (init_tracer oc))) (\<lambda>l _.
       case shim_main_inner me e name cfg (l @ [OtelInit (init_tracer oc)]) of
         (l, r) \<Rightarrow> (l @ [OtelShutdown], r)))"

definition shim_main :: "main_env \<Rightarrow> env \<Rightarrow> string list \<Rightarrow> string \<Rightarrow> version \<Rightarrow> config option \<Rightarrow> unit main" where
  "shim_main me e os_args name v cfg =
     (case os_args of
        [] \<Rightarrow> ([], Panic ''range start index 1 out of range for slice of length 0'')
      | a # as \<Rightarrow>
          st_then ([], expect ''called Result::unwrap() on an Err value'' (me_parse me as)) (\<lambda>l fl.
            let argv0 = (case file_stem a of Some s \<Rightarrow> s | None \<Rightarrow> [])
            in if f_version fl
               then ([Println (argv0 @ '':''), Println (''  Runtime: '' @ name),
                      Println (''  Version: '' @ v_version v), Println (''  Revision: '' @ v_revision v),
                      Println [], ExitProcess 0], Ok ())
               else
                 (let c = (case cfg of Some c \<Rightarrow> c | None \<Rightarrow> me_default_config me);
                      l = init_zygote_and_logger (f_debug fl) c l
                  in st_then
                       (if me_opentelemetry me \<and> traces_enabled e then shim_main_traced me e name cfg l
                        else shim_main_inner me e name cfg l)
                       (\<lambda>l _. log_mem me l))))"

text \<open>\<open>Cli::run\<close> of the wasm shims always asks for the reaper and for being a subreaper.\<close>

record wasm_config =
  wc_no_setup_logger :: bool
  wc_default_log_level :: string

definition wasm_config_default :: wasm_config where
  "wasm_config_default = \<lparr>wc_no_setup_logger = False, wc_default_log_level = ''info''\<rparr>"

definition cli_run :: "main_env \<Rightarrow> env \<Rightarrow> string list \<Rightarrow> string \<Rightarrow> version \<Rightarrow> wasm_config option \<Rightarrow> unit main" where
  "cli_run me e os_args name v cfg =
     (let c = (case cfg of Some c \<Rightarrow> c | None \<Rightarrow> wasm_config_default)
      in shim_main me e os_args name v
           (Some \<lparr>no_setup_logger = wc_no_setup_logger c, default_log_level = wc_default_log_level c,
                  no_reaper = False, no_sub_reaper = False\<rparr>))"

section \<open>Telemetry\<close>

lemma var_unicode: "(\<And>v. e k \<noteq> Some (NotUnicode v)) \<Longrightarrow> var e k = (case e k of Some (Unicode v) \<Rightarrow> Ok v | _ \<Rightarrow> Err ''environment variable not found'')"
  by (auto simp: var_def split: option.splits os_value.splits)

text \<open>When traces are enabled (and the variables are unicode) an endpoint is always found: the one for traces
  if it is set, otherwise the general one. But set and not empty are mixed up: with an empty
  \<open>OTEL_EXPORTER_OTLP_TRACES_ENDPOINT\<close> and a general endpoint, traces count as enabled and are sent to the
  empty endpoint; that is the only way to get an empty one.\<close>

theorem telemetry_endpoint:
  assumes "traces_enabled e" and unicode: "\<And>k v. e k \<noteq> Some (NotUnicode v)"
  shows "\<exists>ep. traces_endpoint_from_env e = Ok ep
    \<and> (e TRACES_ENDPOINT = Some (Unicode ep) \<or> e TRACES_ENDPOINT = None \<and> e OTLP_ENDPOINT = Some (Unicode ep))
    \<and> (ep = [] \<longleftrightarrow> e TRACES_ENDPOINT = Some (Unicode []) \<and> (\<exists>v. e OTLP_ENDPOINT = Some (Unicode v) \<and> v \<noteq> []))"
proof -
  have "\<exists>k v. (k = TRACES_ENDPOINT \<or> k = OTLP_ENDPOINT) \<and> e k = Some (Unicode v) \<and> v \<noteq> []"
    using assms by (auto simp: traces_enabled_def check_env_var_def var_os_def
        split: option.splits elim!: os_is_empty.elims(3))
  then show ?thesis
    using var_unicode [of e TRACES_ENDPOINT, OF unicode] var_unicode [of e OTLP_ENDPOINT, OF unicode]
      unicode [of TRACES_ENDPOINT] unicode [of OTLP_ENDPOINT]
    by (cases "e TRACES_ENDPOINT"; cases "e OTLP_ENDPOINT")
      (auto simp: traces_endpoint_from_env_def or_else_def split: os_value.splits)
qed

theorem telemetry_endpoint_witness:
  "let e = (\<lambda>_. None)(TRACES_ENDPOINT := Some (Unicode []), OTLP_ENDPOINT := Some (Unicode ''http://otel:4318''))
   in traces_enabled e \<and> traces_endpoint_from_env e = Ok []"
proof -
  let ?e = "(\<lambda>_. None)(TRACES_ENDPOINT := Some (Unicode []), OTLP_ENDPOINT := Some (Unicode ''http://otel:4318''))"
  have en: "traces_enabled ?e"
    by (simp add: traces_enabled_def check_env_var_def var_os_def otel_names)
  have un: "\<And>k v. ?e k \<noteq> Some (NotUnicode v)" by simp
  from telemetry_endpoint [of ?e, OF en un] en show ?thesis
    by (auto simp: otel_names)
qed

section \<open>What the process does\<close>

fun is_run :: "action \<Rightarrow> bool" where
  "is_run (RunShim n c) = True"
| "is_run _ = False"

fun is_otel_init :: "action \<Rightarrow> bool" where
  "is_otel_init (OtelInit x) = True"
| "is_otel_init _ = False"

definition runs :: "action list \<Rightarrow> nat" where
  "runs l = length (filter is_run l)"

definition otel_inits :: "action list \<Rightarrow> nat" where
  "otel_inits l = length (filter is_otel_init l)"

definition otel_shutdowns :: "action list \<Rightarrow> nat" where
  "otel_shutdowns l = length (filter (\<lambda>a. a = OtelShutdown) l)"

definition exits :: "action list \<Rightarrow> nat" where
  "exits l = length (filter (\<lambda>a. a = ExitProcess 0) l)"

lemmas count_defs = exits_def runs_def otel_inits_def otel_shutdowns_def

lemma expect_Ok [simp]: "expect m r = Ok a \<longleftrightarrow> r = Ok a"
  by (cases r) auto

lemma inner_counts:
  assumes "shim_main_inner me e name cfg l = (l', r)"
  shows "runs l' = runs l + (if r = Ok () then 1 else 0)
    \<and> otel_inits l' = otel_inits l \<and> otel_shutdowns l' = otel_shutdowns l \<and> exits l' = exits l"
  using assms
  by (cases "var e ''TRACECONTEXT''"; cases "get_trace_context me";
      cases "me_from_json me (unwrap_or [] (var e ''TRACECONTEXT''))")
    (auto simp: shim_main_inner_def set_trace_context_def unwrap_main_def act_def unwrap_or_def count_defs
      split: if_splits)

lemma traced_counts:
  assumes "shim_main_traced me e name cfg l = (l', r)"
  shows "runs l' = runs l + (if r = Ok () then 1 else 0)
    \<and> otel_inits l' + otel_shutdowns l = otel_inits l + otel_shutdowns l' \<and> exits l' = exits l"
proof (cases "build_from_env (me_default_protocol me) e")
  case (Ok oc)
  obtain l2 r2 where inner: "shim_main_inner me e name cfg (l @ [OtelInit (init_tracer oc)]) = (l2, r2)"
    by fastforce
  from Ok assms inner inner_counts [OF inner] show ?thesis
    by (cases "me_otel_init me (init_tracer oc)") (auto simp: shim_main_traced_def count_defs)
qed (use assms in \<open>auto simp: shim_main_traced_def\<close>)

lemma log_mem_counts:
  "log_mem me l = (l', r) \<Longrightarrow> runs l' = runs l \<and> otel_inits l' = otel_inits l
     \<and> otel_shutdowns l' = otel_shutdowns l \<and> exits l' = exits l"
  by (cases "get_mem me (me_pid me)"; cases "get_mem me (me_zygote_pid me)")
    (auto simp: log_mem_def act_def count_defs)

lemma init_counts:
  "runs (init_zygote_and_logger d c []) = 0" "otel_inits (init_zygote_and_logger d c []) = 0"
  "otel_shutdowns (init_zygote_and_logger d c []) = 0" "exits (init_zygote_and_logger d c []) = 0"
  by (simp_all add: init_zygote_and_logger_def count_defs)


definition demo_main_env :: main_env where
  "demo_main_env =
     \<lparr>me_parse = (\<lambda>as. Ok \<lparr>f_version = (''--version'' \<in> set as), f_debug = False\<rparr>),
      me_default_config = \<lparr>no_setup_logger = False, default_log_level = ''info'', no_reaper = False, no_sub_reaper = False\<rparr>,
      me_opentelemetry = True, me_default_protocol = ''http/protobuf'', me_otel_init = (\<lambda>_. Ok ()),
      me_inject = [], me_to_json = (\<lambda>_. Ok ''{}''), me_from_json = (\<lambda>_. Ok []),
      me_pid = 1, me_zygote_pid = 2, me_read = (\<lambda>_. Ok ''VmPeak:   20 kB'')\<rparr>"


section \<open>The memory report\<close>

definition unlines :: "string list \<Rightarrow> string" where
  "unlines ls = concat (map (\<lambda>l. l @ [CHR 0x0A]) ls)"

definition plain_line :: "string \<Rightarrow> bool" where
  "plain_line l \<longleftrightarrow> CHR 0x0A \<notin> set l \<and> CHR 0x0D \<notin> set l"

lemma drop_cr_plain: "plain_line l \<Longrightarrow> drop_cr l = l"
  by (metis drop_cr_def last_in_set plain_line_def)

lemma split_unlines: "\<forall>l \<in> set ls. plain_line l \<Longrightarrow> split_on CHR 0x0A (unlines ls) = ls @ [[]]"
  by (induction ls) (auto simp: unlines_def plain_line_def split_on_append)

lemma lines_unlines: "\<forall>l \<in> set ls. plain_line l \<Longrightarrow> lines (unlines ls) = ls"
  by (simp add: lines_def split_unlines drop_cr_plain map_idI)

text \<open>A line that is about something else does not count.\<close>

definition other_line :: "string \<Rightarrow> bool" where
  "other_line l \<longleftrightarrow> \<not> prefix ''VmPeak:'' (trim l) \<and> \<not> prefix ''VmHWM:'' (trim l)"

lemma mem_line_other: "other_line l \<Longrightarrow> mem_line m l = m"
  using starts_with_prefix [of "''VmPeak:''" "trim l"] starts_with_prefix [of "''VmHWM:''" "trim l"]
  by (simp add: mem_line_def other_line_def starts_with_def Let_def)

lemma foldl_other: "\<forall>l \<in> set ls. other_line l \<Longrightarrow> foldl mem_line m ls = m"
  by (induction ls arbitrary: m) (auto simp: mem_line_other)

lemma digit_not_ws: "d < 10 \<Longrightarrow> \<not> is_ws (digit_char d)"
  by (auto simp: is_ws_def digit_char_def dest!: arg_cong [where f = "of_char :: char \<Rightarrow> nat"])

lemma show_nat_not_ws: "c \<in> set (show_nat n) \<Longrightarrow> \<not> is_ws c"
  using set_show_nat [of n] digit_not_ws by blast

lemma parse_kb_padded:
  assumes "\<forall>c \<in> set pad. is_ws c" and "n < 2 ^ 64"
  shows "parse_kb (pad @ show_nat n @ '' '') = n"
proof -
  have "trim (pad @ show_nat n @ '' '') = show_nat n"
    using assms(1) show_nat_not_ws [of "hd (show_nat n)" n] show_nat_not_ws [of "last (show_nat n)" n]
    by (intro trim_padded) (auto simp: is_ws_def)
  then show ?thesis using assms(2) by (simp add: parse_kb_def parse_show_nat)
qed

text \<open>The format of the kernel: name, colon, padding, number, \<open>kB\<close>.\<close>

definition status_line :: "string \<Rightarrow> string \<Rightarrow> nat \<Rightarrow> string" where
  "status_line k pad n = k @ pad @ show_nat n @ '' kB''"

lemma trim_status_line:
  "k \<noteq> [] \<Longrightarrow> \<not> is_ws (hd k) \<Longrightarrow> trim (status_line k pad n) = status_line k pad n"
  by (intro trim_no_ws_ends) (auto simp: status_line_def is_ws_def hd_append)

lemma strip_status_line:
  "strip_prefix k (status_line k pad n) = Some (pad @ show_nat n @ '' kB'')"
  by (simp add: status_line_def strip_prefix_Some)

lemma strip_kb: "strip_suffix ''kB'' (pad @ show_nat n @ '' kB'') = Some (pad @ show_nat n @ '' '')"
  by (simp add: strip_suffix_Some)

lemma mem_line_status:
  assumes "\<forall>c \<in> set pad. is_ws c" and "n < 2 ^ 64"
  shows "mem_line (rss, tot) (status_line ''VmPeak:'' pad n) = (rss, n)"
    and "mem_line (rss, tot) (status_line ''VmHWM:'' pad n) = (n, tot)"
proof -
  have "strip_prefix ''VmPeak:'' (status_line ''VmHWM:'' pad n) = None"
    by (simp add: status_line_def)
  then show "mem_line (rss, tot) (status_line ''VmPeak:'' pad n) = (rss, n)"
    and "mem_line (rss, tot) (status_line ''VmHWM:'' pad n) = (n, tot)"
    using parse_kb_padded [OF assms] strip_status_line [of "''VmPeak:''" pad n] strip_status_line [of "''VmHWM:''" pad n]
      strip_kb [of pad n] trim_status_line [of "''VmPeak:''" pad n] trim_status_line [of "''VmHWM:''" pad n]
    by (simp_all add: mem_line_def is_ws_def)
qed

text \<open>The memory report reads what the kernel wrote: from a \<open>status\<close> file with one \<open>VmPeak\<close> and one
  \<open>VmHWM\<close> line, in the format of the kernel, among any other lines, it reports exactly these two numbers, as long
  as they fit into 64 bits.\<close>

theorem get_mem_reads_status:
  assumes "me_read me (''/proc/'' @ show_nat (unat pid) @ ''/status'')
      = Ok (unlines (as @ status_line ''VmPeak:'' pad tot # bs @ status_line ''VmHWM:'' pad' rss # cs))"
    and "\<forall>l \<in> set (as @ bs @ cs). plain_line l \<and> other_line l"
    and "\<forall>c \<in> set (pad @ pad'). is_ws c" and "plain_line pad" and "plain_line pad'"
    and "tot < 2 ^ 64" and "rss < 2 ^ 64"
  shows "get_mem me pid = Ok (rss, tot)"
proof -
  let ?ls = "as @ status_line ''VmPeak:'' pad tot # bs @ status_line ''VmHWM:'' pad' rss # cs"
  have digits: "plain_line (show_nat n)" for n
    using show_nat_not_ws [of _ n] by (auto simp: plain_line_def is_ws_def)
  have "\<forall>l \<in> set ?ls. plain_line l"
    using assms(2,4,5) digits by (auto simp: plain_line_def status_line_def)
  then show ?thesis
    using assms by (simp add: get_mem_def lines_unlines foldl_other mem_line_status)
qed

theorem get_mem_reads_status_witness:
  "get_mem (demo_main_env\<lparr>me_read := (\<lambda>_. Ok (unlines [''Name: shim'', status_line ''VmPeak:'' '' '' 4096,
      status_line ''VmHWM:'' '' '' 512]))\<rparr>) 1 = Ok (512, 4096)"
proof -
  let ?me = "demo_main_env\<lparr>me_read := (\<lambda>_. Ok (unlines [''Name: shim'', status_line ''VmPeak:'' '' '' 4096,
      status_line ''VmHWM:'' '' '' 512]))\<rparr>"
  show ?thesis
    by (rule get_mem_reads_status [of ?me 1 "[''Name: shim'']" "'' ''" 4096 "[]" "'' ''" 512 "[]"])
      (simp_all add: plain_line_def other_line_def is_ws_def trim_def)
qed

end
