(* ===== verification/Engines.thy ===== *)
theory Engines
  imports Wasmtime_Shim Shim_Main
begin

text \<open>
  \<open>run_wasi\<close> of the other engines: wasmer, wamr and wasmedge
  (\<open>containerd-shim-{wasmer,wamr,wasmedge}/src/instance.rs\<close>), and what all four engines promise to
  the executor.

  The engines themselves are outside: they are the records \<open>wasmer\<close>, \<open>wamr\<close> and \<open>wasmedge\<close>, with
  types \<open>'m\<close> of modules and \<open>'x\<close> of instances.
\<close>

section \<open>The contract of a sandbox\<close>

text \<open>What the executor and its users rely on: an engine does not succeed on a container whose module
  cannot be loaded.\<close>

locale sandbox_engine =
  fixes run :: "fs \<Rightarrow> wasi_context \<Rightarrow> (i32, 'e) result"
  assumes needs_source: "is_ok (run f ctx) \<Longrightarrow> is_ok (as_bytes f (source (entrypoint_of ctx)))"
begin

lemma single_layer:
  assumes "is_ok (run f ctx)"
  shows "length (wasm_layers ctx) \<le> 1"
proof (rule ccontr)
  assume "\<not> length (wasm_layers ctx) \<le> 1"
  then obtain a b ls where "wasm_layers ctx = a # b # ls"
    by (cases "wasm_layers ctx" rule: remdups_adj.cases) auto
  then show False
    using needs_source [OF assms] by (simp add: entrypoint_of_def Let_def split: prod.splits)
qed

lemma exec_unloadable:
  assumes "ex_ty ex = Some Wasm" and "\<not> is_ok (as_bytes f (source (entrypoint_of (executor_ctx ex spec))))"
    and "exec f' handles (\<lambda>ctx. map_err show_err (run f ctx)) shim ex spec = (ex', ProcessExit c)"
  shows "c = 137"
  using assms needs_source [of f "executor_ctx ex spec"]
  by (cases "run f (executor_ctx ex spec)") (auto simp: exec_def executor_ty_def)

end

section \<open>wasmer\<close>

datatype wasmer_error = WasiExit i32 | WasmerError string

record ('m, 'x) wasmer =
  wr_from_binary :: "string \<Rightarrow> ('m, string) result"
  wr_host_fs :: "(unit, string) result"
  wr_instantiate :: "string \<Rightarrow> string list \<Rightarrow> (string \<times> string) list \<Rightarrow> 'm \<Rightarrow> ('x, string) result"
  wr_get_function :: "'x \<Rightarrow> string \<Rightarrow> (unit, string) result"
  wr_call :: "'x \<Rightarrow> string \<Rightarrow> (unit, wasmer_error) result"

definition mod_name :: "wasi_context \<Rightarrow> string" where
  "mod_name ctx = (case name (entrypoint_of ctx) of Some n \<Rightarrow> n | None \<Rightarrow> ''main'')"

fun wasmer_status :: "(unit, wasmer_error) result \<Rightarrow> (i32, string) result" where
  "wasmer_status (Ok _) = Ok 0"
| "wasmer_status (Err (WasiExit c)) = Ok c"
| "wasmer_status (Err (WasmerError e)) = Err e"
| "wasmer_status (Panic m) = Panic m"

text \<open>\<open>&args[1..]\<close> panics when there is no argument at all.\<close>

definition wasmer_run :: "('m, 'x) wasmer \<Rightarrow> fs \<Rightarrow> wasi_context \<Rightarrow> (i32, string) result" where
  "wasmer_run en f ctx =
     and_then (as_bytes f (source (entrypoint_of ctx))) (\<lambda>wasm.
     and_then (wr_from_binary en wasm) (\<lambda>m.
     and_then (wr_host_fs en) (\<lambda>_.
     case args ctx of
       [] \<Rightarrow> Panic ''range start index 1 out of range for slice of length 0''
     | _ # rest \<Rightarrow>
         and_then (wr_instantiate en (mod_name ctx) rest (map env_pair (envs ctx)) m) (\<lambda>x.
         and_then (wr_get_function en x (func (entrypoint_of ctx))) (\<lambda>_.
           wasmer_status (wr_call en x (func (entrypoint_of ctx))))))))"

section \<open>wamr\<close>

record ('m, 'x) wamr =
  wm_from_buf :: "string \<Rightarrow> string \<Rightarrow> ('m, string) result"
  wm_instance :: "string list \<Rightarrow> string list \<Rightarrow> 'm \<Rightarrow> nat \<Rightarrow> ('x, string) result"
  wm_find_export :: "'x \<Rightarrow> string \<Rightarrow> (unit, string) result"
  wm_call :: "'x \<Rightarrow> string \<Rightarrow> (unit, string) result"

definition wamr_run :: "('m, 'x) wamr \<Rightarrow> fs \<Rightarrow> wasi_context \<Rightarrow> (i32, string) result" where
  "wamr_run en f ctx =
     and_then (map_err (\<lambda>_. ''Failed to get bytes from source'') (as_bytes f (source (entrypoint_of ctx)))) (\<lambda>wasm.
     and_then (map_err (\<lambda>_. ''Failed to create module from bytes'') (wm_from_buf en wasm (mod_name ctx))) (\<lambda>m.
     and_then (map_err (\<lambda>_. ''Failed to create instance'') (wm_instance en (envs ctx) (args ctx) m (1024 * 64))) (\<lambda>x.
     and_then (map_err (\<lambda>_. ''Failed to find function'') (wm_find_export en x (func (entrypoint_of ctx)))) (\<lambda>_.
     and_then (map_err (\<lambda>_. ''Failed to call function'') (wm_call en x (func (entrypoint_of ctx)))) (\<lambda>_.
       Ok 0)))))"

section \<open>wasmedge\<close>

text \<open>\<open>ed_plugin\<close> is whether the shim is built with plugins. The functions that depend on the process
  environment get it; \<open>ed_run_func\<close> also says what exit code the WASI module has afterwards.\<close>

record 'm wasmedge =
  ed_plugin :: bool
  ed_load :: "env \<Rightarrow> (unit, string) result"
  ed_parse_preload :: "string \<Rightarrow> (unit, string) result"
  ed_plugin_names :: "env \<Rightarrow> string list"
  ed_load_wasi_nn :: "env \<Rightarrow> (string option, string) result"
  ed_wasi_module :: "string list \<Rightarrow> string list \<Rightarrow> (string, string) result"
  ed_from_bytes :: "string \<Rightarrow> ('m, string) result"
  ed_store :: "string list \<Rightarrow> (unit, string) result"
  ed_register :: "string \<Rightarrow> 'm \<Rightarrow> (unit, string) result"
  ed_run_func :: "string \<Rightarrow> string \<Rightarrow> 'm \<Rightarrow> (unit, string) result \<times> u32"

text \<open>\<open>env::set_var\<close> panics on a NUL byte (and on an empty name, or one with \<open>=\<close>).\<close>

definition set_var :: "env \<Rightarrow> string \<Rightarrow> string \<Rightarrow> (env, string) result" where
  "set_var e k v =
     (if k = [] \<or> CHR ''='' \<in> set k \<or> CHR 0x00 \<in> set k \<or> CHR 0x00 \<in> set v
      then Panic ''failed to set environment variable'' else Ok (e(k := Some (Unicode v))))"

fun set_wasmedge_vars :: "env \<Rightarrow> string list \<Rightarrow> (env, string) result" where
  "set_wasmedge_vars e [] = Ok e"
| "set_wasmedge_vars e (v # vs) =
     and_then (if starts_with ''WASMEDGE_'' v
               then (case split_once CHR ''='' v of None \<Rightarrow> Ok e | Some (k, x) \<Rightarrow> set_var e k x)
               else Ok e)
       (\<lambda>e. set_wasmedge_vars e vs)"

definition load_plugins :: "'m wasmedge \<Rightarrow> env \<Rightarrow> (string list, string) result" where
  "load_plugins en e =
     (if ed_plugin en then
        and_then (ed_load en e) (\<lambda>_.
        and_then (case var e ''WASMEDGE_WASINN_PRELOAD'' of Ok v \<Rightarrow> ed_parse_preload en v | _ \<Rightarrow> Ok ()) (\<lambda>_.
        if ''wasi_nn'' \<in> set (ed_plugin_names en e)
        then and_then (ed_load_wasi_nn en e) (\<lambda>nm.
               case nm of Some n \<Rightarrow> Ok [n] | None \<Rightarrow> Panic ''called Option::unwrap() on a None value'')
        else Ok []))
      else Ok [])"

definition wasmedge_run :: "'m wasmedge \<Rightarrow> env \<Rightarrow> fs \<Rightarrow> wasi_context \<Rightarrow> (i32, string) result" where
  "wasmedge_run en e f ctx =
     and_then (set_wasmedge_vars e (envs ctx)) (\<lambda>e.
     and_then (load_plugins en e) (\<lambda>instances.
     and_then (ed_wasi_module en (args ctx) (envs ctx)) (\<lambda>wasi.
     and_then (as_bytes f (source (entrypoint_of ctx))) (\<lambda>wasm.
     and_then (ed_from_bytes en wasm) (\<lambda>m.
     and_then (expect ''called Result::unwrap() on an Err value'' (ed_store en (instances @ [wasi]))) (\<lambda>_.
     and_then (map_err (\<lambda>_. ''registering module'') (ed_register en (mod_name ctx) m)) (\<lambda>_.
       case ed_run_func en (mod_name ctx) (func (entrypoint_of ctx)) m of
         (r, code) \<Rightarrow> and_then r (\<lambda>_. Ok code))))))))"

section \<open>All engines keep the contract\<close>

lemma is_ok_and_then: "is_ok (and_then r g) \<longleftrightarrow> (\<exists>a. r = Ok a \<and> is_ok (g a))"
  by (cases r) auto

lemma is_ok_map_err [simp]: "is_ok (map_err g r) = is_ok r"
  by (cases r) auto

interpretation wasmtime: sandbox_engine "\<lambda>f ctx. run_wasi e f ctx sig" for e sig
  by unfold_locales (auto simp: run_wasi_def is_ok_and_then is_ok_iff res_simps)

interpretation wasmer: sandbox_engine "wasmer_run en" for en
  by unfold_locales (auto simp: wasmer_run_def is_ok_and_then)

interpretation wamr: sandbox_engine "wamr_run en" for en
  by unfold_locales (auto simp: wamr_run_def is_ok_and_then res_simps)

interpretation wasmedge: sandbox_engine "wasmedge_run en e" for en e
  by unfold_locales (auto simp: wasmedge_run_def is_ok_and_then)

lemma map_err_id [simp]: "map_err (\<lambda>e. e) r = r"
  by (cases r) auto

text \<open>C29: On all four engines a wasm container whose module cannot be loaded (missing file, unreadable
  file, no or several wasm layers) ends its process with exit status 137, never with a status of a guest; and
  an engine that ends with a status had at most one wasm layer.\<close>

theorem unloadable_module_exits_137:
  assumes "run \<in> {\<lambda>ctx. map_err show_err (run_wasi e f ctx sig), wasmer_run er f, wamr_run em f, wasmedge_run ed env f}"
    and "ex_ty ex = Some Wasm" and "exec f' handles run shim ex spec = (ex', ProcessExit c)"
  shows "(\<not> is_ok (as_bytes f (source (entrypoint_of (executor_ctx ex spec)))) \<longrightarrow> c = 137)
    \<and> (is_ok (run ctx) \<longrightarrow> length (wasm_layers ctx) \<le> 1)"
proof -
  from assms(1) consider "run = (\<lambda>ctx. map_err show_err (run_wasi e f ctx sig))" | "run = wasmer_run er f"
    | "run = wamr_run em f" | "run = wasmedge_run ed env f" by blast
  then show ?thesis
  proof cases
    case 1
    with assms show ?thesis
      using wasmtime.exec_unloadable [of ex f spec f' handles show_err e sig shim ex' c]
        wasmtime.single_layer [of e f ctx sig] by simp
  next
    case 2
    with assms show ?thesis
      using wasmer.exec_unloadable [of ex f spec f' handles "\<lambda>e. e" er shim ex' c] wasmer.single_layer [of er f ctx] by simp
  next
    case 3
    with assms show ?thesis
      using wamr.exec_unloadable [of ex f spec f' handles "\<lambda>e. e" em shim ex' c] wamr.single_layer [of em f ctx] by simp
  next
    case 4
    with assms show ?thesis
      using wasmedge.exec_unloadable [of ex f spec f' handles "\<lambda>e. e" ed env shim ex' c]
        wasmedge.single_layer [of ed env f ctx] by simp
  qed
qed

definition demo_wasmer :: "(unit, unit) wasmer" where
  "demo_wasmer = \<lparr>wr_from_binary = (\<lambda>_. Ok ()), wr_host_fs = Ok (), wr_instantiate = (\<lambda>_ _ _ _. Ok ()),
     wr_get_function = (\<lambda>_ _. Ok ()), wr_call = (\<lambda>_ _. Ok ())\<rparr>"

definition demo_wasm_layer :: wasm_layer where
  "demo_wasm_layer = \<lparr>wl_config = \<lparr>media_type = ''application/wasm'', digest = ''sha256:0''\<rparr>, wl_layer = wasm_magic\<rparr>"

theorem unloadable_module_exits_137_witness:
  "exec demo_fs (\<lambda>_. Ok ()) (wasmer_run demo_wasmer demo_fs) ''wasmer''
     \<lparr>ex_ty = Some Wasm, ex_layers = [demo_wasm_layer, demo_wasm_layer]\<rparr> None
   = (\<lparr>ex_ty = Some Wasm, ex_layers = [demo_wasm_layer, demo_wasm_layer]\<rparr>, ProcessExit 137)"
  (is "exec _ _ _ _ ?ex _ = _")
proof -
  have bytes: "\<not> is_ok (as_bytes demo_fs (source (entrypoint_of (executor_ctx ?ex None))))"
    by (simp add: executor_ctx_def entrypoint_of_def Let_def split: prod.splits)
  obtain c where c: "exec demo_fs (\<lambda>_. Ok ()) (wasmer_run demo_wasmer demo_fs) ''wasmer'' ?ex None = (?ex, ProcessExit c)"
    by (simp add: exec_def executor_ty_def wasmer_run_def executor_ctx_def entrypoint_of_def Let_def split: prod.splits)
  have "(\<not> is_ok (as_bytes demo_fs (source (entrypoint_of (executor_ctx ?ex None)))) \<longrightarrow> c = 137)
    \<and> (is_ok (wasmer_run demo_wasmer demo_fs (executor_ctx ?ex None)) \<longrightarrow> length (wasm_layers (executor_ctx ?ex None)) \<le> 1)"
    by (rule unloadable_module_exits_137 [where er = demo_wasmer and f = demo_fs and run = "wasmer_run demo_wasmer demo_fs",
          OF _ _ c]) simp_all
  with bytes c show ?thesis by simp
qed

section \<open>What the guest gets and gives back\<close>

text \<open>The exit status of a guest: wasmer hands on the argument of \<open>proc_exit\<close>, wasmedge that of its
  WASI module; wamr cannot report one, its status is 0 whenever it is not an error.\<close>

theorem guest_exit_status:
  "wasmer_status (Err (WasiExit c)) = Ok c \<and> wasmer_status (Ok ()) = Ok 0
   \<and> (wamr_run em f ctx = Ok d \<longrightarrow> d = 0)
   \<and> (wasmedge_run ed env f ctx = Ok d \<longrightarrow>
        (\<exists>m. snd (ed_run_func ed (mod_name ctx) (func (entrypoint_of ctx)) m) = d))"
  by (auto simp: wamr_run_def wasmedge_run_def res_simps case_prod_eq) (metis snd_conv)

text \<open>An engine panics on a container without arguments: \<open>&args[1..]\<close> of wasmer, when the module itself comes from
  an OCI layer and could be loaded.\<close>

theorem wasmer_panics_without_args:
  assumes "args ctx = []" and "as_bytes f (source (entrypoint_of ctx)) = Ok wasm"
    and "wr_from_binary en wasm = Ok m" and "wr_host_fs en = Ok ()"
  shows "is_panic (wasmer_run en f ctx)"
  using assms by (simp add: wasmer_run_def)

theorem wasmer_panics_without_args_witness:
  "is_panic (wasmer_run demo_wasmer demo_fs \<lparr>ctx_process = None, wasm_layers = [demo_wasm_layer]\<rparr>)"
  by (rule wasmer_panics_without_args [where wasm = wasm_magic and m = "()"])
    (simp_all add: args_def entrypoint_of_def demo_wasm_layer_def demo_wasmer_def Let_def split: prod.splits)

lemma wasmedge_prefix_key:
  assumes "starts_with ''WASMEDGE_'' v" and "split_once CHR ''='' v = Some (k, x)"
  shows "prefix ''WASMEDGE_'' k"
proof -
  have v: "v = k @ CHR ''='' # x" "CHR ''='' \<notin> set k" using assms(2) by (auto simp: split_once_Some)
  have "prefix ''WASMEDGE_'' v" using assms(1) by (simp add: starts_with_prefix)
  then have "prefix ''WASMEDGE_'' k \<or> (\<exists>ys. ''WASMEDGE_'' = k @ CHR ''='' # ys)"
    unfolding v by (auto simp: prefix_append prefix_Cons)
  moreover have "CHR ''='' \<notin> set ''WASMEDGE_''" by simp
  ultimately show ?thesis by (metis in_set_conv_decomp)
qed

text \<open>What one entry of the container's environment does to the process environment.\<close>

definition copied :: "string \<Rightarrow> (string \<times> string) option" where
  "copied v = (if starts_with ''WASMEDGE_'' v then split_once CHR ''='' v else None)"

lemma set_wasmedge_vars_Cons:
  "set_wasmedge_vars e (v # vs) =
     (case copied v of None \<Rightarrow> set_wasmedge_vars e vs
      | Some (k, x) \<Rightarrow> and_then (set_var e k x) (\<lambda>e. set_wasmedge_vars e vs))"
  by (auto simp: copied_def split: option.splits)

lemma copied_key: "copied v = Some (k, x) \<Longrightarrow> prefix ''WASMEDGE_'' k \<and> v = k @ ''='' @ x \<and> CHR ''='' \<notin> set k"
  by (auto simp: copied_def wasmedge_prefix_key split_once_Some split: if_splits)

lemma set_wasmedge_vars_lookup:
  "set_wasmedge_vars e vs = Ok e' \<Longrightarrow>
   e' k = (case map_of (rev (filter_map copied vs)) k of Some x \<Rightarrow> Some (Unicode x) | None \<Rightarrow> e k)"
proof (induction vs arbitrary: e)
  case (Cons v vs)
  show ?case
  proof (cases "copied v")
    case None
    then show ?thesis using Cons unfolding set_wasmedge_vars_Cons by (simp add: filter_map_def List.map_filter_simps)
  next
    case (Some kx)
    then obtain k' x where kx: "copied v = Some (k', x)" by (cases kx) auto
    have step: "set_wasmedge_vars (e(k' := Some (Unicode x))) vs = Ok e'"
      using Cons.prems kx unfolding set_wasmedge_vars_Cons by (auto simp: set_var_def split: if_splits)
    show ?thesis using Cons.IH [OF step] kx
      by (auto simp: filter_map_def List.map_filter_simps map_add_def split: option.splits)
  qed
qed (simp add: filter_map_def List.map_filter_simps)

lemma filter_map_append: "filter_map g (xs @ ys) = filter_map g xs @ filter_map g ys"
  by (simp add: filter_map_def List.map_filter_def)

lemma filter_map_Cons:
  "filter_map g (x # xs) = (case g x of None \<Rightarrow> filter_map g xs | Some y \<Rightarrow> y # filter_map g xs)"
  by (auto simp: filter_map_def List.map_filter_simps split: option.splits)

lemma set_wasmedge_vars_ok:
  "\<forall>v \<in> set vs. CHR 0x00 \<notin> set v \<Longrightarrow> is_ok (set_wasmedge_vars e vs)"
proof (induction vs arbitrary: e)
  case (Cons v vs)
  then show ?case
    using copied_key [of v] unfolding set_wasmedge_vars_Cons
    by (fastforce simp: set_var_def split: option.splits)
qed simp

text \<open>wasmedge copies variables of the container into the environment of its own process before it loads
  plugins: those with an entry \<open>WASMEDGE_...=value\<close>, the last entry of a name winning. Entries without
  \<open>=\<close> are ignored, every variable that does not begin with \<open>WASMEDGE_\<close> keeps its value, and it fails only
  if there is a NUL byte.\<close>

theorem wasmedge_process_environment:
  assumes "\<forall>v \<in> set (pre @ post). CHR 0x00 \<notin> set v" and "CHR 0x00 \<notin> set (k @ x)" and "CHR ''='' \<notin> set k"
    and "\<forall>v \<in> set post. \<not> prefix (k @ ''='') v" and "prefix ''WASMEDGE_'' k"
  shows "\<exists>e'. set_wasmedge_vars e (pre @ (k @ ''='' @ x) # post) = Ok e' \<and> e' k = Some (Unicode x)
    \<and> (\<forall>k'. \<not> prefix ''WASMEDGE_'' k' \<longrightarrow> e' k' = e k')"
proof -
  let ?vs = "pre @ (k @ ''='' @ x) # post"
  have "is_ok (set_wasmedge_vars e ?vs)" using assms(1,2) by (intro set_wasmedge_vars_ok) auto
  then obtain e' where e': "set_wasmedge_vars e ?vs = Ok e'" by (auto simp: is_ok_iff)
  have "copied (k @ ''='' @ x) = Some (k, x)"
    using assms(3,5) by (auto simp: copied_def starts_with_prefix split_once_Some prefix_append)
  moreover have "map_of (rev (filter_map copied post)) k = None"
  proof (rule ccontr)
    assume "map_of (rev (filter_map copied post)) k \<noteq> None"
    then obtain y where "(k, y) \<in> set (filter_map copied post)" by (auto dest: map_of_SomeD)
    then obtain v where "v \<in> set post" "copied v = Some (k, y)" by (auto simp: set_filter_map)
    then show False using assms(4) copied_key [of v k y] by (auto simp: prefix_def)
  qed
  ultimately have "map_of (rev (filter_map copied ?vs)) k = Some x"
    by (simp add: filter_map_append filter_map_Cons map_add_def)
  then have "e' k = Some (Unicode x)" using set_wasmedge_vars_lookup [OF e', of k] by simp
  moreover have "e' k' = e k'" if "\<not> prefix ''WASMEDGE_'' k'" for k'
  proof -
    have "map_of (rev (filter_map copied ?vs)) k' = None"
    proof (rule ccontr)
      assume "map_of (rev (filter_map copied ?vs)) k' \<noteq> None"
      then obtain y where "(k', y) \<in> set (filter_map copied ?vs)" by (auto dest!: map_of_SomeD)
      then show False using that copied_key [of _ k' y] unfolding set_filter_map by blast
    qed
    then show ?thesis using set_wasmedge_vars_lookup [OF e', of k'] by simp
  qed
  ultimately show ?thesis using e' by blast
qed

theorem wasmedge_process_environment_witness:
  "\<exists>e'. set_wasmedge_vars (\<lambda>_. None) [''PATH=/bin'', ''WASMEDGE_A=1''] = Ok e' \<and> e' ''WASMEDGE_A'' = Some (Unicode ''1'')
     \<and> e' ''PATH'' = None"
  using wasmedge_process_environment [of "[''PATH=/bin'']" "[]" "''WASMEDGE_A''" "''1''" "\<lambda>_. None"]
  by (auto simp del: set_wasmedge_vars.simps)

end
