(* ===== verification/Tar_Builder.thy ===== *)
theory Tar_Builder
  imports Base
begin

text \<open>
  The OCI image writer (\<open>oci-tar-builder/src/lib.rs\<close>).

  SHA-256, the file system, the JSON serialisers and the check of a digest are outside: they are
  the fields of \<open>tar_env\<close>. The archive is the list of the entries that \<open>tar::Builder::append\<close>
  gets: path, mode, size and content.
\<close>

section \<open>Data\<close>

record 'c builder =
  b_configs :: "('c \<times> string \<times> string) list"
  b_layers :: "(path \<times> string) list"

record tar_entry =
  te_path :: path
  te_mode :: nat
  te_size :: nat
  te_data :: string

record platform =
  pl_os :: string
  pl_architecture :: string

record descriptor =
  d_media_type :: string
  d_digest :: string
  d_size :: nat
  d_platform :: "platform option"
  d_annotations :: "(string \<times> string) list option"

record image_manifest =
  im_config :: descriptor
  im_layers :: "descriptor list"
  im_annotations :: "(string \<times> string) list"

record docker_manifest =
  dm_config :: string
  dm_repo_tags :: "string list"
  dm_layers :: "string list"

text \<open>The trait \<open>OciConfig\<close> of the image configuration.\<close>

record 'c oci_config =
  oc_os :: "'c \<Rightarrow> string"
  oc_architecture :: "'c \<Rightarrow> string"
  oc_to_string :: "'c \<Rightarrow> string"

record oci_layout =
  image_layout_version :: string

definition oci_layout_default :: oci_layout where
  "oci_layout_default = \<lparr>image_layout_version = ''1.0.0''\<rparr>"

record tar_env =
  te_sha256 :: "string \<Rightarrow> string"
  te_read :: "path \<Rightarrow> (string, string) result"
  te_parse_digest :: "string \<Rightarrow> (string, string) result"
  te_manifest_json :: "image_manifest \<Rightarrow> string"
  te_index_json :: "descriptor list \<Rightarrow> string"
  te_layout_json :: "oci_layout \<Rightarrow> string"
  te_docker_json :: "docker_manifest list \<Rightarrow> string"

definition MEDIA_TYPE_IMAGE_LAYER :: string where
  "MEDIA_TYPE_IMAGE_LAYER = ''application/vnd.oci.image.layer.v1.tar''"

definition MEDIA_TYPE_IMAGE_MANIFEST :: string where
  "MEDIA_TYPE_IMAGE_MANIFEST = ''application/vnd.oci.image.manifest.v1+json''"

definition WASM_LAYER_MEDIA_TYPE :: string where
  "WASM_LAYER_MEDIA_TYPE = ''application/vnd.bytecodealliance.wasm.component.layer.v0+wasm''"

section \<open>Builder\<close>

definition builder_default :: "'c builder" where
  "builder_default = \<lparr>b_configs = [], b_layers = []\<rparr>"

definition add_config :: "'c builder \<Rightarrow> 'c \<Rightarrow> string \<Rightarrow> string \<Rightarrow> 'c builder" where
  "add_config b config name mt = b\<lparr>b_configs := b_configs b @ [(config, name, mt)]\<rparr>"

definition add_layer :: "'c builder \<Rightarrow> path \<Rightarrow> 'c builder" where
  "add_layer b layer = b\<lparr>b_layers := b_layers b @ [(layer, [])]\<rparr>"

definition add_layer_with_media_type :: "'c builder \<Rightarrow> path \<Rightarrow> string \<Rightarrow> 'c builder" where
  "add_layer_with_media_type b layer mt = b\<lparr>b_layers := b_layers b @ [(layer, mt)]\<rparr>"

definition blob_path :: "string \<Rightarrow> path" where
  "blob_path dgst = ''blobs/sha256/'' @ dgst"

definition blob :: "tar_env \<Rightarrow> string \<Rightarrow> tar_entry" where
  "blob env data = \<lparr>te_path = blob_path (te_sha256 env data), te_mode = 0x124, te_size = length data, te_data = data\<rparr>"

definition meta_file :: "path \<Rightarrow> string \<Rightarrow> tar_entry" where
  "meta_file p data = \<lparr>te_path = p, te_mode = 0x1A4, te_size = length data, te_data = data\<rparr>"

definition mk_descriptor :: "tar_env \<Rightarrow> string \<Rightarrow> string \<Rightarrow> (descriptor, string) result" where
  "mk_descriptor env mt data =
     and_then (te_parse_digest env (''sha256:'' @ te_sha256 env data)) (\<lambda>d.
       Ok \<lparr>d_media_type = mt, d_digest = d, d_size = length data, d_platform = None, d_annotations = None\<rparr>)"

text \<open>\<open>IndexMap::insert\<close> keeps the place of a key that is there; the archive and the docker
  manifest get an entry for every layer.\<close>

record build_state =
  bs_tar :: "tar_entry list"
  bs_digests :: "(string \<times> descriptor) list"
  bs_mfst :: docker_manifest

definition build_layer ::
  "tar_env \<Rightarrow> build_state \<Rightarrow> path \<times> string \<Rightarrow> (build_state, string) result" where
  "build_layer env s layer =
     and_then (map_err (\<lambda>_. ''failed to digest layer'') (te_read env (fst layer))) (\<lambda>data.
     and_then (mk_descriptor env (if snd layer = [] then MEDIA_TYPE_IMAGE_LAYER else snd layer) data) (\<lambda>desc.
       Ok (s\<lparr>bs_tar := bs_tar s @ [blob env data],
             bs_digests := AList.update (''sha256:'' @ te_sha256 env data) desc (bs_digests s),
             bs_mfst := (bs_mfst s)\<lparr>dm_layers := dm_layers (bs_mfst s) @ [blob_path (te_sha256 env data)]\<rparr>\<rparr>)))"

fun build_layers :: "tar_env \<Rightarrow> build_state \<Rightarrow> (path \<times> string) list \<Rightarrow> (build_state, string) result" where
  "build_layers env s [] = Ok s"
| "build_layers env s (l # ls) = and_then (build_layer env s l) (\<lambda>s. build_layers env s ls)"

text \<open>\<open>config.1.split(':')[1]\<close>: the piece after the first colon.\<close>

definition ref_name :: "string \<Rightarrow> string option" where
  "ref_name img = (case split_on CHR '':'' img of _ # t # _ \<Rightarrow> Some t | _ \<Rightarrow> None)"

definition annotations_of :: "string \<Rightarrow> (string \<times> string) list" where
  "annotations_of img =
     (case ref_name img of
        Some t \<Rightarrow> [(''org.opencontainers.image.ref.name'', t), (''io.containerd.image.name'', img)]
      | None \<Rightarrow> [(''io.containerd.image.name'', img)])"

definition build_config ::
  "tar_env \<Rightarrow> 'c oci_config \<Rightarrow> build_state \<Rightarrow> 'c \<times> string \<times> string \<Rightarrow> (build_state \<times> descriptor, string) result" where
  "build_config env oc s cfg =
     (case cfg of (config, name, mt) \<Rightarrow>
       (let b = oc_to_string oc config
        in and_then (mk_descriptor env mt b) (\<lambda>desc.
           (let ann = annotations_of name;
                manifest = te_manifest_json env \<lparr>im_config = desc, im_layers = map snd (bs_digests s), im_annotations = ann\<rparr>
            in and_then (mk_descriptor env MEDIA_TYPE_IMAGE_MANIFEST manifest) (\<lambda>mdesc.
                 Ok (s\<lparr>bs_tar := bs_tar s @ [blob env b, blob env manifest],
                       bs_mfst := (bs_mfst s)\<lparr>dm_config := blob_path (te_sha256 env b),
                                              dm_repo_tags := dm_repo_tags (bs_mfst s) @ [name]\<rparr>\<rparr>,
                     mdesc\<lparr>d_platform := Some \<lparr>pl_os = oc_os oc config, pl_architecture = oc_architecture oc config\<rparr>,
                           d_annotations := Some ann\<rparr>))))))"

fun build_configs ::
  "tar_env \<Rightarrow> 'c oci_config \<Rightarrow> build_state \<Rightarrow> ('c \<times> string \<times> string) list \<Rightarrow>
   (build_state \<times> descriptor list, string) result" where
  "build_configs env oc s [] = Ok (s, [])"
| "build_configs env oc s (c # cs) =
     and_then (build_config env oc s c) (\<lambda>(s, d).
     and_then (build_configs env oc s cs) (\<lambda>(s, ds). Ok (s, d # ds)))"

text \<open>The end of \<open>build\<close>: the index, the layout and the docker manifest.\<close>

definition metadata_entries :: "tar_env \<Rightarrow> descriptor list \<Rightarrow> docker_manifest \<Rightarrow> tar_entry list" where
  "metadata_entries env manifests mfst =
     [meta_file ''index.json'' (te_index_json env manifests), meta_file ''oci-layout'' (te_layout_json env oci_layout_default),
      meta_file ''manifest.json'' (te_docker_json env [mfst])]"

definition build :: "tar_env \<Rightarrow> 'c oci_config \<Rightarrow> 'c builder \<Rightarrow> (tar_entry list, string) result" where
  "build env oc b =
     (if 1 < length (b_configs b) then Err ''only one config is supported''
      else and_then (build_layers env
             \<lparr>bs_tar = [], bs_digests = [], bs_mfst = \<lparr>dm_config = [], dm_repo_tags = [], dm_layers = []\<rparr>\<rparr> (b_layers b))
        (\<lambda>s. and_then (build_configs env oc s (b_configs b)) (\<lambda>(s, manifests).
          Ok (bs_tar s @ metadata_entries env manifests (bs_mfst s)))))"

section \<open>The archive\<close>

definition content_addressed :: "tar_env \<Rightarrow> tar_entry \<Rightarrow> bool" where
  "content_addressed env e \<longleftrightarrow> te_path e = blob_path (te_sha256 env (te_data e)) \<and> te_size e = length (te_data e)"

lemma content_addressed_blob [simp]: "content_addressed env (blob env data)"
  by (simp add: content_addressed_def blob_def)

text \<open>What the layers leave: every descriptor that was recorded has its blob in the archive.\<close>

definition has_blob :: "tar_env \<Rightarrow> tar_entry list \<Rightarrow> descriptor \<Rightarrow> bool" where
  "has_blob env tar d \<longleftrightarrow>
     (\<exists>e \<in> set tar. d_digest d = ''sha256:'' @ te_sha256 env (te_data e) \<and> te_size e = d_size d)"

definition layers_ok :: "tar_env \<Rightarrow> build_state \<Rightarrow> bool" where
  "layers_ok env s \<longleftrightarrow>
     (\<forall>e \<in> set (bs_tar s). content_addressed env e) \<and>
     distinct (map fst (bs_digests s)) \<and>
     (\<forall>k d. (k, d) \<in> set (bs_digests s) \<longrightarrow> k = d_digest d \<and> has_blob env (bs_tar s) d)"

lemma has_blob_append: "has_blob env tar d \<Longrightarrow> has_blob env (tar @ extra) d"
  by (auto simp: has_blob_def)

lemma has_blob_new:
  "d_digest d = ''sha256:'' @ te_sha256 env data \<Longrightarrow> d_size d = length data \<Longrightarrow> has_blob env (tar @ [blob env data]) d"
  by (simp add: has_blob_def blob_def)

lemma mk_descriptor_Ok:
  assumes "\<And>x d. te_parse_digest env x = Ok d \<Longrightarrow> d = x" and "mk_descriptor env mt data = Ok d"
  shows "d_digest d = ''sha256:'' @ te_sha256 env data \<and> d_size d = length data \<and> d_media_type d = mt"
  using assms by (auto simp: mk_descriptor_def res_simps)

lemma set_update_cases: "(k, v) \<in> set (AList.update k' v' al) \<Longrightarrow> distinct (map fst al) \<Longrightarrow>
    (k = k' \<and> v = v') \<or> (k \<noteq> k' \<and> (k, v) \<in> set al)"
  by (induction al) (auto split: if_splits simp: image_iff)

lemma layers_ok_step:
  assumes "\<And>x d. te_parse_digest env x = Ok d \<Longrightarrow> d = x"
    and "layers_ok env s" and "build_layer env s l = Ok s'"
  shows "layers_ok env s'"
proof -
  obtain data desc where m: "mk_descriptor env (if snd l = [] then MEDIA_TYPE_IMAGE_LAYER else snd l) data = Ok desc"
    and tar: "bs_tar s' = bs_tar s @ [blob env data]"
    and dig: "bs_digests s' = AList.update (''sha256:'' @ te_sha256 env data) desc (bs_digests s)"
    using assms(3) by (auto simp: build_layer_def res_simps)
  note d = mk_descriptor_Ok [OF assms(1) m]
  have dist: "distinct (map fst (bs_digests s))"
    and old: "\<And>k x. (k, x) \<in> set (bs_digests s) \<Longrightarrow> k = d_digest x \<and> has_blob env (bs_tar s) x"
    and ca: "\<forall>e \<in> set (bs_tar s). content_addressed env e"
    using assms(2) by (auto simp: layers_ok_def)
  have "k = d_digest x \<and> has_blob env (bs_tar s') x" if "(k, x) \<in> set (bs_digests s')" for k x
    using set_update_cases [OF that [unfolded dig] dist]
  proof
    assume "k = ''sha256:'' @ te_sha256 env data \<and> x = desc"
    then show ?thesis using d has_blob_new [of x env data] by (simp add: tar)
  next
    assume "k \<noteq> ''sha256:'' @ te_sha256 env data \<and> (k, x) \<in> set (bs_digests s)"
    then show ?thesis using old [of k x] has_blob_append [of env "bs_tar s" x] by (simp add: tar)
  qed
  then show ?thesis
    using ca dist unfolding layers_ok_def dig by (simp add: tar distinct_update)
qed

lemma layers_ok_build:
  assumes "\<And>x d. te_parse_digest env x = Ok d \<Longrightarrow> d = x"
  shows "layers_ok env s \<Longrightarrow> build_layers env s ls = Ok s' \<Longrightarrow> layers_ok env s'"
proof (induction ls arbitrary: s)
  case (Cons l ls)
  obtain t where t: "build_layer env s l = Ok t" and rest: "build_layers env t ls = Ok s'"
    using Cons.prems(2) by (auto simp: res_simps)
  from Cons.IH [OF layers_ok_step [OF assms Cons.prems(1) t] rest] show ?case .
qed simp

text \<open>The layers come out in the order in which they were added.\<close>

definition layer_media :: "path \<times> string \<Rightarrow> string" where
  "layer_media l = (if snd l = [] then MEDIA_TYPE_IMAGE_LAYER else snd l)"

lemma build_layers_tar:
  assumes "build_layers env s ls = Ok s'"
  shows "\<exists>datas. list_all2 (\<lambda>l d. te_read env (fst l) = Ok d) ls datas
    \<and> bs_tar s' = bs_tar s @ map (blob env) datas
    \<and> dm_layers (bs_mfst s') = dm_layers (bs_mfst s) @ map (\<lambda>d. blob_path (te_sha256 env d)) datas
    \<and> fst ` set (bs_digests s') = fst ` set (bs_digests s) \<union> (\<lambda>d. ''sha256:'' @ te_sha256 env d) ` set datas"
  using assms
proof (induction ls arbitrary: s)
  case (Cons l ls)
  obtain data desc t where r: "te_read env (fst l) = Ok data"
    and t: "t = s\<lparr>bs_tar := bs_tar s @ [blob env data],
             bs_digests := AList.update (''sha256:'' @ te_sha256 env data) desc (bs_digests s),
             bs_mfst := (bs_mfst s)\<lparr>dm_layers := dm_layers (bs_mfst s) @ [blob_path (te_sha256 env data)]\<rparr>\<rparr>"
    and rest: "build_layers env t ls = Ok s'"
    using Cons.prems by (auto simp: build_layer_def res_simps)
  from Cons.IH [OF rest] obtain datas where
    "list_all2 (\<lambda>l d. te_read env (fst l) = Ok d) ls datas"
    "bs_tar s' = bs_tar t @ map (blob env) datas"
    "dm_layers (bs_mfst s') = dm_layers (bs_mfst t) @ map (\<lambda>d. blob_path (te_sha256 env d)) datas"
    "fst ` set (bs_digests s') = fst ` set (bs_digests t) \<union> (\<lambda>d. ''sha256:'' @ te_sha256 env d) ` set datas"
    by blast
  with r show ?case
    by (intro exI [of _ "data # datas"]) (auto simp: t dom_update)
qed simp

lemma build_Ok:
  assumes "build env oc b = Ok tar" and "b_configs b = [(config, name, mt)]"
  shows "\<exists>s desc mdesc manifest.
    build_layers env \<lparr>bs_tar = [], bs_digests = [], bs_mfst = \<lparr>dm_config = [], dm_repo_tags = [], dm_layers = []\<rparr>\<rparr>
      (b_layers b) = Ok s
    \<and> mk_descriptor env mt (oc_to_string oc config) = Ok desc
    \<and> manifest = \<lparr>im_config = desc, im_layers = map snd (bs_digests s), im_annotations = annotations_of name\<rparr>
    \<and> mk_descriptor env MEDIA_TYPE_IMAGE_MANIFEST (te_manifest_json env manifest) = Ok mdesc
    \<and> tar = bs_tar s @ [blob env (oc_to_string oc config), blob env (te_manifest_json env manifest),
        meta_file ''index.json'' (te_index_json env [mdesc\<lparr>d_platform := Some \<lparr>pl_os = oc_os oc config,
           pl_architecture = oc_architecture oc config\<rparr>, d_annotations := Some (annotations_of name)\<rparr>]),
        meta_file ''oci-layout'' (te_layout_json env oci_layout_default),
        meta_file ''manifest.json'' (te_docker_json env [(bs_mfst s)\<lparr>dm_config :=
           blob_path (te_sha256 env (oc_to_string oc config)), dm_repo_tags := dm_repo_tags (bs_mfst s) @ [name]\<rparr>])]"
  using assms by (auto simp: build_def metadata_entries_def build_config_def res_simps Let_def)


definition demo_tar_env :: tar_env where
  "demo_tar_env =
     \<lparr>te_sha256 = (\<lambda>s. s), te_read = (\<lambda>p. Ok p), te_parse_digest = (\<lambda>s. Ok s), te_manifest_json = (\<lambda>m. ''M''),
      te_index_json = (\<lambda>ds. ''I''), te_layout_json = (\<lambda>l. ''L''), te_docker_json = (\<lambda>ds. ''D'')\<rparr>"

definition demo_oci_config :: "string oci_config" where
  "demo_oci_config = \<lparr>oc_os = (\<lambda>c. ''wasip1''), oc_architecture = (\<lambda>c. ''wasm''), oc_to_string = (\<lambda>c. c)\<rparr>"


section \<open>Names and options\<close>

text \<open>The annotation \<open>org.opencontainers.image.ref.name\<close> is the tag as long as the repository has no
  colon. With a registry port (\<open>localhost:5000/app:v1\<close>) it is the text between the first two
  colons, \<open>5000/app\<close>, not the tag.\<close>

theorem ref_name_is_tag_unless_port:
  assumes "CHR '':'' \<notin> set host" and "CHR '':'' \<notin> set rest" and "CHR '':'' \<notin> set tag"
  shows "ref_name (rest @ '':'' @ tag) = Some tag
    \<and> ref_name (host @ '':'' @ rest @ '':'' @ tag) = Some rest
    \<and> map_of (annotations_of (rest @ '':'' @ tag)) ''org.opencontainers.image.ref.name'' = Some tag"
  using split_on_append [OF assms(1), of "rest @ '':'' @ tag"] split_on_append [OF assms(2), of tag]
    split_on_none [OF assms(3)]
  by (simp add: ref_name_def annotations_of_def)

theorem ref_name_is_tag_unless_port_witness:
  "ref_name (''localhost'' @ '':'' @ ''5000/app'' @ '':'' @ ''v1'') = Some ''5000/app''"
  using ref_name_is_tag_unless_port [of "''localhost''" "''5000/app''" "''v1''"] by simp

end
