(* ===== verification/Tar_Tool.thy ===== *)
theory Tar_Tool
  imports Tar_Builder
begin

text \<open>
  The command line tool around the image writer (\<open>oci-tar-builder/src/bin.rs\<close>): the choice of the
  kind of image, the layers and the configuration, and the output file.

  Outside are the file system, the configuration builders and the analysis of a module by
  \<open>oci_wasm\<close>: they are the fields of \<open>tool_env\<close>. The state is the content of the output files; a
  file that was created and not finished is \<open>Partial\<close>.
\<close>

section \<open>Arguments\<close>

record tar_args =
  ta_out_path :: "path option"
  ta_name :: string
  ta_tag :: string
  ta_repo :: string
  ta_module :: "string list"
  ta_layer :: "string list"
  ta_components :: "string option"
  ta_as_artifact :: bool

text \<open>\<open>--layer type=path\<close>: the first and the last piece between equals signs.\<close>

definition layer_option :: "string \<Rightarrow> string \<times> path" where
  "layer_option l = (hd (split_on CHR ''='' l), last (split_on CHR ''='' l))"

definition image_name :: "tar_args \<Rightarrow> string" where
  "image_name a = ta_repo a @ ''/'' @ ta_name a @ '':'' @ ta_tag a"

record ('c, 'k) tool_env =
  tl_tar :: tar_env
  tl_oci :: "'c oci_config"
  tl_oci_wasm :: "'k oci_config"
  tl_mk_config :: "string list \<Rightarrow> (string \<times> string) list \<Rightarrow> ('c, string) result"
  tl_from_component :: "path \<Rightarrow> ('k, string) result"
  tl_from_module :: "path \<Rightarrow> ('k, string) result"
  tl_read_dir :: "path \<Rightarrow> ((path, string) result list, string) result"
  tl_create :: "path \<Rightarrow> (unit, string) result"
  tl_remove :: "path \<Rightarrow> (unit, string) result"
  tl_create_dir_all :: "path \<Rightarrow> (unit, string) result"
  tl_current_dir :: "(path, string) result"
  tl_parent :: "path \<Rightarrow> path option"
  tl_wasm_config_media_type :: string
  tl_wasm_layer_media_type :: string

datatype out_file = Complete "tar_entry list" | Partial

type_synonym out_files = "path \<Rightarrow> out_file option"

section \<open>Writing the file\<close>

text \<open>After \<open>File::create\<close>: when \<open>build\<close> fails, the file is removed and the failure is only printed.\<close>

definition write_image ::
  "('c, 'k) tool_env \<Rightarrow> 'd oci_config \<Rightarrow> 'd builder \<Rightarrow> string \<Rightarrow> path \<Rightarrow> out_files \<Rightarrow> out_files \<times> (unit, string) result" where
  "write_image env oc b failed_to_remove out w =
     (case build (tl_tar env) oc b of
        Ok tar \<Rightarrow> (w(out \<mapsto> Complete tar), Ok ())
      | Panic m \<Rightarrow> (w(out \<mapsto> Partial), Panic m)
      | Err e \<Rightarrow>
          (case tl_remove env out of
             Ok _ \<Rightarrow> (w(out := None), Ok ())
           | Err e \<Rightarrow> (w(out \<mapsto> Partial), Err failed_to_remove)
           | Panic m \<Rightarrow> (w(out \<mapsto> Partial), Panic m)))"

text \<open>\<open>unwrap\<close>: an error is a panic.\<close>

definition unwrap :: "('a, string) result \<Rightarrow> ('a, string) result" where
  "unwrap r = (case r of Err e \<Rightarrow> Panic e | _ \<Rightarrow> r)"

section \<open>generate_wasi_image\<close>

definition digest_file :: "tar_env \<Rightarrow> path \<Rightarrow> (string, string) result" where
  "digest_file env p =
     and_then (map_err (\<lambda>_. ''failed to calculate digest for module'') (te_read env p)) (\<lambda>d. Ok (te_sha256 env d))"

text \<open>The builder and the digests so far.\<close>

type_synonym 'c layers = "'c builder \<times> string list"

definition add_digested :: "tar_env \<Rightarrow> 'c layers \<Rightarrow> path \<Rightarrow> string \<Rightarrow> ('c layers, string) result" where
  "add_digested env bl p mt =
     and_then (digest_file env p) (\<lambda>d. Ok (add_layer_with_media_type (fst bl) p mt, snd bl @ [d]))"

fun add_modules :: "tar_env \<Rightarrow> 'c layers \<Rightarrow> path list \<Rightarrow> ('c layers, string) result" where
  "add_modules env bl [] = Ok bl"
| "add_modules env bl (p # ps) =
     and_then (add_digested env bl p WASM_LAYER_MEDIA_TYPE) (\<lambda>bl. add_modules env bl ps)"

fun add_layer_options :: "tar_env \<Rightarrow> 'c layers \<Rightarrow> string list \<Rightarrow> ('c layers, string) result" where
  "add_layer_options env bl [] = Ok bl"
| "add_layer_options env bl (l # ls) =
     and_then (add_digested env bl (snd (layer_option l)) (fst (layer_option l))) (\<lambda>bl. add_layer_options env bl ls)"

definition is_wasm_file :: "path \<Rightarrow> bool" where
  "is_wasm_file p \<longleftrightarrow> (case extension p of Some e \<Rightarrow> e | None \<Rightarrow> []) = ''wasm''"

fun add_components :: "tar_env \<Rightarrow> 'c layers \<Rightarrow> (path, string) result list \<Rightarrow> ('c layers, string) result" where
  "add_components env bl [] = Ok bl"
| "add_components env bl (r # rs) =
     and_then r (\<lambda>p.
     and_then (if is_wasm_file p then add_digested env bl p WASM_LAYER_MEDIA_TYPE else Ok bl) (\<lambda>bl.
       add_components env bl rs))"

definition MEDIA_TYPE_IMAGE_CONFIG :: string where
  "MEDIA_TYPE_IMAGE_CONFIG = ''application/vnd.oci.image.config.v1+json''"

text \<open>The label that makes every configuration unique.\<close>

definition layers_label :: "tar_env \<Rightarrow> string list \<Rightarrow> string \<times> string" where
  "layers_label env digests = (''containerd.runwasi.layers'', te_sha256 env (concat digests))"

definition wasi_image_layers :: "('c, 'k) tool_env \<Rightarrow> tar_args \<Rightarrow> ('c layers, string) result" where
  "wasi_image_layers env a =
     and_then (add_modules (tl_tar env) (builder_default, []) (ta_module a)) (\<lambda>bl.
     and_then (add_layer_options (tl_tar env) bl (ta_layer a)) (\<lambda>bl.
       case ta_components a of
         None \<Rightarrow> Ok bl
       | Some dir \<Rightarrow> and_then (tl_read_dir env dir) (\<lambda>entries. add_components (tl_tar env) bl entries)))"

definition generate_wasi_image ::
  "('c, 'k) tool_env \<Rightarrow> tar_args \<Rightarrow> path \<Rightarrow> out_files \<Rightarrow> out_files \<times> (unit, string) result" where
  "generate_wasi_image env a out w =
     st_then (w, wasi_image_layers env a) (\<lambda>w bl.
     st_then (w, tl_mk_config env [ta_name a @ ''.wasm''] [layers_label (tl_tar env) (snd bl)]) (\<lambda>w conf.
     st_then (w, unwrap (tl_create env out)) (\<lambda>w _.
       write_image env (tl_oci env) (add_config (fst bl) conf (image_name a) MEDIA_TYPE_IMAGE_CONFIG)
         ''Failed to remove temporary file'' out w)))"

section \<open>generate_wasm_artifact\<close>

definition artifact_config :: "('c, 'k) tool_env \<Rightarrow> tar_args \<Rightarrow> ('k \<times> path, string) result" where
  "artifact_config env a =
     (case ta_components a of
        Some p \<Rightarrow> and_then (tl_read_dir env p) (\<lambda>_. and_then (tl_from_component env p) (\<lambda>conf. Ok (conf, p)))
      | None \<Rightarrow>
          (case ta_module a of
             [] \<Rightarrow> Panic ''called Option::unwrap() on a None value''
           | m # _ \<Rightarrow> and_then (tl_from_module env m) (\<lambda>conf. Ok (conf, m))))"

definition generate_wasm_artifact ::
  "('c, 'k) tool_env \<Rightarrow> tar_args \<Rightarrow> path \<Rightarrow> out_files \<Rightarrow> out_files \<times> (unit, string) result" where
  "generate_wasm_artifact env a out w =
     st_then (w, artifact_config env a) (\<lambda>w (conf, p).
     st_then (w, tl_create env out) (\<lambda>w _.
       write_image env (tl_oci_wasm env)
         (add_layer_with_media_type
           (add_config builder_default conf (image_name a) (tl_wasm_config_media_type env)) p (tl_wasm_layer_media_type env))
         ''Failed to clean up oci tar file on error'' out w))"

section \<open>main\<close>

text \<open>The process ends normally (exit code 0) or panics.\<close>

definition unwrap_out :: "out_files \<times> (unit, string) result \<Rightarrow> out_files \<times> (unit, string) result" where
  "unwrap_out p = (fst p, unwrap (snd p))"

definition out_dir :: "('c, 'k) tool_env \<Rightarrow> tar_args \<Rightarrow> (path, string) result" where
  "out_dir env a =
     (case ta_out_path a of
        Some p \<Rightarrow>
          (case tl_parent env p of
             None \<Rightarrow> Panic ''called Option::unwrap() on a None value''
           | Some d \<Rightarrow> and_then (unwrap (tl_create_dir_all env d)) (\<lambda>_. Ok p))
      | None \<Rightarrow> unwrap (tl_current_dir env))"

definition tool_main :: "('c, 'k) tool_env \<Rightarrow> tar_args \<Rightarrow> out_files \<Rightarrow> out_files \<times> (unit, string) result" where
  "tool_main env a w =
     st_then (w, out_dir env a) (\<lambda>w out.
       if ta_module a \<noteq> [] \<and> ta_components a \<noteq> None then (w, Ok ())
       else if ta_module a = [] \<and> ta_components a = None then (w, Ok ())
       else if ta_as_artifact a then unwrap_out (generate_wasm_artifact env a out w)
       else unwrap_out (generate_wasi_image env a out w))"

section \<open>The layers and the label\<close>

definition digested :: "tar_env \<Rightarrow> 'c layers \<Rightarrow> bool" where
  "digested env bl \<longleftrightarrow> list_all2 (\<lambda>l d. digest_file env (fst l) = Ok d) (b_layers (fst bl)) (snd bl)
     \<and> b_configs (fst bl) = []"

lemma add_digested_Ok:
  assumes "add_digested env bl p mt = Ok bl'" and "digested env bl"
  shows "digested env bl' \<and> b_layers (fst bl') = b_layers (fst bl) @ [(p, mt)]"
proof -
  obtain d where "digest_file env p = Ok d" "bl' = (add_layer_with_media_type (fst bl) p mt, snd bl @ [d])"
    using assms(1) by (auto simp: add_digested_def res_simps)
  moreover have "length (b_layers (fst bl)) = length (snd bl)"
    using assms(2) by (auto simp: digested_def dest: list_all2_lengthD)
  ultimately show ?thesis
    using assms(2) by (simp add: digested_def add_layer_with_media_type_def list_all2_append)
qed

lemma add_modules_Ok:
  "add_modules env bl ps = Ok bl' \<Longrightarrow> digested env bl \<Longrightarrow>
   digested env bl' \<and> b_layers (fst bl') = b_layers (fst bl) @ map (\<lambda>p. (p, WASM_LAYER_MEDIA_TYPE)) ps"
proof (induction ps arbitrary: bl)
  case (Cons p ps)
  then obtain bl1 where "add_digested env bl p WASM_LAYER_MEDIA_TYPE = Ok bl1" "add_modules env bl1 ps = Ok bl'"
    by (auto simp: res_simps)
  with Cons add_digested_Ok [of env bl p _ bl1] show ?case by auto
qed simp

lemma add_layer_options_Ok:
  "add_layer_options env bl ls = Ok bl' \<Longrightarrow> digested env bl \<Longrightarrow>
   digested env bl' \<and> b_layers (fst bl') = b_layers (fst bl) @ map (\<lambda>l. (snd (layer_option l), fst (layer_option l))) ls"
proof (induction ls arbitrary: bl)
  case (Cons l ls)
  then obtain bl1 where "add_digested env bl (snd (layer_option l)) (fst (layer_option l)) = Ok bl1"
    "add_layer_options env bl1 ls = Ok bl'"
    by (auto simp: res_simps)
  with Cons add_digested_Ok [of env bl "snd (layer_option l)" _ bl1] show ?case by auto
qed simp

lemma add_components_Ok:
  "add_components env bl rs = Ok bl' \<Longrightarrow> digested env bl \<Longrightarrow>
   digested env bl' \<and> (\<exists>ps. rs = map Ok ps \<and>
     b_layers (fst bl') = b_layers (fst bl) @ map (\<lambda>p. (p, WASM_LAYER_MEDIA_TYPE)) (filter is_wasm_file ps))"
proof (induction rs arbitrary: bl)
  case (Cons r rs)
  then obtain p bl1 where r: "r = Ok p"
    and bl1: "(if is_wasm_file p then add_digested env bl p WASM_LAYER_MEDIA_TYPE else Ok bl) = Ok bl1"
    and rs: "add_components env bl1 rs = Ok bl'"
    by (auto simp: res_simps)
  have d1: "digested env bl1 \<and> b_layers (fst bl1) =
      b_layers (fst bl) @ (if is_wasm_file p then [(p, WASM_LAYER_MEDIA_TYPE)] else [])"
    using bl1 Cons.prems(2) add_digested_Ok [of env bl p _ bl1] by (auto split: if_splits)
  from Cons.IH [OF rs] d1 obtain ps where "digested env bl'" "rs = map Ok ps"
    "b_layers (fst bl') = b_layers (fst bl1) @ map (\<lambda>p. (p, WASM_LAYER_MEDIA_TYPE)) (filter is_wasm_file ps)"
    by blast
  with r d1 show ?case by (intro conjI exI [of _ "p # ps"]) auto
qed simp

text \<open>The image that the tool builds has the layers that were asked for, in the order modules,
  \<open>--layer\<close> options, \<open>.wasm\<close> files of the components directory, and the label that makes its configuration
  unique is computed from the digests of exactly these layers, in this order.\<close>

theorem image_layers_as_requested:
  assumes "wasi_image_layers env a = Ok (b, ds)"
  shows "\<exists>ps. b_layers b = map (\<lambda>p. (p, WASM_LAYER_MEDIA_TYPE)) (ta_module a)
        @ map (\<lambda>l. (snd (layer_option l), fst (layer_option l))) (ta_layer a)
        @ map (\<lambda>p. (p, WASM_LAYER_MEDIA_TYPE)) (filter is_wasm_file ps)
    \<and> (case ta_components a of None \<Rightarrow> ps = [] | Some dir \<Rightarrow> tl_read_dir env dir = Ok (map Ok ps))
    \<and> list_all2 (\<lambda>l d. digest_file (tl_tar env) (fst l) = Ok d) (b_layers b) ds
    \<and> layers_label (tl_tar env) ds = (''containerd.runwasi.layers'', te_sha256 (tl_tar env) (concat ds))"
proof -
  obtain bl1 bl2 where m: "add_modules (tl_tar env) (builder_default, []) (ta_module a) = Ok bl1"
    and l: "add_layer_options (tl_tar env) bl1 (ta_layer a) = Ok bl2"
    and c: "(case ta_components a of None \<Rightarrow> Ok bl2
       | Some dir \<Rightarrow> and_then (tl_read_dir env dir) (\<lambda>entries. add_components (tl_tar env) bl2 entries)) = Ok (b, ds)"
    using assms by (auto simp: wasi_image_layers_def res_simps)
  have d0: "digested (tl_tar env) (builder_default, [])" by (simp add: digested_def builder_default_def)
  have 1: "digested (tl_tar env) bl1"
    "b_layers (fst bl1) = map (\<lambda>p. (p, WASM_LAYER_MEDIA_TYPE)) (ta_module a)"
    using add_modules_Ok [OF m d0] by (simp_all add: builder_default_def)
  then have 2: "digested (tl_tar env) bl2" "b_layers (fst bl2) = b_layers (fst bl1)
      @ map (\<lambda>l. (snd (layer_option l), fst (layer_option l))) (ta_layer a)"
    using add_layer_options_Ok [OF l] by simp_all
  show ?thesis
  proof (cases "ta_components a")
    case None
    with c 1 2 show ?thesis by (intro exI [of _ "[]"]) (auto simp: digested_def layers_label_def)
  next
    case (Some dir)
    then obtain entries where dir: "tl_read_dir env dir = Ok entries"
      and e: "add_components (tl_tar env) bl2 entries = Ok (b, ds)" using c by (auto simp: res_simps)
    from add_components_Ok [OF e 2(1)] obtain ps where "digested (tl_tar env) (b, ds)" "entries = map Ok ps"
      "b_layers b = b_layers (fst bl2) @ map (\<lambda>p. (p, WASM_LAYER_MEDIA_TYPE)) (filter is_wasm_file ps)" by auto
    with Some dir 1 2 show ?thesis by (intro exI [of _ ps]) (simp add: digested_def layers_label_def)
  qed
qed

definition demo_tool_env :: "(string, string) tool_env" where
  "demo_tool_env =
     \<lparr>tl_tar = demo_tar_env, tl_oci = demo_oci_config, tl_oci_wasm = demo_oci_config,
      tl_mk_config = (\<lambda>e l. Ok ''config''), tl_from_component = (\<lambda>_. Err ''is a directory''), tl_from_module = (\<lambda>_. Ok ''config''),
      tl_read_dir = (\<lambda>_. Err ''not found''), tl_create = (\<lambda>_. Ok ()), tl_remove = (\<lambda>_. Ok ()),
      tl_create_dir_all = (\<lambda>_. Ok ()), tl_current_dir = Ok ''/'', tl_parent = (\<lambda>_. Some ''/out''),
      tl_wasm_config_media_type = ''c'', tl_wasm_layer_media_type = ''l''\<rparr>"

definition demo_tar_args :: tar_args where
  "demo_tar_args =
     \<lparr>ta_out_path = Some ''/out/img.tar'', ta_name = ''app'', ta_tag = ''v1'', ta_repo = ''ghcr.io/x'', ta_module = [''a.wasm''],
      ta_layer = [], ta_components = None, ta_as_artifact = False\<rparr>"

theorem image_layers_as_requested_witness:
  "\<exists>b ds. wasi_image_layers demo_tool_env demo_tar_args = Ok (b, ds)
     \<and> b_layers b = [(''a.wasm'', WASM_LAYER_MEDIA_TYPE)] \<and> ds = [''a.wasm'']"
proof -
  obtain b ds where r: "wasi_image_layers demo_tool_env demo_tar_args = Ok (b, ds)" "ds = [''a.wasm'']"
    by (simp add: wasi_image_layers_def add_digested_def digest_file_def demo_tool_env_def demo_tar_args_def demo_tar_env_def)
  from image_layers_as_requested [OF r(1)] r show ?thesis by (auto simp: demo_tar_args_def)
qed

section \<open>The output file\<close>

definition image_outcome :: "out_files \<Rightarrow> path \<Rightarrow> out_files \<times> (unit, string) result \<Rightarrow> bool" where
  "image_outcome w out p \<longleftrightarrow>
     (case snd p of
        Panic _ \<Rightarrow> True
      | Err _ \<Rightarrow> fst p = w
      | Ok _ \<Rightarrow> (\<exists>x. fst p = w(out := x) \<and> x \<noteq> Some Partial))"

lemma image_outcome_then:
  "(\<And>a. r = Ok a \<Longrightarrow> image_outcome w out (g w a)) \<Longrightarrow> image_outcome w out (st_then (w, r) g)"
  by (cases r) (auto simp: image_outcome_def)

lemma image_outcome_write: "is_ok (tl_remove env out) \<Longrightarrow> image_outcome w out (write_image env oc b msg out w)"
  by (auto simp: write_image_def image_outcome_def is_ok_iff split: result.splits)

lemma image_outcome_generate:
  assumes "is_ok (tl_remove env out)"
  shows "image_outcome w out (generate_wasi_image env a out w)"
    and "image_outcome w out (generate_wasm_artifact env a out w)"
proof -
  show "image_outcome w out (generate_wasi_image env a out w)"
    unfolding generate_wasi_image_def by (intro image_outcome_then image_outcome_write assms)
  show "image_outcome w out (generate_wasm_artifact env a out w)"
    unfolding generate_wasm_artifact_def case_prod_beta
    by (intro image_outcome_then image_outcome_write assms)
qed

lemma unwrap_out_Ok: "unwrap_out p = (w, r) \<Longrightarrow> \<not> is_panic r \<Longrightarrow> fst p = w \<and> snd p = Ok () \<and> r = Ok ()"
  by (cases p; cases "snd p") (auto simp: unwrap_out_def unwrap_def)



text \<open>One use of the tool can never succeed: \<open>--as-artifact\<close> with \<open>--components\<close> lists the path as a directory
  and then reads the same path as a component.\<close>

theorem component_artifact_never_built:
  assumes "\<And>p. is_ok (tl_read_dir env p) \<Longrightarrow> is_err (tl_from_component env p)"
    and "ta_as_artifact a" and "ta_components a = Some dir"
  shows "fst (tool_main env a w) = w"
proof -
  have "\<not> is_ok (artifact_config env a)"
    using assms(1) [of dir] assms(3)
    by (cases "tl_read_dir env dir"; cases "tl_from_component env dir") (auto simp: artifact_config_def)
  then have "fst (generate_wasm_artifact env a out w) = w" for out
    by (cases "artifact_config env a") (simp_all add: generate_wasm_artifact_def)
  then show ?thesis
    using assms(2,3) by (cases "out_dir env a") (simp_all add: tool_main_def unwrap_out_def)
qed

text \<open>\<open>--layer type=path\<close> is read correctly for a path without an equals sign; of a path with one, only
  what follows the last equals sign is used, and an option without any names the same text as type and
  path.\<close>

theorem layer_option_read:
  assumes "CHR ''='' \<notin> set t" and "CHR ''='' \<notin> set p" and "CHR ''='' \<notin> set q"
  shows "layer_option (t @ ''='' @ p) = (t, p)
    \<and> layer_option (t @ ''='' @ q @ ''='' @ p) = (t, p)
    \<and> layer_option t = (t, t)"
  using split_on_append [OF assms(1), of "q @ ''='' @ p"] split_on_append [OF assms(1), of p]
    split_on_append [OF assms(3), of p] split_on_none [OF assms(1)] split_on_none [OF assms(2)]
  by (simp add: layer_option_def)

theorem layer_option_read_witness:
  "layer_option (''text'' @ ''='' @ ''/tmp/a'' @ ''='' @ ''b'') = (''text'', ''b'')"
  using layer_option_read [of "''text''" "''b''" "''/tmp/a''"] by simp

end
