(* ===== verification/Wasmtime_Config.thy ===== *)
theory Wasmtime_Config
  imports Wasmtime_Shim
begin

text \<open>
  How the wasmtime shim sets up what the engine and the proxy run in
  (\<open>crates/containerd-shim-wasmtime/src/instance.rs\<close> and \<open>http_proxy.rs\<close>): the configuration of the engine
  that runs modules and of the one that precompiles them, the WASI context of a guest, the signals it waits
  for, and the socket of the proxy. Engines, sockets and the kernel are parameters.
\<close>

section \<open>Engines\<close>

record wt_config =
  wc_parallel_compilation :: bool
  wc_component_model :: bool
  wc_async_support :: bool
  wc_pooling :: bool

text \<open>\<open>Config::new\<close>: the defaults of the engine.\<close>

definition base_config :: "wt_config \<Rightarrow> bool \<Rightarrow> wt_config" where
  "base_config new test =
     new\<lparr>wc_parallel_compilation := \<not> test, wc_component_model := True, wc_async_support := True\<rparr>"

text \<open>\<open>use_pooling_allocator_by_default\<close>: tried once with a memory of \<open>2^42\<close> bytes, then remembered; \<open>cell\<close> is the
  \<open>LazyLock\<close>, \<open>engine\<close> and \<open>memory\<close> whether the engine and the memory can be made.\<close>

definition use_pooling_allocator_by_default ::
  "(nat \<Rightarrow> bool) \<Rightarrow> (nat \<Rightarrow> bool) \<Rightarrow> bool option \<Rightarrow> bool option \<times> bool" where
  "use_pooling_allocator_by_default engine memory cell =
     (case cell of
        Some b \<Rightarrow> (Some b, b)
      | None \<Rightarrow> (let b = engine (2 ^ 42) \<and> memory (2 ^ (42 - 16)) in (Some b, b)))"

definition sandbox_config :: "wt_config \<Rightarrow> bool \<Rightarrow> bool \<Rightarrow> wt_config" where
  "sandbox_config new test pooling =
     (if pooling then (base_config new test)\<lparr>wc_pooling := True\<rparr> else base_config new test)"

definition sandbox_default ::
  "(wt_config \<Rightarrow> ('e, string) result) \<Rightarrow> wt_config \<Rightarrow> bool \<Rightarrow> bool \<Rightarrow> ('e, string) result" where
  "sandbox_default engine_new new test pooling =
     (case engine_new (sandbox_config new test pooling) of
        Err e \<Rightarrow> Panic (''called Result::unwrap() on an Err value: failed to create wasmtime engine'') | r \<Rightarrow> r)"

definition wasmtime_compiler_engine ::
  "(wt_config \<Rightarrow> ('e, string) result) \<Rightarrow> wt_config \<Rightarrow> bool \<Rightarrow> ('e option, string) result" where
  "wasmtime_compiler_engine engine_new new test =
     (case engine_new (base_config new test) of
        Ok e \<Rightarrow> Ok (Some e)
      | Err e \<Rightarrow> Panic (''failed to create wasmtime precompilation engine: '' @ e)
      | Panic m \<Rightarrow> Panic m)"

section \<open>The context of a guest\<close>

record wasi_ctx =
  wx_args :: "string list"
  wx_envs :: "(string \<times> string) list"
  wx_inherit_stdio :: bool
  wx_inherit_network :: bool
  wx_allow_tcp :: bool
  wx_allow_udp :: bool
  wx_allow_ip_name_lookup :: bool
  wx_preopened :: "(path \<times> path) list"

text \<open>The context as a whole, or the error of opening the root directory.\<close>

definition wasi_builder :: "(path \<Rightarrow> (unit, string) result) \<Rightarrow> wasi_context \<Rightarrow> (wasi_ctx, string) result" where
  "wasi_builder open_dir ctx =
     and_then (open_dir ''/'') (\<lambda>_.
       Ok \<lparr>wx_args = args ctx, wx_envs = envs_from_ctx ctx, wx_inherit_stdio = True, wx_inherit_network = True,
           wx_allow_tcp = True, wx_allow_udp = True, wx_allow_ip_name_lookup = True, wx_preopened = [(''/'', ''/'')]\<rparr>)"

text \<open>\<open>wait_for_signal\<close> on unix: the first of the three that arrives; installing a handler can fail.\<close>

datatype wt_signal = Quit | Terminate | CtrlC

fun signal_number :: "wt_signal \<Rightarrow> i32" where
  "signal_number Quit = SIGQUIT"
| "signal_number Terminate = SIGTERM"
| "signal_number CtrlC = SIGINT"

definition wait_for_signal :: "(wt_signal \<Rightarrow> (unit, string) result) \<Rightarrow> wt_signal \<Rightarrow> (i32, string) result" where
  "wait_for_signal install first =
     and_then (install Quit) (\<lambda>_. and_then (install Terminate) (\<lambda>_. Ok (signal_number first)))"

section \<open>The socket of the proxy\<close>

datatype accept_error = ConnectionRefused | ConnectionAborted | ConnectionReset | AcceptOther string

definition is_connection_error :: "accept_error \<Rightarrow> bool" where
  "is_connection_error e \<longleftrightarrow> e \<in> {ConnectionRefused, ConnectionAborted, ConnectionReset}"

text \<open>\<open>tcp_accept\<close>: the connection, and for how many seconds the listener sleeps.\<close>

definition tcp_accept :: "('c, accept_error) result \<Rightarrow> 'c option \<times> nat" where
  "tcp_accept r =
     (case r of
        Ok c \<Rightarrow> (Some c, 0)
      | Err e \<Rightarrow> (None, if is_connection_error e then 0 else 1)
      | Panic m \<Rightarrow> (None, 0))"

text \<open>An accept as the loop of the proxy sees it: a failed one changes nothing and the loop goes on.\<close>

definition accept_label :: "('c, accept_error) result \<Rightarrow> serve_label" where
  "accept_label r = Accept (fst (tcp_accept r) \<noteq> None)"

record socket =
  so_v6 :: bool
  so_reuseaddr :: bool
  so_bound :: bool
  so_backlog :: "u32 option"

text \<open>What \<open>serve_conn\<close> does before it serves; the kernel's answers are the arguments.\<close>

definition listen_socket ::
  "bool \<Rightarrow> bool \<Rightarrow> (string \<Rightarrow> (unit, string) result) \<Rightarrow> u32 \<Rightarrow> (socket, string) result" where
  "listen_socket windows v6 sys backlog =
     and_then (sys ''socket'') (\<lambda>_.
     and_then (sys ''setsockopt'') (\<lambda>_.
     and_then (sys ''bind'') (\<lambda>_.
     and_then (sys ''listen'') (\<lambda>_.
     and_then (sys ''getsockname'') (\<lambda>_.
       Ok \<lparr>so_v6 = v6, so_reuseaddr = (\<not> windows), so_bound = True, so_backlog = Some backlog\<rparr>)))))"

section \<open>Properties\<close>

text \<open>Modules are run by an engine that is configured like the one that precompiled them, but for the allocation of
  instances: both have the component model and asynchronous support on, and in the sandbox the pooling allocator is
  added when, and only when, the probe found it usable.\<close>

theorem engines_agree:
  "sandbox_config new test pooling
   = (base_config new test)\<lparr>wc_pooling := (pooling \<or> wc_pooling new)\<rparr>
   \<and> wc_component_model (sandbox_config new test pooling) \<and> wc_async_support (sandbox_config new test pooling)
   \<and> wc_component_model (base_config new test) \<and> wc_async_support (base_config new test)"
  by (cases new) (simp add: sandbox_config_def base_config_def)

text \<open>The probe for the pooling allocator is made once.\<close>

lemma pooling_probed_once:
  "use_pooling_allocator_by_default engine memory cell = (cell', b) \<Longrightarrow>
   use_pooling_allocator_by_default engine' memory' cell' = (cell', b)"
  by (auto simp: use_pooling_allocator_by_default_def Let_def split: option.splits)

text \<open>No failure of \<open>accept\<close> ends the proxy or changes what it serves; it only makes it sleep when it is not a failure
  of the connection.\<close>

lemma failed_accept_ignored:
  "serve_step s (accept_label (Err e :: ('c, accept_error) result)) = s"
  by (simp add: accept_label_def tcp_accept_def)

end
