(* ===== verification/Content_Upload.thy ===== *)
theory Content_Upload
  imports Content_Client
begin

text \<open>
  What the content client of \<open>Content_Client\<close> sends to containerd: the messages of an upload, their order,
  number and size, and the leases that are taken and released around it.
\<close>

section \<open>What is sent to containerd\<close>

text \<open>The same client with a record of the leases and the write requests.\<close>

datatype log_event = Leased string | Unleased string | Sent write_request

definition logged :: "'w containerd \<Rightarrow> ('w \<times> log_event list) containerd" where
  "logged cd =
     \<lparr>cd_lease_create = (\<lambda>(w, log) x. case cd_lease_create cd w x of
          (w', Ok (Some lid)) \<Rightarrow> ((w', log @ [Leased lid]), Ok (Some lid)) | (w', r) \<Rightarrow> ((w', log), r)),
      cd_lease_delete = (\<lambda>(w, log) x. case cd_lease_delete cd w x of (w', r) \<Rightarrow> ((w', log @ [Unleased x]), r)),
      cd_write = (\<lambda>(w, log) lid q. case cd_write cd w lid q of (w', r) \<Rightarrow> ((w', log @ [Sent q]), r)),
      cd_send = (\<lambda>(w, log) q. case cd_send cd w q of (w', r) \<Rightarrow> ((w', log @ [Sent q]), r)),
      cd_message = (\<lambda>(w, log). case cd_message cd w of (w', r) \<Rightarrow> ((w', log), r)),
      cd_read = (\<lambda>(w, log). cd_read cd w), cd_info = (\<lambda>(w, log). cd_info cd w),
      cd_update = (\<lambda>(w, log) i. case cd_update cd w i of (w', r) \<Rightarrow> ((w', log), r)),
      cd_delete = (\<lambda>(w, log) d. case cd_delete cd w d of (w', r) \<Rightarrow> ((w', log), r)),
      cd_image = (\<lambda>(w, log). cd_image cd w), cd_container = (\<lambda>(w, log). cd_container cd w),
      cd_parse_manifest = cd_parse_manifest cd, cd_parse_platform = cd_parse_platform cd,
      cd_parse_digest = cd_parse_digest cd, cd_sha256 = cd_sha256 cd\<rparr>"

definition logged_compiler :: "'w compiler \<Rightarrow> ('w \<times> log_event list) compiler" where
  "logged_compiler co =
     \<lparr>co_cache_key = co_cache_key co,
      co_compile = (\<lambda>(w, log) ls. case co_compile co w ls of (w', r) \<Rightarrow> ((w', log), r))\<rparr>"

function chunk_requests :: "string \<Rightarrow> int \<Rightarrow> write_request list" where
  "chunk_requests data offset =
     (if offset < int (length data) then
        (let end' = min (offset + MAX_WRITE_CHUNK_SIZE_BYTES) (int (length data))
         in write_chunk data offset end' # chunk_requests data end')
      else [])"
  by pat_completeness auto
termination
  by (relation "measure (\<lambda>(data, offset). nat (int (length data) - offset))")
    (auto simp: MAX_WRITE_CHUNK_SIZE_BYTES_def)

declare chunk_requests.simps [simp del]

lemma logged_send_message:
  "send_message (logged cd) (w, log) q dig = (v, r) \<Longrightarrow> snd v = log @ [Sent q]"
  by (cases "snd (cd_send cd w q)")
    (auto simp: send_message_def logged_def split: prod.splits)

lemma logged_write_chunks:
  "write_chunks (logged cd) data expected offset (w, log) = (v, Ok u) \<Longrightarrow>
     0 \<le> offset \<and> snd v = log @ map Sent (chunk_requests data offset)"
proof (induction "nat (int (length data) - offset)" arbitrary: offset w log rule: less_induct)
  case less
  let ?stop = "min (offset + MAX_WRITE_CHUNK_SIZE_BYTES) (int (length data))"
  show ?case
  proof (cases "offset < int (length data)")
    case True
    with less.prems have pos: "0 \<le> offset"
      by (subst (asm) write_chunks.simps) (auto simp: Let_def split: if_splits)
    then obtain w1 log1 x where
      s: "send_message (logged cd) (w, log) (write_chunk data offset ?stop) expected = ((w1, log1), Ok x)"
      and rest: "write_chunks (logged cd) data expected ?stop (w1, log1) = (v, Ok u)"
      using less.prems True by (subst (asm) write_chunks.simps) (auto simp: Let_def res_simps)
    have "nat (int (length data) - ?stop) < nat (int (length data) - offset)"
      using True by (simp add: MAX_WRITE_CHUNK_SIZE_BYTES_def)
    from less.hyps [OF this rest] logged_send_message [OF s] True pos show ?thesis
      by (subst chunk_requests.simps) (simp add: Let_def)
  next
    case False
    with less.prems show ?thesis
      by (subst (asm) write_chunks.simps) (auto simp: chunk_requests.simps)
  qed
qed

text \<open>The chunks of one transfer: in order, without gaps, none empty and none above the limit.\<close>

fun contiguous :: "int \<Rightarrow> write_request list \<Rightarrow> bool" where
  "contiguous offset [] = True"
| "contiguous offset (q # qs) =
     (wq_action q = Write \<and> wq_offset q = offset \<and> wq_data q \<noteq> []
      \<and> int (length (wq_data q)) \<le> MAX_WRITE_CHUNK_SIZE_BYTES
      \<and> contiguous (offset + int (length (wq_data q))) qs)"

lemma chunk_requests_ok:
  "0 \<le> offset \<Longrightarrow> offset \<le> int (length data) \<Longrightarrow>
     contiguous offset (chunk_requests data offset)
     \<and> concat (map wq_data (chunk_requests data offset)) = drop (nat offset) data"
proof (induction "nat (int (length data) - offset)" arbitrary: offset rule: less_induct)
  case less
  let ?stop = "min (offset + MAX_WRITE_CHUNK_SIZE_BYTES) (int (length data))"
  let ?q = "write_chunk data offset ?stop"
  show ?case
  proof (cases "offset < int (length data)")
    case True
    have e: "offset < ?stop" "?stop \<le> int (length data)" "?stop - offset \<le> MAX_WRITE_CHUNK_SIZE_BYTES"
      using True by (auto simp: MAX_WRITE_CHUNK_SIZE_BYTES_def)
    have d: "wq_data ?q = take (nat ?stop - nat offset) (drop (nat offset) data)"
      by (simp add: write_chunk_def)
    then have len: "int (length (wq_data ?q)) = ?stop - offset"
      using e less.prems by auto
    have ih: "contiguous ?stop (chunk_requests data ?stop)
        \<and> concat (map wq_data (chunk_requests data ?stop)) = drop (nat ?stop) data"
      using e less.prems by (intro less.hyps) auto
    have "nat ?stop - nat offset + nat offset = nat ?stop" using e(1) by linarith
    then have "drop (nat ?stop) data = drop (nat ?stop - nat offset) (drop (nat offset) data)"
      by (simp only: drop_drop)
    then have "wq_data ?q @ drop (nat ?stop) data = drop (nat offset) data"
      unfolding d by (metis append_take_drop_id)
    moreover have "contiguous offset (?q # chunk_requests data ?stop)"
    proof -
      have a: "wq_action ?q = Write" "wq_offset ?q = offset"
        by (simp_all add: write_chunk_def default_request_def)
      have ne: "wq_data ?q \<noteq> []"
      proof
        assume "wq_data ?q = []"
        then have "int (length (wq_data ?q)) = 0" by simp
        with len e(1) show False by linarith
      qed
      have nxt: "offset + int (length (wq_data ?q)) = ?stop" using len by linarith
      show ?thesis
        unfolding contiguous.simps nxt unfolding len using a ne ih e(3) by blast
    qed
    ultimately show ?thesis
      using True ih by (subst (1 2) chunk_requests.simps) (simp add: Let_def)
  next
    case False
    then show ?thesis using less.prems by (simp add: chunk_requests.simps)
  qed
qed

text \<open>The number of chunks from an offset to the end of the data.\<close>

definition chunk_count :: "int \<Rightarrow> int \<Rightarrow> int" where
  "chunk_count len offset =
     (if offset < len then (len - offset + MAX_WRITE_CHUNK_SIZE_BYTES - 1) div MAX_WRITE_CHUNK_SIZE_BYTES else 0)"

lemma chunk_count_step:
  assumes "offset < len"
  shows "chunk_count len offset = 1 + chunk_count len (min (offset + MAX_WRITE_CHUNK_SIZE_BYTES) len)"
proof (cases "offset + MAX_WRITE_CHUNK_SIZE_BYTES < len")
  case True
  have "(len - offset + MAX_WRITE_CHUNK_SIZE_BYTES - 1) div MAX_WRITE_CHUNK_SIZE_BYTES
      = 1 + (len - (offset + MAX_WRITE_CHUNK_SIZE_BYTES) + MAX_WRITE_CHUNK_SIZE_BYTES - 1) div MAX_WRITE_CHUNK_SIZE_BYTES"
    by (simp add: MAX_WRITE_CHUNK_SIZE_BYTES_def)
  then show ?thesis using True assms by (simp add: chunk_count_def)
next
  case False
  then have "(len - offset + MAX_WRITE_CHUNK_SIZE_BYTES - 1) div MAX_WRITE_CHUNK_SIZE_BYTES = 1"
    using assms by (simp add: MAX_WRITE_CHUNK_SIZE_BYTES_def)
  then show ?thesis using False assms by (simp add: chunk_count_def)
qed

lemma chunk_count_nonneg: "0 \<le> chunk_count len offset"
  by (simp add: chunk_count_def MAX_WRITE_CHUNK_SIZE_BYTES_def pos_imp_zdiv_nonneg_iff)

lemma write_chunk_size:
  assumes "0 \<le> offset" "offset < int (length data)"
  defines "stop \<equiv> min (offset + MAX_WRITE_CHUNK_SIZE_BYTES) (int (length data))"
  shows "wq_data (write_chunk data offset stop) \<noteq> []"
    and "int (length (wq_data (write_chunk data offset stop))) \<le> MAX_WRITE_CHUNK_SIZE_BYTES"
    and "nat (int (length data) - stop) < nat (int (length data) - offset)"
proof -
  have stop: "offset < stop" "stop \<le> int (length data)" "stop - offset \<le> MAX_WRITE_CHUNK_SIZE_BYTES"
    using assms by (auto simp: MAX_WRITE_CHUNK_SIZE_BYTES_def)
  then have "int (length (wq_data (write_chunk data offset stop))) = stop - offset"
    using assms(1) by (auto simp: write_chunk_def)
  then show "wq_data (write_chunk data offset stop) \<noteq> []"
    and "int (length (wq_data (write_chunk data offset stop))) \<le> MAX_WRITE_CHUNK_SIZE_BYTES"
    using stop by auto
  show "nat (int (length data) - stop) < nat (int (length data) - offset)" using stop assms(2) by linarith
qed

text \<open>C28: The number and the size of the messages of an upload are bounded, whether it succeeds or not and whatever offset
  containerd asks for: at most the rest of the data in units of 15 MiB, rounded up, and exactly so many when all
  are acknowledged; no message is empty and none is larger than 15 MiB.\<close>

theorem upload_messages_bounded:
  assumes "write_chunks (logged cd) data expected offset (w, log) = (v, r)"
  shows "\<exists>qs. snd v = log @ map Sent qs
    \<and> int (length qs) \<le> chunk_count (int (length data)) offset
    \<and> (r = Ok () \<longrightarrow> int (length qs) = chunk_count (int (length data)) offset)
    \<and> list_all (\<lambda>q. wq_data q \<noteq> [] \<and> int (length (wq_data q)) \<le> MAX_WRITE_CHUNK_SIZE_BYTES) qs"
  using assms
proof (induction "nat (int (length data) - offset)" arbitrary: offset w log rule: less_induct)
  case less
  let ?stop = "min (offset + MAX_WRITE_CHUNK_SIZE_BYTES) (int (length data))"
  let ?q = "write_chunk data offset ?stop"
  show ?case
  proof (cases "0 \<le> offset \<and> offset < int (length data)")
    case False
    then have "snd v = log" "r = Ok () \<longrightarrow> chunk_count (int (length data)) offset = 0"
      using less.prems by (subst (asm) write_chunks.simps; auto simp: chunk_count_def split: if_splits)+
    then show ?thesis using chunk_count_nonneg by (intro exI [of _ "[]"]) auto
  next
    case True
    note q = write_chunk_size [of offset data]
    note count = chunk_count_step [of offset "int (length data)"]
    obtain w1 log1 x where s: "send_message (logged cd) (w, log) ?q expected = ((w1, log1), x)" by (metis prod.exhaust)
    have log1: "log1 = log @ [Sent ?q]" using logged_send_message [OF s] by simp
    show ?thesis
    proof (cases "is_ok x")
      case False
      then have "snd v = log @ [Sent ?q]" "r \<noteq> Ok ()"
        using less.prems True s log1 by (subst (asm) write_chunks.simps; cases x; auto simp: Let_def)+
      then show ?thesis
        using q count True chunk_count_nonneg [of "int (length data)" ?stop] by (intro exI [of _ "[?q]"]) auto
    next
      case okx: True
      have rest: "write_chunks (logged cd) data expected ?stop (w1, log1) = (v, r)"
        using less.prems True s okx by (subst (asm) write_chunks.simps) (auto simp: Let_def is_ok_iff)
      from less.hyps [OF q(3) rest] True obtain qs where "snd v = log1 @ map Sent qs"
          "int (length qs) \<le> chunk_count (int (length data)) ?stop"
          "r = Ok () \<longrightarrow> int (length qs) = chunk_count (int (length data)) ?stop"
          "list_all (\<lambda>q. wq_data q \<noteq> [] \<and> int (length (wq_data q)) \<le> MAX_WRITE_CHUNK_SIZE_BYTES) qs"
        by blast
      then show ?thesis using q count True log1 by (intro exI [of _ "?q # qs"]) auto
    qed
  qed
qed

lemma logged_save_digest:
  assumes "save_digest (logged cd) (w, log) lid reference expected labels data = (v, Ok dig)"
  shows "dig = expected \<and>
    (let stat = Sent ((default_request Stat)\<lparr>wq_ref := reference, wq_expected := expected\<rparr>);
         commit = Sent ((default_request Commit)\<lparr>wq_total := int (length data),
           wq_offset := int (length data), wq_expected := expected, wq_labels := labels\<rparr>)
     in snd v = log @ [stat]
        \<or> (\<exists>offset \<ge> 0. snd v = log @ [stat] @ map Sent (chunk_requests data offset) @ [commit]))"
proof -
  let ?q = "(default_request Stat)\<lparr>wq_ref := reference, wq_expected := expected\<rparr>"
  obtain w1 r where wr: "cd_write cd w lid ?q = (w1, r)" by fastforce
  then have lw: "cd_write (logged cd) (w, log) lid ?q = ((w1, log @ [Sent ?q]), r)"
    by (simp add: logged_def)
  show ?thesis
  proof (cases r)
    case (Ok u)
    obtain w2 m where "cd_message cd w1 = (w2, m)" by fastforce
    then have lm: "cd_message (logged cd) (w1, log @ [Sent ?q]) = ((w2, log @ [Sent ?q]), m)"
      by (simp add: logged_def)
    from assms Ok lw lm obtain off w3 w4 log3 log4 x where
      c: "write_chunks (logged cd) data expected off (w2, log @ [Sent ?q]) = ((w3, log3), Ok ())"
      and s: "send_message (logged cd) (w3, log3)
        ((default_request Commit)\<lparr>wq_total := int (length data), wq_offset := int (length data),
          wq_expected := expected, wq_labels := labels\<rparr>) expected = ((w4, log4), Ok x)"
      and f: "(if wp_offset x \<noteq> int (length data) then ((w4, log4), Err (Containerd (''failed to write all bytes, expected ''
          @ show_nat (length data) @ '' got '' @ show_int (wp_offset x))))
        else if wp_digest x \<noteq> expected
        then ((w4, log4), Err (Containerd (''unexpected digest, expected '' @ expected @ '' got '' @ wp_digest x)))
        else ((w4, log4), Ok (wp_digest x))) = (v, Ok dig)"
      by (auto simp: save_digest_def res_simps)
    have v: "v = (w4, log4) \<and> dig = expected" using f by (auto split: if_splits)
    moreover have "0 \<le> off" and "log3 = log @ [Sent ?q] @ map Sent (chunk_requests data off)"
      using logged_write_chunks [OF c] by auto
    ultimately show ?thesis
      using logged_send_message [OF s] by (auto simp: Let_def)
  next
    case (Err e)
    then show ?thesis using assms lw by (cases e) (auto simp: save_digest_def)
  next
    case (Panic m)
    then show ?thesis using assms lw by (auto simp: save_digest_def)
  qed
qed

lemma save_content_Ok:
  assumes "save_content cd w data uid labels = (v, Ok (lid, dig))"
  shows "\<exists>w1. lease cd w (''precompile-'' @ uid) = (w1, Ok lid)
    \<and> save_digest cd w1 lid (''precompile-'' @ uid) (''sha256:'' @ cd_sha256 cd data) labels data = (v, Ok dig)"
proof -
  obtain w1 l where l: "lease cd w (''precompile-'' @ uid) = (w1, Ok l)"
    and r: "(case save_digest cd w1 l (''precompile-'' @ uid) (''sha256:'' @ cd_sha256 cd data) labels data of
             (w, Ok dig) \<Rightarrow> (w, Ok (l, dig))
           | (w, Err e) \<Rightarrow> (drop_lease cd w l, Err e)
           | (w, Panic m) \<Rightarrow> (drop_lease cd w l, Panic m)) = (v, Ok (lid, dig))"
    using assms unfolding save_content_def Let_def st_then_eq_Ok by blast
  obtain u x where "save_digest cd w1 l (''precompile-'' @ uid) (''sha256:'' @ cd_sha256 cd data) labels data = (u, x)"
    by fastforce
  with r l show ?thesis by (cases x) auto
qed

lemma lease_logged:
  "lease (logged cd) (w, log) r = (v, Ok lid) \<Longrightarrow> snd v = log @ [Leased lid]"
  "lease (logged cd) (w, log) r = (v, x) \<Longrightarrow> \<not> is_ok x \<Longrightarrow> snd v = log"
  by (cases "cd_lease_create cd w r", cases "snd (cd_lease_create cd w r)",
      auto simp: lease_def logged_def split: option.splits)+


section \<open>Leases\<close>

text \<open>The lease that is open after a log; \<open>None\<close> if a lease was taken while one was open, or one
  was dropped that was not open.\<close>

fun lease_ev :: "string option option \<Rightarrow> log_event \<Rightarrow> string option option" where
  "lease_ev s (Sent q) = s"
| "lease_ev s (Leased lid) = (if s = Some None then Some (Some lid) else None)"
| "lease_ev s (Unleased lid) = (if s = Some (Some lid) then Some None else None)"

definition open_lease :: "'w \<times> log_event list \<Rightarrow> string option option" where
  "open_lease v = foldl lease_ev (Some None) (snd v)"

lemma open_lease_send: "open_lease (fst (send_message (logged cd) v q dig)) = open_lease v"
  using logged_send_message [of cd "fst v" "snd v" q dig]
  by (cases "send_message (logged cd) v q dig") (simp add: open_lease_def)

lemma open_lease_chunks: "open_lease (fst (write_chunks (logged cd) data expected offset v)) = open_lease v"
proof (induction "nat (int (length data) - offset)" arbitrary: offset v rule: less_induct)
  case less
  let ?stop = "min (offset + MAX_WRITE_CHUNK_SIZE_BYTES) (int (length data))"
  have m: "nat (int (length data) - ?stop) < nat (int (length data) - offset)" if "offset < int (length data)"
    using that by (simp add: MAX_WRITE_CHUNK_SIZE_BYTES_def)
  obtain u x where s: "send_message (logged cd) v (write_chunk data offset ?stop) expected = (u, x)" by fastforce
  then have u: "open_lease u = open_lease v"
    using open_lease_send [of cd v "write_chunk data offset ?stop" expected] by simp
  show ?case
    using less.hyps [OF m] s u
    by (subst write_chunks.simps) (cases x; simp add: Let_def)
qed

lemma open_lease_message: "cd_message (logged cd) v = (u, r) \<Longrightarrow> open_lease u = open_lease v"
  by (auto simp: logged_def open_lease_def split: prod.splits)

lemma open_lease_write: "cd_write (logged cd) v lid q = (u, r) \<Longrightarrow> open_lease u = open_lease v"
  by (auto simp: logged_def open_lease_def split: prod.splits)

lemma open_lease_save_digest:
  "open_lease (fst (save_digest (logged cd) v lid reference expected labels data)) = open_lease v"
proof -
  let ?q = "(default_request Stat)\<lparr>wq_ref := reference, wq_expected := expected\<rparr>"
  obtain u r where w: "cd_write (logged cd) v lid ?q = (u, r)" by fastforce
  obtain u' m where m: "cd_message (logged cd) u = (u', m)" by fastforce
  note u = open_lease_write [OF w] and u' = open_lease_message [OF m]
  show ?thesis
  proof (cases r)
    case (Ok x)
    show ?thesis
      using w m Ok u u'
      by (auto simp: save_digest_def open_lease_chunks open_lease_send
          intro!: fst_st_then_keep [where P = "\<lambda>s. open_lease s = open_lease v"])
  next
    case (Err e)
    then show ?thesis using w u by (cases e) (simp_all add: save_digest_def)
  qed (use w u in \<open>simp add: save_digest_def\<close>)
qed

lemma open_lease_drop: "open_lease v = Some (Some lid) \<Longrightarrow> open_lease (drop_lease (logged cd) v lid) = Some None"
  by (cases v) (auto simp: drop_lease_def logged_def open_lease_def split: prod.splits)

text \<open>\<open>save_content\<close> holds its lease on success only.\<close>

lemma open_lease_save:
  assumes "open_lease v = Some None" and "save_content (logged cd) v data uid labels = (u, r)"
  shows "open_lease u = Some (case r of Ok (lid, dig) \<Rightarrow> Some lid | _ \<Rightarrow> None)"
proof -
  let ?ref = "''precompile-'' @ uid"
  obtain w log where v: "v = (w, log)" by (cases v)
  obtain v1 x where l: "lease (logged cd) v ?ref = (v1, x)" by fastforce
  show ?thesis
  proof (cases x)
    case (Ok lid)
    obtain v2 y where d: "save_digest (logged cd) v1 lid ?ref (''sha256:'' @ cd_sha256 (logged cd) data) labels data = (v2, y)"
      by fastforce
    have "open_lease v1 = Some (Some lid)"
      using lease_logged(1) [of cd w log ?ref v1 lid] l v Ok assms(1) by (simp add: open_lease_def)
    then have o2: "open_lease v2 = Some (Some lid)"
      using open_lease_save_digest [of cd v1 lid ?ref "''sha256:'' @ cd_sha256 (logged cd) data" labels data] d by simp
    show ?thesis
      using assms(2) l Ok d o2 open_lease_drop [OF o2, of cd]
      by (cases y) (auto simp: save_content_def Let_def)
  next
    case (Err e)
    then show ?thesis
      using assms l v lease_logged(2) [of cd w log ?ref v1 x] by (auto simp: save_content_def Let_def open_lease_def)
  next
    case (Panic m)
    then show ?thesis
      using assms l v lease_logged(2) [of cd w log ?ref v1 x] by (auto simp: save_content_def Let_def open_lease_def)
  qed
qed

lemma open_lease_update: "open_lease (fst (update_info (logged cd) v i)) = open_lease v"
  by (cases v) (auto simp: update_info_def logged_def open_lease_def split: prod.splits)

lemma open_lease_labels: "open_lease (fst (update_labels (logged cd) v d pid i c dig)) = open_lease v"
  unfolding update_labels_def
  by (auto intro!: fst_st_then_keep [where P = "\<lambda>s. open_lease s = open_lease v"] simp: open_lease_update)

lemma open_lease_store_layer:
  assumes "open_lease v = Some None"
  shows "open_lease (fst (store_layer (logged cd) v d pid i l c)) = Some None"
proof -
  obtain u r where s: "save_content (logged cd) v c pid [(pid @ ''/original'', digest (wl_config l))] = (u, r)"
    by fastforce
  note o = open_lease_save [OF assms s]
  show ?thesis
  proof (cases r)
    case (Ok p)
    obtain lid dig where p: "p = (lid, dig)" by (cases p)
    obtain t y where t: "update_labels (logged cd) u d pid i (wl_config l) dig = (t, y)" by fastforce
    have "open_lease t = Some (Some lid)"
      using open_lease_labels [of cd u d pid i "wl_config l" dig] t o Ok p by simp
    from open_lease_drop [OF this, of cd] show ?thesis
      using s Ok p t by (cases y) (simp_all add: store_layer_def)
  qed (use s o in \<open>simp_all add: store_layer_def\<close>)
qed

lemma open_lease_store_layers:
  "open_lease v = Some None \<Longrightarrow> open_lease (fst (store_layers (logged cd) d pid i lcs v)) = Some None"
proof (induction "logged cd" d pid i lcs v rule: store_layers.induct)
  case (2 d pid i l lcs v)
  then show ?case by (auto intro!: fst_st_then_keep [where P = "\<lambda>s. open_lease s = Some None"])
next
  case (3 d pid i l c lcs v)
  obtain u r where s: "store_layer (logged cd) v d pid i l c = (u, r)" by fastforce
  have "open_lease u = Some None" using open_lease_store_layer [OF 3(2), of cd d pid i l c] s by simp
  with 3 s show ?case
    by (cases u; cases r) (auto intro!: fst_st_then_keep [where P = "\<lambda>s. open_lease s = Some None"])
qed simp


section \<open>Examples\<close>


theorem upload_messages_bounded_witness:
  "\<exists>v qs. write_chunks (logged (demo_cd [])) ''ab'' ''d'' 0 (([\<lparr>wp_offset = 2, wp_digest = []\<rparr>], 0), []) = (v, Ok ())
     \<and> snd v = map Sent qs \<and> length qs = 1"
proof -
  let ?w = "([\<lparr>wp_offset = 2, wp_digest = []\<rparr>], 0 :: nat)"
  obtain v where s: "write_chunks (logged (demo_cd [])) ''ab'' ''d'' 0 (?w, []) = (v, Ok ())"
    by (simp add: logged_def demo_cd_simps write_chunks.simps MAX_WRITE_CHUNK_SIZE_BYTES_def send_message_def Let_def)
  from upload_messages_bounded [OF s] show ?thesis
    using s by (auto simp: chunk_count_def MAX_WRITE_CHUNK_SIZE_BYTES_def)
qed

end
