(* ===== verification/Content_Cache.thy ===== *)
theory Content_Cache
  imports Content_Upload
begin

text \<open>
  The cache of precompiled layers against containerd's content store and its garbage collector. The locale
  \<open>content_store\<close> states what \<open>client.rs\<close> relies on of containerd (its \<open>docs/garbage-collection.md\<close> and the content
  service): content is addressed by its digest and verified at commit, labels are replaced by an update, and at any time the
  collector may remove what is reachable neither from an image nor from a lease through the labels
  \<open>containerd.io/gc.ref.content\<close>. All laws but those on reading are conditional on the reply that containerd gives, so that any call may
  fail.

  Inside the locale it is shown that a load of an image leaves a cache that survives every collection and answers the
  next load.
\<close>

section \<open>The store and its collector\<close>

record cstore =
  cs_blob :: "string \<Rightarrow> string option"
  cs_labels :: "string \<Rightarrow> (string \<times> string) list option"
  cs_roots :: "string set"
  cs_leases :: "string \<Rightarrow> string set option"

definition gc_key :: "string \<Rightarrow> bool" where
  "gc_key k \<longleftrightarrow> prefix ''containerd.io/gc.ref.content'' k"

inductive kept :: "cstore \<Rightarrow> string \<Rightarrow> bool" for s where
  root: "d \<in> cs_roots s \<Longrightarrow> kept s d"
| leased: "cs_leases s l = Some ds \<Longrightarrow> d \<in> ds \<Longrightarrow> kept s d"
| ref: "kept s d \<Longrightarrow> cs_labels s d = Some ls \<Longrightarrow> gc_key k \<Longrightarrow> map_of ls k = Some e \<Longrightarrow> kept s e"

text \<open>What the collector may do.\<close>

definition gc :: "cstore \<Rightarrow> cstore \<Rightarrow> bool" where
  "gc s t \<longleftrightarrow>
     cs_roots t = cs_roots s \<and> cs_leases t = cs_leases s \<and>
     (\<forall>d. kept s d \<longrightarrow> cs_blob t d = cs_blob s d \<and> cs_labels t d = cs_labels s d)"

definition set_labels :: "cstore \<Rightarrow> string \<Rightarrow> (string \<times> string) list \<Rightarrow> cstore" where
  "set_labels s d ls = s\<lparr>cs_labels := (cs_labels s)(d := Some ls)\<rparr>"

definition add_lease :: "cstore \<Rightarrow> string \<Rightarrow> string set \<Rightarrow> cstore" where
  "add_lease s l ds = s\<lparr>cs_leases := (cs_leases s)(l := Some ds)\<rparr>"

text \<open>Content under a lease; labels of content that is there already stay.\<close>

definition add_content :: "cstore \<Rightarrow> string \<Rightarrow> string \<Rightarrow> string \<Rightarrow> (string \<times> string) list \<Rightarrow> cstore" where
  "add_content s l d b ls =
     s\<lparr>cs_blob := (cs_blob s)(d := Some b),
       cs_labels := (cs_labels s)(d := Some (case cs_labels s d of None \<Rightarrow> ls | Some x \<Rightarrow> x)),
       cs_leases := (cs_leases s)(l := map_option (insert d) (cs_leases s l))\<rparr>"

section \<open>An image and what is cached of it\<close>

text \<open>An image is a root, and its content refers to its layers with labels that are not those of precompiled content, as containerd
  sets them when it imports an image.\<close>

definition image_ok :: "cstore \<Rightarrow> string \<Rightarrow> descriptor list \<Rightarrow> bool" where
  "image_ok s img cfgs \<longleftrightarrow>
     img \<in> cs_roots s \<and> distinct (map digest cfgs) \<and> img \<notin> digest ` set cfgs \<and>
     (\<exists>ils. cs_labels s img = Some ils \<and>
        (\<forall>c \<in> set cfgs. \<exists>k. gc_key k \<and> k \<notin> range gc_label \<and> map_of ils k = Some (digest c))) \<and>
     (\<forall>c \<in> set cfgs. cs_labels s (digest c) \<noteq> None)"

definition labelled :: "cstore \<Rightarrow> string \<Rightarrow> string \<Rightarrow> bool" where
  "labelled s img pid \<longleftrightarrow> (\<exists>ils. cs_labels s img = Some ils \<and> map_of ils pid \<noteq> None)"

text \<open>The layer names its precompiled content, refers to it for the collector, and the content is there.\<close>

definition cached :: "cstore \<Rightarrow> string \<Rightarrow> descriptor \<Rightarrow> string \<Rightarrow> string \<Rightarrow> bool" where
  "cached s pid c d b \<longleftrightarrow>
     (\<exists>ls. cs_labels s (digest c) = Some ls \<and> map_of ls pid = Some d \<and> (\<exists>k. gc_key k \<and> map_of ls k = Some d)
       \<and> cs_blob s d = Some b)"

definition cache_inv ::
  "string \<Rightarrow> descriptor list \<Rightarrow> string \<Rightarrow> bool \<Rightarrow> (descriptor \<times> string \<times> string) set \<Rightarrow> cstore \<Rightarrow> bool" where
  "cache_inv img cfgs pid hp cs s \<longleftrightarrow>
     image_ok s img cfgs \<and> (hp \<longrightarrow> labelled s img pid) \<and>
     (\<forall>c d b. (c, d, b) \<in> cs \<longrightarrow> c \<in> set cfgs \<and> cached s pid c d b)"

lemma image_ok_kept:
  assumes "image_ok s img cfgs"
  shows "kept s img" and "c \<in> set cfgs \<Longrightarrow> kept s (digest c)"
proof -
  show img: "kept s img" using assms by (auto simp: image_ok_def intro: kept.root)
  show "c \<in> set cfgs \<Longrightarrow> kept s (digest c)"
    using assms kept.ref [OF img] unfolding image_ok_def by blast
qed

lemma cached_kept: "cached s pid c d b \<Longrightarrow> kept s (digest c) \<Longrightarrow> kept s d"
  by (auto simp: cached_def intro: kept.ref)

lemma gcD: "gc s t \<Longrightarrow> kept s d \<Longrightarrow> cs_blob t d = cs_blob s d \<and> cs_labels t d = cs_labels s d"
  by (simp add: gc_def)

lemma gc_refl [simp]: "gc s s"
  by (simp add: gc_def)

lemma kept_gc: "kept s d \<Longrightarrow> gc s t \<Longrightarrow> kept t d"
proof (induction rule: kept.induct)
  case (ref d ls k e)
  then show ?case using gcD [OF ref.prems ref.hyps(1)] by (auto intro: kept.ref)
qed (auto simp: gc_def intro: kept.root kept.leased)

lemma gc_trans: "gc s t \<Longrightarrow> gc t u \<Longrightarrow> gc s u"
  using kept_gc [of s _ t] by (simp add: gc_def)

definition pinned :: "cstore \<Rightarrow> string \<Rightarrow> string \<Rightarrow> bool" where
  "pinned s d b \<longleftrightarrow> cs_blob s d = Some b \<and> (\<exists>l ds. cs_leases s l = Some ds \<and> d \<in> ds)"

lemma pinned_gc: "gc s t \<Longrightarrow> pinned s d b \<Longrightarrow> pinned t d b"
  using gcD [of s t d] kept.leased [of s _ _ d] by (auto simp: pinned_def gc_def)

lemma pinned_add_content: "cs_leases s l \<noteq> None \<Longrightarrow> pinned (add_content s l d b ls) d b"
  by (auto simp: pinned_def add_content_def intro: exI [of _ l])

lemma pinned_set_labels [simp]: "pinned (set_labels s x ls) d b = pinned s d b"
  by (simp add: pinned_def set_labels_def)

text \<open>The collector keeps all of it.\<close>

lemma cached_gc: "gc s t \<Longrightarrow> kept s (digest c) \<Longrightarrow> cached s pid c d b \<Longrightarrow> cached t pid c d b"
  using gcD [of s t d] gcD [of s t "digest c"] cached_kept [of s pid c d b] by (auto simp: cached_def)

lemma image_ok_gc:
  assumes "gc s t" and "image_ok s img cfgs"
  shows "image_ok t img cfgs"
proof -
  have "cs_roots t = cs_roots s" using assms(1) by (simp add: gc_def)
  moreover have "cs_labels t img = cs_labels s img" using gcD [OF assms(1) image_ok_kept(1) [OF assms(2)]] by simp
  moreover have "cs_labels t (digest c) = cs_labels s (digest c)" if "c \<in> set cfgs" for c
    using gcD [OF assms(1) image_ok_kept(2) [OF assms(2) that]] by simp
  ultimately show ?thesis using assms(2) by (simp add: image_ok_def)
qed

lemma cache_inv_gc:
  assumes "cache_inv img cfgs pid hp cs s" and "gc s t"
  shows "cache_inv img cfgs pid hp cs t"
proof -
  have ok: "image_ok s img cfgs" using assms(1) by (simp add: cache_inv_def)
  have "labelled t img pid" if "labelled s img pid"
    using that gcD [OF assms(2) image_ok_kept(1) [OF ok]] by (simp add: labelled_def)
  moreover have "cached t pid c d b" if "c \<in> set cfgs" "cached s pid c d b" for c d b
    using cached_gc [OF assms(2) image_ok_kept(2) [OF ok that(1)] that(2)] .
  ultimately show ?thesis
    using assms(1) image_ok_gc [OF assms(2) ok] unfolding cache_inv_def by blast
qed

text \<open>Leases do not matter to what is reachable from an image; new content does not either.\<close>

lemma cache_inv_leases [simp]: "cache_inv img cfgs pid hp cs (s\<lparr>cs_leases := l\<rparr>) = cache_inv img cfgs pid hp cs s"
  by (simp add: cache_inv_def image_ok_def labelled_def cached_def)

lemma cache_inv_add_content:
  assumes "cache_inv img cfgs pid hp cs s" and "cs_blob s d = None \<or> cs_blob s d = Some b"
  shows "cache_inv img cfgs pid hp cs (add_content s l d b ls)"
proof -
  let ?t = "add_content s l d b ls"
  have labels: "cs_labels ?t x = cs_labels s x" if "cs_labels s x \<noteq> None" for x
    using that by (auto simp: add_content_def)
  have "image_ok ?t img cfgs"
    using assms(1) labels unfolding cache_inv_def image_ok_def by (auto simp: add_content_def)
  moreover have "labelled ?t img pid" if "labelled s img pid"
    using that labels [of img] by (auto simp: labelled_def)
  moreover have "cached ?t pid c x y" if "cached s pid c x y" for c x y
    using that assms(2) labels [of "digest c"] by (auto simp: cached_def) (auto simp: add_content_def)
  ultimately show ?thesis using assms(1) unfolding cache_inv_def by blast
qed

lemma gc_label_key [simp]: "gc_key (gc_label i)"
  by (simp add: gc_key_def gc_label_def prefix_def)

text \<open>The labels of a layer that has been compiled.\<close>

lemma cache_inv_layer:
  assumes inv: "cache_inv img cfgs pid hp cs s" and c: "c \<in> set cfgs" and new: "c \<notin> fst ` cs"
    and blob: "cs_blob s d = Some b" and pid: "map_of ls pid = Some d" and ref: "map_of ls (gc_label i) = Some d"
  shows "cache_inv img cfgs pid hp (insert (c, d, b) cs) (set_labels s (digest c) ls)"
proof -
  let ?t = "set_labels s (digest c) ls"
  have ok: "image_ok s img cfgs" using inv by (simp add: cache_inv_def)
  then have img: "img \<noteq> digest c" and dist: "inj_on digest (set cfgs)"
    using c by (auto simp: image_ok_def distinct_map)
  have "image_ok ?t img cfgs" and "labelled s img pid \<Longrightarrow> labelled ?t img pid"
    using ok img by (auto simp: image_ok_def labelled_def set_labels_def)
  moreover have "cached ?t pid c d b"
    using blob pid ref gc_label_key [of i] unfolding cached_def set_labels_def by fastforce
  moreover have "cached ?t pid c' x y" if "(c', x, y) \<in> cs" for c' x y
  proof -
    have "c' \<in> set cfgs" "cached s pid c' x y" "c' \<noteq> c" using inv that new by (auto simp: cache_inv_def image_iff)
    then have "digest c' \<noteq> digest c" using dist c by (auto dest: inj_onD)
    then show ?thesis using \<open>cached s pid c' x y\<close> by (simp add: cached_def set_labels_def)
  qed
  ultimately show ?thesis using inv c unfolding cache_inv_def by blast
qed

text \<open>The labels of the image.\<close>

lemma cache_inv_image:
  assumes inv: "cache_inv img cfgs pid hp cs s" and ils: "cs_labels s img = Some ils" and pid: "\<not> gc_key pid"
  shows "cache_inv img cfgs pid True cs
    (set_labels s img (AList.update pid v (AList.update (gc_label i) d ils)))"
proof -
  let ?ls = "AList.update pid v (AList.update (gc_label i) d ils)"
  let ?t = "set_labels s img ?ls"
  have ok: "image_ok s img cfgs" using inv by (simp add: cache_inv_def)
  have "\<exists>k. gc_key k \<and> k \<notin> range gc_label \<and> map_of ?ls k = Some (digest c)" if c: "c \<in> set cfgs" for c
  proof -
    obtain k where "gc_key k" "k \<notin> range gc_label" "map_of ils k = Some (digest c)"
      using ok ils c by (auto simp: image_ok_def)
    moreover then have "k \<noteq> pid" "k \<noteq> gc_label i" using pid by auto
    ultimately show ?thesis by auto
  qed
  then have "image_ok ?t img cfgs" using ok by (auto simp: image_ok_def set_labels_def)
  moreover have "labelled ?t img pid" by (simp add: labelled_def set_labels_def)
  moreover have "cached ?t pid c x y" if "(c, x, y) \<in> cs" for c x y
  proof -
    have "c \<in> set cfgs" "cached s pid c x y" using inv that by (auto simp: cache_inv_def)
    then have "digest c \<noteq> img" using ok by (auto simp: image_ok_def)
    then show ?thesis using \<open>cached s pid c x y\<close> by (simp add: cached_def set_labels_def)
  qed
  ultimately show ?thesis using inv unfolding cache_inv_def by blast
qed

text \<open>An upload that containerd did not have already.\<close>

lemma save_digest_opened:
  assumes "cd_write cd w lid ((default_request Stat)\<lparr>wq_ref := reference, wq_expected := expected\<rparr>) = (w1, Ok ())"
    and "save_digest cd w lid reference expected labels data = (w', Ok dig)"
  shows "\<exists>w2 r0 w3 r. cd_message cd w1 = (w2, Ok (Some r0))
    \<and> write_chunks cd data expected (wp_offset r0) w2 = (w3, Ok ())
    \<and> send_message cd w3 ((default_request Commit)\<lparr>wq_total := int (length data), wq_offset := int (length data),
        wq_expected := expected, wq_labels := labels\<rparr>) expected = (w', Ok r)
    \<and> wp_digest r = expected \<and> dig = expected"
proof -
  obtain w2 m where m: "cd_message cd w1 = (w2, m)" by fastforce
  from assms m obtain r0 w3 w4 x where "m = Ok (Some r0)"
    and "write_chunks cd data expected (wp_offset r0) w2 = (w3, Ok ())"
    and "send_message cd w3 ((default_request Commit)\<lparr>wq_total := int (length data), wq_offset := int (length data),
        wq_expected := expected, wq_labels := labels\<rparr>) expected = (w4, Ok x)"
    and f: "(if wp_offset x \<noteq> int (length data) then (w4, Err (Containerd (''failed to write all bytes, expected ''
          @ show_nat (length data) @ '' got '' @ show_int (wp_offset x))))
        else if wp_digest x \<noteq> expected
        then (w4, Err (Containerd (''unexpected digest, expected '' @ expected @ '' got '' @ wp_digest x)))
        else (w4, Ok (wp_digest x))) = (w', Ok dig)"
    by (auto simp: save_digest_def res_simps)
  moreover have "wp_digest x = expected \<and> w4 = w' \<and> dig = expected" using f by (auto split: if_splits)
  ultimately show ?thesis using m by auto
qed

text \<open>A layer that names precompiled content refers to it for the collector.\<close>

definition referenced :: "cstore \<Rightarrow> string \<Rightarrow> descriptor \<Rightarrow> bool" where
  "referenced s pid c \<longleftrightarrow>
     (\<forall>ls d. cs_labels s (digest c) = Some ls \<longrightarrow> map_of ls pid = Some d \<longrightarrow> (\<exists>k. gc_key k \<and> map_of ls k = Some d))"

lemma precompile_label_not_gc [simp]: "\<not> gc_key (precompile_label engine v)"
  by (simp add: gc_key_def precompile_label_def PRECOMPILE_PREFIX_def)

text \<open>What reading the layers finds.\<close>

lemma read_cached_outcome:
  assumes "read_cached_layers cd w pid needs cs = Ok (n, ls)"
  shows "n = (needs \<or> (\<exists>c \<in> set cs. \<not> is_ok (read_precompiled_layer cd w c pid)))"
    and "\<And>l. l \<in> set ls \<Longrightarrow> is_ok (read_precompiled_layer cd w (wl_config l) pid) \<Longrightarrow>
      read_precompiled_layer cd w (wl_config l) pid = Ok l"
proof -
  have "n = (needs \<or> (\<exists>c \<in> set cs. \<not> is_ok (read_precompiled_layer cd w c pid)))
    \<and> (\<forall>l \<in> set ls. is_ok (read_precompiled_layer cd w (wl_config l) pid) \<longrightarrow>
        read_precompiled_layer cd w (wl_config l) pid = Ok l)"
    using assms
  proof (induction cs arbitrary: needs n ls)
    case (Cons c cs)
    show ?case
    proof (cases "read_precompiled_layer cd w c pid")
      case (Ok l)
      then show ?thesis
        using Cons.prems Cons.IH [of needs] read_precompiled_config [OF Ok] by (auto simp: res_simps)
    next
      case (Err e)
      then obtain a b where "read_original_layer cd w c = Ok a" "ls = a # b" "read_cached_layers cd w pid True cs = Ok (n, b)"
        using Cons.prems by (auto simp: res_simps)
      then show ?thesis using Cons.IH [of True n b] Err read_original_config [of cd w c a] by auto
    qed (use Cons.prems in simp)
  qed simp
  then show "n = (needs \<or> (\<exists>c \<in> set cs. \<not> is_ok (read_precompiled_layer cd w c pid)))"
    and "\<And>l. l \<in> set ls \<Longrightarrow> is_ok (read_precompiled_layer cd w (wl_config l) pid) \<Longrightarrow>
      read_precompiled_layer cd w (wl_config l) pid = Ok l" by auto
qed

section \<open>The interface\<close>

locale content_store =
  fixes cd :: "'w containerd" and abs :: "'w \<Rightarrow> cstore"
  assumes read_some: "cs_blob (abs w) d = Some b \<Longrightarrow> \<exists>ms. cd_read cd w d = Ok ms \<and> try_concat ms = Ok b"
    and read_none: "cs_blob (abs w) d = None \<Longrightarrow> \<exists>e. cd_read cd w d = Err e"
    and info_some: "cs_labels (abs w) d = Some ls \<Longrightarrow> cd_info cd w d = Ok (Some \<lparr>in_digest = d, in_labels = ls\<rparr>)"
    and info_none: "cs_labels (abs w) d = None \<Longrightarrow> \<exists>e. cd_info cd w d = Err e"
    and addressed: "cs_blob (abs w) d = Some b \<Longrightarrow> d = ''sha256:'' @ cd_sha256 cd b"
    and sha_inj: "cd_sha256 cd a = cd_sha256 cd b \<Longrightarrow> a = b"
    and parse_sha: "cd_parse_digest cd (''sha256:'' @ cd_sha256 cd b) = Ok (''sha256:'' @ cd_sha256 cd b)"
    and parse_same: "cd_parse_digest cd x = Ok y \<Longrightarrow> y = x"
    and update: "cd_update cd w i = (w', Ok (Some j)) \<Longrightarrow> gc (set_labels (abs w) (in_digest i) (in_labels i)) (abs w')"
    and lease_create: "cd_lease_create cd w reference = (w', Ok (Some l)) \<Longrightarrow>
      cs_leases (abs w) l = None \<and> gc (add_lease (abs w) l {}) (abs w')"
    and lease_delete: "cd_lease_delete cd w l = (w', deleted) \<Longrightarrow>
      gc (abs w) (abs w') \<or> gc ((abs w)\<lparr>cs_leases := (cs_leases (abs w))(l := None)\<rparr>) (abs w')"
    and write_exists: "cd_write cd w l q = (w', Err WriteAlreadyExists) \<Longrightarrow>
      \<exists>b. cs_blob (abs w) (wq_expected q) = Some b \<and> gc (add_content (abs w) l (wq_expected q) b []) (abs w')"
    and write_opens: "cd_write cd w l q = (w1, Ok ()) \<Longrightarrow> cd_message cd w1 = (w2, Ok (Some r)) \<Longrightarrow> gc (abs w) (abs w2)"
    and sends: "wq_action q = Write \<Longrightarrow> cd_send cd w q = (w1, Ok ()) \<Longrightarrow> cd_message cd w1 = (w2, Ok (Some r)) \<Longrightarrow>
      gc (abs w) (abs w2)"
    and commits: "wq_action q = Commit \<Longrightarrow> cd_send cd w q = (w1, Ok ()) \<Longrightarrow> cd_message cd w1 = (w2, Ok (Some r)) \<Longrightarrow>
      wp_digest r = wq_expected q \<Longrightarrow>
      \<exists>b l. wq_expected q = ''sha256:'' @ cd_sha256 cd b \<and> cs_leases (abs w) l \<noteq> None
        \<and> gc (add_content (abs w) l (wq_expected q) b (wq_labels q)) (abs w2)"
begin

lemma blob_readable: "cs_blob (abs w) d = Some b \<Longrightarrow> read_content cd w d = Ok b"
  using read_some [of w d b] by (auto simp: read_content_def)

lemma readable_blob: "read_content cd w d = Ok b \<Longrightarrow> cs_blob (abs w) d = Some b"
  using read_none [of w d] read_some [of w d] by (cases "cs_blob (abs w) d") (auto simp: read_content_def)

lemma info_labels: "get_info cd w d = Ok i \<longleftrightarrow> (\<exists>ls. cs_labels (abs w) d = Some ls \<and> i = \<lparr>in_digest = d, in_labels = ls\<rparr>)"
  using info_some [of w d] info_none [of w d] by (cases "cs_labels (abs w) d") (auto simp: get_info_def)

text \<open>Content is what its digest says, so adding it changes no content that is there.\<close>

lemma same_content: "d = ''sha256:'' @ cd_sha256 cd b \<Longrightarrow> cs_blob (abs w) d = None \<or> cs_blob (abs w) d = Some b"
proof (cases "cs_blob (abs w) d")
  case (Some c)
  assume "d = ''sha256:'' @ cd_sha256 cd b"
  then have "cd_sha256 cd c = cd_sha256 cd b" using addressed [OF Some] by simp
  then show ?thesis using Some sha_inj [of c b] by simp
qed simp

lemma send_message_write:
  assumes "send_message cd w q dig = (w', Ok r)" and "wq_action q = Write"
  shows "gc (abs w) (abs w')"
  using assms sends [OF assms(2)] by (auto simp: send_message_def res_simps split: prod.splits)

lemma write_chunks_gc: "write_chunks cd data expected offset w = (w', Ok ()) \<Longrightarrow> gc (abs w) (abs w')"
proof (induction "nat (int (length data) - offset)" arbitrary: offset w rule: less_induct)
  case less
  show ?case
  proof (cases "offset < int (length data)")
    case True
    let ?e = "min (offset + MAX_WRITE_CHUNK_SIZE_BYTES) (int (length data))"
    obtain w1 r where m: "send_message cd w (write_chunk data offset ?e) expected = (w1, Ok r)"
      and rest: "write_chunks cd data expected ?e w1 = (w', Ok ())"
      using less.prems True by (subst (asm) write_chunks.simps) (auto simp: Let_def res_simps split: if_splits)
    have "nat (int (length data) - ?e) < nat (int (length data) - offset)"
      using True by (simp add: MAX_WRITE_CHUNK_SIZE_BYTES_def)
    from less.hyps [OF this rest] show ?thesis
      using send_message_write [OF m] gc_trans by (simp add: write_chunk_def default_request_def)
  next
    case False
    then show ?thesis using less.prems by (simp add: write_chunks.simps)
  qed
qed

lemma send_message_commit:
  assumes "send_message cd w q dig = (w', Ok r)" and "wq_action q = Commit" and "wp_digest r = wq_expected q"
  shows "\<exists>b l. wq_expected q = ''sha256:'' @ cd_sha256 cd b \<and> cs_leases (abs w) l \<noteq> None
        \<and> gc (add_content (abs w) l (wq_expected q) b (wq_labels q)) (abs w')"
  using assms commits [OF assms(2)] by (auto simp: send_message_def res_simps split: prod.splits)

lemma content_added:
  assumes "cache_inv img cfgs pid hp cs (abs w)" and "d = ''sha256:'' @ cd_sha256 cd b" and "cs_leases (abs w) l \<noteq> None"
    and "gc (add_content (abs w) l d b ls) (abs w')"
  shows "cache_inv img cfgs pid hp cs (abs w') \<and> pinned (abs w') d b"
  using cache_inv_gc [OF cache_inv_add_content [OF assms(1) same_content [OF assms(2)]] assms(4)]
    pinned_gc [OF assms(4) pinned_add_content [OF assms(3)]] by blast

lemma save_digest_effect:
  assumes inv: "cache_inv img cfgs pid hp cs (abs w)" and lease: "cs_leases (abs w) lid \<noteq> None"
    and exp: "expected = ''sha256:'' @ cd_sha256 cd data"
    and ok: "save_digest cd w lid reference expected labels data = (w', Ok dig)"
  shows "dig = expected \<and> cache_inv img cfgs pid hp cs (abs w') \<and> pinned (abs w') expected data"
proof -
  let ?q = "(default_request Stat)\<lparr>wq_ref := reference, wq_expected := expected\<rparr>"
  obtain w1 x where w1: "cd_write cd w lid ?q = (w1, x)" by fastforce
  consider (exists) "x = Err WriteAlreadyExists" | (opened) "x = Ok ()"
    using ok w1 by (cases x) (auto simp: save_digest_def split: write_error.splits)
  then show ?thesis
  proof cases
    case exists
    then obtain b where b: "cs_blob (abs w) expected = Some b" and g: "gc (add_content (abs w) lid expected b []) (abs w1)"
      using write_exists [of w lid ?q w1] w1 by auto
    have "b = data" using same_content [OF exp, of w] b by simp
    then show ?thesis using content_added [OF inv exp lease] g ok w1 exists by (auto simp: save_digest_def)
  next
    case opened
    let ?c = "(default_request Commit)\<lparr>wq_total := int (length data), wq_offset := int (length data),
      wq_expected := expected, wq_labels := labels\<rparr>"
    have c: "wq_action ?c = Commit" "wq_expected ?c = expected" "wq_labels ?c = labels" by (simp_all add: default_request_def)
    obtain w2 r0 w3 r where m: "cd_message cd w1 = (w2, Ok (Some r0))"
      and ch: "write_chunks cd data expected (wp_offset r0) w2 = (w3, Ok ())"
      and cm: "send_message cd w3 ?c expected = (w', Ok r)" and r: "wp_digest r = expected" "dig = expected"
      using save_digest_opened [OF _ ok] w1 opened by blast
    have g: "gc (abs w) (abs w3)"
      using gc_trans [OF write_opens write_chunks_gc [OF ch]] w1 m opened by blast
    have inv3: "cache_inv img cfgs pid hp cs (abs w3)" using cache_inv_gc [OF inv g] .
    obtain b l where b: "expected = ''sha256:'' @ cd_sha256 cd b" and l: "cs_leases (abs w3) l \<noteq> None"
      and g4: "gc (add_content (abs w3) l expected b labels) (abs w')"
      using send_message_commit [OF cm] r unfolding c by blast
    have "b = data" using b exp sha_inj [of b data] by simp
    then show ?thesis using content_added [OF inv3 exp l] g4 r by blast
  qed
qed

lemma save_content_effect:
  assumes inv: "cache_inv img cfgs pid hp cs (abs w)"
    and ok: "save_content cd w data unique_id labels = (w', Ok (lid, dig))"
  shows "dig = ''sha256:'' @ cd_sha256 cd data \<and> cache_inv img cfgs pid hp cs (abs w') \<and> pinned (abs w') dig data"
proof -
  obtain w1 where l: "lease cd w (''precompile-'' @ unique_id) = (w1, Ok lid)"
    and d: "save_digest cd w1 lid (''precompile-'' @ unique_id) (''sha256:'' @ cd_sha256 cd data) labels data = (w', Ok dig)"
    using save_content_Ok [OF ok] by blast
  have g: "gc (add_lease (abs w) lid {}) (abs w1)"
    using l lease_create by (auto simp: lease_def res_simps split: prod.splits)
  then have "cs_leases (abs w1) lid \<noteq> None" and "cache_inv img cfgs pid hp cs (abs w1)"
    using inv cache_inv_gc [OF _ g] by (auto simp: gc_def add_lease_def)
  with save_digest_effect [OF _ _ refl d] show ?thesis by blast
qed

lemma update_info_effect:
  "update_info cd w i = (w', Ok j) \<Longrightarrow> gc (set_labels (abs w) (in_digest i) (in_labels i)) (abs w')"
  using update [of w i] by (auto simp: update_info_def res_simps split: prod.splits)

lemma update_labels_effect:
  assumes inv: "cache_inv img cfgs pid hp cs (abs w)" and pin: "pinned (abs w) dig b" and c: "c \<in> set cfgs" "c \<notin> fst ` cs"
    and pid: "\<not> gc_key pid" and ok: "update_labels cd w img pid i c dig = (w', Ok ())"
  shows "cache_inv img cfgs pid True (insert (c, dig, b) cs) (abs w')"
proof -
  obtain ls ils w1 w2 j j' where
    u1: "update_info cd w \<lparr>in_digest = digest c, in_labels = AList.update (gc_label i) dig (AList.update pid dig ls)\<rparr> = (w1, Ok j)"
    and ils: "cs_labels (abs w1) img = Some ils"
    and u2: "update_info cd w1 \<lparr>in_digest = img, in_labels = AList.update pid ''true'' (AList.update (gc_label i) dig ils)\<rparr> = (w2, Ok j')"
    and w': "w' = w2"
    using ok by (auto simp: update_labels_def res_simps info_labels)
  have "pid \<noteq> gc_label i" using pid by auto
  then have "cache_inv img cfgs pid hp (insert (c, dig, b) cs)
      (set_labels (abs w) (digest c) (AList.update (gc_label i) dig (AList.update pid dig ls)))"
    using pin by (intro cache_inv_layer [OF inv c, where i = i]) (auto simp: pinned_def)
  from cache_inv_gc [OF this] have "cache_inv img cfgs pid hp (insert (c, dig, b) cs) (abs w1)"
    using update_info_effect [OF u1] by simp
  from cache_inv_gc [OF cache_inv_image [OF this ils pid]] show ?thesis
    using update_info_effect [OF u2] by (simp add: w')
qed

lemma drop_lease_effect:
  assumes "cache_inv img cfgs pid hp cs (abs w)"
  shows "cache_inv img cfgs pid hp cs (abs (drop_lease cd w lid))"
proof -
  obtain w' r where "cd_lease_delete cd w lid = (w', r)" by fastforce
  then show ?thesis
    using lease_delete [of w lid w' r] cache_inv_gc [OF assms] cache_inv_gc [of img cfgs pid hp cs "(abs w)\<lparr>cs_leases := l\<rparr>" for l] assms
    by (auto simp: drop_lease_def)
qed

lemma store_layer_effect:
  assumes inv: "cache_inv img cfgs pid hp cs (abs w)" and c: "wl_config l \<in> set cfgs" "wl_config l \<notin> fst ` cs"
    and pid: "\<not> gc_key pid" and ok: "store_layer cd w img pid i l compiled = (w', Ok l')"
  shows "\<exists>d. cache_inv img cfgs pid True (insert (wl_config l, d, compiled) cs) (abs w')"
    and "l' = \<lparr>wl_config = wl_config l, wl_layer = compiled\<rparr>"
proof -
  obtain w1 lid dig where s: "save_content cd w compiled pid [(pid @ ''/original'', digest (wl_config l))] = (w1, Ok (lid, dig))"
    using ok by (auto simp: store_layer_def res_simps)
  obtain w2 x where u: "update_labels cd w1 img pid i (wl_config l) dig = (w2, x)" by fastforce
  have x: "x = Ok ()" and w': "w' = drop_lease cd w2 lid" and "l' = \<lparr>wl_config = wl_config l, wl_layer = compiled\<rparr>"
    using ok s u by (cases x; simp add: store_layer_def)+
  then show "l' = \<lparr>wl_config = wl_config l, wl_layer = compiled\<rparr>" by simp
  have "cache_inv img cfgs pid hp cs (abs w1)" and "pinned (abs w1) dig compiled"
    using save_content_effect [OF inv s] by auto
  from update_labels_effect [OF this c pid] u x drop_lease_effect
  show "\<exists>d. cache_inv img cfgs pid True (insert (wl_config l, d, compiled) cs) (abs w')"
    unfolding w' by blast
qed

lemma store_layers_effect:
  assumes inv: "cache_inv img cfgs pid hp cs (abs w)" and pid: "\<not> gc_key pid"
    and lcs: "distinct (map (wl_config \<circ> fst) lcs)" "wl_config ` fst ` set lcs \<subseteq> set cfgs"
    and none: "\<And>l. (l, None) \<in> set lcs \<Longrightarrow> \<exists>d. (wl_config l, d, wl_layer l) \<in> cs"
    and some: "\<And>l b. (l, Some b) \<in> set lcs \<Longrightarrow> wl_config l \<notin> fst ` cs"
    and ok: "store_layers cd img pid i lcs w = (w', Ok ls)"
  shows "\<exists>cs'. cache_inv img cfgs pid (hp \<or> (\<exists>l b. (l, Some b) \<in> set lcs)) cs' (abs w') \<and> cs \<subseteq> cs'
    \<and> (\<forall>l \<in> set ls. \<exists>d. (wl_config l, d, wl_layer l) \<in> cs')"
  using assms
proof (induction lcs arbitrary: i w hp cs ls)
  case (Cons lc lcs)
  obtain l c where lc: "lc = (l, c)" by (cases lc)
  show ?case
  proof (cases c)
    case None
    then obtain rest where rest: "store_layers cd img pid (Suc i) lcs w = (w', Ok rest)" and ls: "ls = l # rest"
      using Cons.prems(7) lc by (auto simp: res_simps)
    obtain d where d: "(wl_config l, d, wl_layer l) \<in> cs" using Cons.prems(5) lc None by auto
    have 1: "\<exists>d. (wl_config k, d, wl_layer k) \<in> cs" if "(k, None) \<in> set lcs" for k
      using Cons.prems(5) [of k] that by simp
    have 2: "wl_config k \<notin> fst ` cs" if "(k, Some x) \<in> set lcs" for k x
      using Cons.prems(6) [of k x] that by simp
    have "\<exists>cs'. cache_inv img cfgs pid (hp \<or> (\<exists>l b. (l, Some b) \<in> set lcs)) cs' (abs w') \<and> cs \<subseteq> cs'
        \<and> (\<forall>l \<in> set rest. \<exists>d. (wl_config l, d, wl_layer l) \<in> cs')"
      by (rule Cons.IH [OF Cons.prems(1,2) _ _ _ _ rest]) (use Cons.prems(3,4) 1 2 in auto)
    then obtain cs' where "cache_inv img cfgs pid (hp \<or> (\<exists>l b. (l, Some b) \<in> set lcs)) cs' (abs w') \<and> cs \<subseteq> cs'
        \<and> (\<forall>l \<in> set rest. \<exists>d. (wl_config l, d, wl_layer l) \<in> cs')" by blast
    then show ?thesis using d ls lc None by (intro exI [of _ cs']) auto
  next
    case (Some b)
    then obtain w1 l' rest where st: "store_layer cd w img pid i l b = (w1, Ok l')"
      and rest: "store_layers cd img pid (Suc i) lcs w1 = (w', Ok rest)" and ls: "ls = l' # rest"
      using Cons.prems(7) lc by (auto simp: res_simps)
    have new: "wl_config l \<in> set cfgs" "wl_config l \<notin> fst ` cs" using Cons.prems lc Some by auto
    note eff = store_layer_effect [OF Cons.prems(1) new Cons.prems(2) st]
    obtain d where d: "cache_inv img cfgs pid True (insert (wl_config l, d, b) cs) (abs w1)" using eff(1) by blast
    let ?cs = "insert (wl_config l, d, b) cs"
    have 1: "\<exists>d. (wl_config k, d, wl_layer k) \<in> ?cs" if "(k, None) \<in> set lcs" for k
      using Cons.prems(5) [of k] that by auto
    have 2: "wl_config k \<notin> fst ` ?cs" if "(k, Some x) \<in> set lcs" for k x
      using Cons.prems(3) Cons.prems(6) [of k x] that lc by (force simp: image_iff)
    have "\<exists>cs'. cache_inv img cfgs pid (True \<or> (\<exists>l b. (l, Some b) \<in> set lcs)) cs' (abs w') \<and> ?cs \<subseteq> cs'
        \<and> (\<forall>l \<in> set rest. \<exists>d. (wl_config l, d, wl_layer l) \<in> cs')"
      by (rule Cons.IH [OF d Cons.prems(2) _ _ _ _ rest]) (use Cons.prems(3,4) 1 2 in auto)
    then obtain cs' where "cache_inv img cfgs pid True cs' (abs w')" "?cs \<subseteq> cs'"
        "\<forall>l \<in> set rest. \<exists>d. (wl_config l, d, wl_layer l) \<in> cs'" by auto
    moreover have "\<exists>l b. (l, Some b) \<in> set (lc # lcs)" using lc Some by auto
    ultimately show ?thesis using ls eff(2) by (intro exI [of _ cs']) auto
  qed
qed auto

text \<open>Reading the layers: what is read from the cache is the content that the layer names.\<close>

lemma precompiled_read:
  assumes "cached (abs w) pid c d b"
  shows "read_precompiled_layer cd w c pid = Ok \<lparr>wl_config = c, wl_layer = b\<rparr>"
proof -
  obtain ls where ls: "cs_labels (abs w) (digest c) = Some ls" "map_of ls pid = Some d" "cs_blob (abs w) d = Some b"
    using assms by (auto simp: cached_def)
  moreover have "cd_parse_digest cd d = Ok d" using addressed [OF ls(3)] parse_sha by metis
  ultimately show ?thesis
    using blob_readable [OF ls(3)] info_some [OF ls(1)]
    by (simp add: read_precompiled_layer_def get_info_def)
qed

lemma cached_read:
  assumes "read_precompiled_layer cd w c pid = Ok l" and "referenced (abs w) pid c"
  shows "\<exists>d. cached (abs w) pid c d (wl_layer l)"
proof -
  obtain i dig d b where i: "get_info cd w (digest c) = Ok i" and l: "map_of (in_labels i) pid = Some dig"
    and d: "cd_parse_digest cd dig = Ok d" and b: "read_content cd w d = Ok b" and "l = \<lparr>wl_config = c, wl_layer = b\<rparr>"
    using assms(1) by (auto simp: read_precompiled_layer_def res_simps)
  moreover have "d = dig" using parse_same [OF d] .
  ultimately show ?thesis
    using assms(2) readable_blob [OF b] by (auto simp: info_labels cached_def referenced_def)
qed

text \<open>With everything cached, the image is loaded from the cache.\<close>

lemma load_from_cache:
  assumes "labelled (abs v) img (precompile_label engine (co_cache_key co))" and "map wl_config ls = cfgs"
    and "\<forall>l \<in> set ls. \<exists>d. cached (abs v) (precompile_label engine (co_cache_key co)) (wl_config l) d (wl_layer l)"
  shows "load_layers cd (Some co) engine v img cfgs = (v, Ok ls)"
proof -
  let ?pid = "precompile_label engine (co_cache_key co)"
  obtain ils where ils: "cs_labels (abs v) img = Some ils" "map_of ils ?pid \<noteq> None"
    using assms(1) by (auto simp: labelled_def)
  have "read_cached_layers cd v ?pid False (map wl_config ls) = Ok (False, ls)"
    using assms(3) by (induction ls) (auto simp: precompiled_read)
  then show ?thesis
    using info_some [OF ils(1)] ils(2) assms(2) by (auto simp: load_layers_def get_info_def Let_def)
qed

text \<open>The load itself fills the cache.\<close>

lemma load_fills_cache:
  assumes ok: "load_layers cd (Some co) engine w img cfgs = (w', Ok ls)"
    and pid: "pid = precompile_label engine (co_cache_key co)"
    and img: "image_ok (abs w) img cfgs" and ref: "\<forall>c \<in> set cfgs. referenced (abs w) pid c"
    and store: "\<And>layers v r. co_compile co w layers = (v, r) \<Longrightarrow> is_ok r \<and> gc (abs w) (abs v)"
    and declines: "\<And>layers v cs l. co_compile co w layers = (v, Ok cs) \<Longrightarrow> (l, None) \<in> set (zip layers cs) \<Longrightarrow>
      is_ok (read_precompiled_layer cd w (wl_config l) pid)"
    and first: "labelled (abs w) img pid \<or> (\<exists>c \<in> set cfgs. \<not> is_ok (read_precompiled_layer cd w c pid))"
  shows "labelled (abs w') img pid \<and> image_ok (abs w') img cfgs
    \<and> (\<forall>l \<in> set ls. \<exists>d. cached (abs w') pid (wl_config l) d (wl_layer l))"
proof -
  obtain ils n layers where ils: "cs_labels (abs w) img = Some ils"
    and read: "read_cached_layers cd w pid (map_of ils pid = None) cfgs = Ok (n, layers)"
    and rest: "(if n then precompile_layers cd co w img pid layers else (w, Ok layers)) = (w', Ok ls)"
    using ok unfolding load_layers_def option.case Let_def pid [symmetric] by (auto simp: res_simps info_labels)
  note out = read_cached_outcome [OF read]
  have cfgs: "map wl_config layers = cfgs" using read_cached_configs [OF read] .
  have hit: "\<exists>d. cached (abs w) pid (wl_config l) d (wl_layer l)"
    if "l \<in> set layers" "is_ok (read_precompiled_layer cd w (wl_config l) pid)" for l
    using cached_read [OF out(2) [OF that]] ref that(1) cfgs by auto
  show ?thesis
  proof (cases n)
    case False
    then have "w' = w" "ls = layers" "map_of ils pid \<noteq> None" "\<forall>c \<in> set cfgs. is_ok (read_precompiled_layer cd w c pid)"
      using rest out(1) by auto
    then show ?thesis using hit ils img cfgs by (auto simp: labelled_def)
  next
    case True
    obtain w1 cs where co: "co_compile co w layers = (w1, Ok cs)" and len: "length cs = length layers"
      and st: "store_layers cd img pid 0 (zip layers cs) w1 = (w', Ok ls)"
      using rest True store [of layers] by (auto simp: precompile_layers_def is_ok_iff split: prod.splits result.splits if_splits)
    let ?z = "zip layers cs"
    let ?cs = "{(c, d, b). c \<in> set cfgs \<and> cached (abs w) pid c d b \<and> (\<exists>l. (l, None) \<in> set ?z \<and> wl_config l = c)}"
    have zc: "map (wl_config \<circ> fst) ?z = cfgs" using cfgs len by (simp flip: map_map)
    have dist: "distinct (map (wl_config \<circ> fst) ?z)"
      using img unfolding zc by (auto simp: image_ok_def distinct_map)
    have "cache_inv img cfgs pid (labelled (abs w) img pid) ?cs (abs w)" using img by (auto simp: cache_inv_def)
    then have inv: "cache_inv img cfgs pid (labelled (abs w) img pid) ?cs (abs w1)"
      using cache_inv_gc store [OF co] by blast
    have none: "\<exists>d. (wl_config l, d, wl_layer l) \<in> ?cs" if "(l, None) \<in> set ?z" for l
      using hit [of l] declines [OF co that] that cfgs by (auto dest: set_zip_leftD)
    have some: "wl_config l \<notin> fst ` ?cs" if "(l, Some b) \<in> set ?z" for l b
    proof
      assume "wl_config l \<in> fst ` ?cs"
      then obtain k where "(k, None) \<in> set ?z" "wl_config k = wl_config l" by auto
      with dist that inj_onD [of "wl_config \<circ> fst" "set ?z" "(k, None)" "(l, Some b)"] show False
        by (simp add: distinct_map)
    qed
    have "\<exists>cs'. cache_inv img cfgs pid (labelled (abs w) img pid \<or> (\<exists>l b. (l, Some b) \<in> set ?z)) cs' (abs w') \<and> ?cs \<subseteq> cs'
        \<and> (\<forall>l \<in> set ls. \<exists>d. (wl_config l, d, wl_layer l) \<in> cs')"
    proof (rule store_layers_effect [OF inv _ dist _ _ _ st])
      show "wl_config ` fst ` set ?z \<subseteq> set cfgs" using arg_cong [OF zc, of set] by auto
    qed (use none some pid in auto)
    moreover have "labelled (abs w) img pid \<or> (\<exists>l b. (l, Some b) \<in> set ?z)"
    proof (rule disjCI)
      assume all_none: "\<nexists>l b. (l, Some b) \<in> set ?z"
      have "is_ok (read_precompiled_layer cd w c pid)" if "c \<in> set cfgs" for c
      proof -
        from that have "c \<in> set (map (wl_config \<circ> fst) ?z)" unfolding zc .
        then obtain l x where "(l, x) \<in> set ?z" "wl_config l = c" by auto
        then show ?thesis using all_none declines [OF co, of l] by (cases x) auto
      qed
      then show "labelled (abs w) img pid" using first by blast
    qed
    ultimately show ?thesis unfolding cache_inv_def by blast
  qed
qed

text \<open>So the next load finds everything, and nothing is compiled or changed, whatever the collector has done in between.\<close>

lemma load_idempotent:
  assumes "load_layers cd (Some co) engine w img cfgs = (w', Ok ls)"
    and "pid = precompile_label engine (co_cache_key co)"
    and "image_ok (abs w) img cfgs" and "\<forall>c \<in> set cfgs. referenced (abs w) pid c"
    and "\<And>layers v r. co_compile co w layers = (v, r) \<Longrightarrow> is_ok r \<and> gc (abs w) (abs v)"
    and "\<And>layers v cs l. co_compile co w layers = (v, Ok cs) \<Longrightarrow> (l, None) \<in> set (zip layers cs) \<Longrightarrow>
      is_ok (read_precompiled_layer cd w (wl_config l) pid)"
    and "labelled (abs w) img pid \<or> (\<exists>c \<in> set cfgs. \<not> is_ok (read_precompiled_layer cd w c pid))"
    and "gc (abs w') (abs v)"
  shows "load_layers cd (Some co) engine v img cfgs = (v, Ok ls)"
proof (rule load_from_cache)
  have fill: "labelled (abs w') img pid \<and> image_ok (abs w') img cfgs
      \<and> (\<forall>l \<in> set ls. \<exists>d. cached (abs w') pid (wl_config l) d (wl_layer l))"
    by (rule load_fills_cache [OF assms(1-4)]) (use assms(5-7) in auto)
  show cfgs: "map wl_config ls = cfgs" using load_layers_configs [OF assms(1)] .
  show "labelled (abs v) img (precompile_label engine (co_cache_key co))"
    using fill gcD [OF assms(8) image_ok_kept(1)] assms(2) by (auto simp: labelled_def)
  show "\<forall>l \<in> set ls. \<exists>d. cached (abs v) (precompile_label engine (co_cache_key co)) (wl_config l) d (wl_layer l)"
    using fill cached_gc [OF assms(8)] image_ok_kept(2) cfgs assms(2) by (metis imageI set_map)
qed

end

section \<open>A store in memory\<close>

text \<open>An instance of the interface: a store that collects nothing, with contents as their own digests; a commit needs an open
  lease and the content that was sent. It also has the images, the containers, and two counters for a compiler.\<close>

record mem =
  mm_store :: cstore
  mm_lease :: string
  mm_data :: string
  mm_reply :: "write_response option"
  mm_images :: "string \<Rightarrow> string option"
  mm_containers :: "string \<Rightarrow> string option"
  mm_calls :: "i32 \<times> i32"

definition mem_send :: "mem \<Rightarrow> write_request \<Rightarrow> mem \<times> (unit, string) result" where
  "mem_send m q =
     (case wq_action q of
        Stat \<Rightarrow> (m, Err ''unexpected'')
      | Write \<Rightarrow> (m\<lparr>mm_data := mm_data m @ wq_data q, mm_reply := Some \<lparr>wp_offset = 0, wp_digest = []\<rparr>\<rparr>, Ok ())
      | Commit \<Rightarrow>
          if wq_expected q = ''sha256:'' @ mm_data m \<and> cs_leases (mm_store m) (mm_lease m) \<noteq> None
          then (m\<lparr>mm_store := add_content (mm_store m) (mm_lease m) (wq_expected q) (mm_data m) (wq_labels q),
                  mm_reply := Some \<lparr>wp_offset = int (length (mm_data m)), wp_digest = wq_expected q\<rparr>\<rparr>, Ok ())
          else (m\<lparr>mm_reply := None\<rparr>, Ok ()))"

definition mem_write :: "mem \<Rightarrow> string \<Rightarrow> write_request \<Rightarrow> mem \<times> (unit, write_error) result" where
  "mem_write m l q =
     (case cs_blob (mm_store m) (wq_expected q) of
        Some b \<Rightarrow>
          if wq_expected q = ''sha256:'' @ b
          then (m\<lparr>mm_store := add_content (mm_store m) l (wq_expected q) b []\<rparr>, Err WriteAlreadyExists)
          else (m, Err (WriteOther ''corrupt''))
      | None \<Rightarrow> (m\<lparr>mm_lease := l, mm_data := [], mm_reply := Some \<lparr>wp_offset = 0, wp_digest = []\<rparr>\<rparr>, Ok ()))"

definition mem_cd :: "(string \<Rightarrow> (manifest, string) result) \<Rightarrow> mem containerd" where
  "mem_cd parse =
     \<lparr>cd_lease_create = (\<lambda>m r. if cs_leases (mm_store m) r = None
        then (m\<lparr>mm_store := add_lease (mm_store m) r {}\<rparr>, Ok (Some r)) else (m, Err ''already exists'')),
      cd_lease_delete = (\<lambda>m l. (m\<lparr>mm_store := (mm_store m)\<lparr>cs_leases := (cs_leases (mm_store m))(l := None)\<rparr>\<rparr>, Ok ())),
      cd_write = mem_write, cd_send = mem_send,
      cd_message = (\<lambda>m. (m, Ok (mm_reply m))),
      cd_read = (\<lambda>m d. case cs_blob (mm_store m) d of
         Some b \<Rightarrow> if d = ''sha256:'' @ b then Ok [Ok b] else Err ''corrupt'' | None \<Rightarrow> Err ''not found''),
      cd_info = (\<lambda>m d. case cs_labels (mm_store m) d of
         Some ls \<Rightarrow> Ok (Some \<lparr>in_digest = d, in_labels = ls\<rparr>) | None \<Rightarrow> Err ''not found''),
      cd_update = (\<lambda>m i. (m\<lparr>mm_store := set_labels (mm_store m) (in_digest i) (in_labels i)\<rparr>, Ok (Some i))),
      cd_delete = (\<lambda>m d. case cs_blob (mm_store m) d of None \<Rightarrow> (m, Err ''not found'')
        | Some _ \<Rightarrow> (m\<lparr>mm_store := (mm_store m)\<lparr>cs_blob := (cs_blob (mm_store m))(d := None),
            cs_labels := (cs_labels (mm_store m))(d := None)\<rparr>\<rparr>, Ok ())),
      cd_image = (\<lambda>m n. Ok (map_option Some (mm_images m n))), cd_container = (\<lambda>m c. Ok (mm_containers m c)),
      cd_parse_manifest = parse, cd_parse_platform = (\<lambda>b. Ok ''wasm''), cd_parse_digest = (\<lambda>s. Ok s), cd_sha256 = (\<lambda>s. s)\<rparr>"

text \<open>Blobs with a wrong digest are not part of the abstract store.\<close>

definition mem_abs :: "mem \<Rightarrow> cstore" where
  "mem_abs m = (mm_store m)\<lparr>cs_blob := (\<lambda>d. case cs_blob (mm_store m) d of
     Some b \<Rightarrow> if d = ''sha256:'' @ b then Some b else None | None \<Rightarrow> None)\<rparr>"

lemma mem_abs_simps [simp]:
  "cs_labels (mem_abs m) = cs_labels (mm_store m)" "cs_leases (mem_abs m) = cs_leases (mm_store m)"
  "cs_roots (mem_abs m) = cs_roots (mm_store m)"
  "cs_blob (mem_abs m) d = (case cs_blob (mm_store m) d of
     Some b \<Rightarrow> if d = ''sha256:'' @ b then Some b else None | None \<Rightarrow> None)"
  "mem_abs (m\<lparr>mm_data := x\<rparr>) = mem_abs m" "mem_abs (m\<lparr>mm_reply := r\<rparr>) = mem_abs m" "mem_abs (m\<lparr>mm_lease := l\<rparr>) = mem_abs m"
  by (auto simp: mem_abs_def)

lemma mem_abs_updates:
  "mem_abs (m\<lparr>mm_store := set_labels (mm_store m) d ls\<rparr>) = set_labels (mem_abs m) d ls"
  "mem_abs (m\<lparr>mm_store := add_lease (mm_store m) l ds\<rparr>) = add_lease (mem_abs m) l ds"
  "mem_abs (m\<lparr>mm_store := (mm_store m)\<lparr>cs_leases := ll\<rparr>\<rparr>) = (mem_abs m)\<lparr>cs_leases := ll\<rparr>"
  "d = ''sha256:'' @ b \<Longrightarrow>
     mem_abs (m\<lparr>mm_store := add_content (mm_store m) l d b ls\<rparr>) = add_content (mem_abs m) l d b ls"
  by (auto simp: mem_abs_def set_labels_def add_lease_def add_content_def fun_eq_iff)

lemma mem_send_write: "wq_action q = Write \<Longrightarrow> mem_send m q = (m', r) \<Longrightarrow> mem_abs m' = mem_abs m"
  by (auto simp: mem_send_def)

lemma mem_send_commit:
  assumes "wq_action q = Commit" and "mem_send m q = (m', r)" and "mm_reply m' = Some x"
  shows "wq_expected q = ''sha256:'' @ mm_data m \<and> cs_leases (mm_store m) (mm_lease m) \<noteq> None
    \<and> mem_abs m' = add_content (mem_abs m) (mm_lease m) (wq_expected q) (mm_data m) (wq_labels q)"
  using assms mem_abs_updates(4) [of "wq_expected q" "mm_data m" m] by (auto simp: mem_send_def split: if_splits)

lemma mem_write_cases:
  assumes "mem_write m l q = (m', r)"
  shows "r = Ok () \<Longrightarrow> mem_abs m' = mem_abs m"
    and "r = Err WriteAlreadyExists \<Longrightarrow> \<exists>b. cs_blob (mem_abs m) (wq_expected q) = Some b
      \<and> mem_abs m' = add_content (mem_abs m) l (wq_expected q) b []"
  using assms mem_abs_updates(4) [of "wq_expected q" _ m]
  by (auto simp: mem_write_def split: option.splits if_splits)

interpretation mem: content_store "mem_cd parse" mem_abs for parse
proof
  fix q :: write_request and w w1 w2 :: mem and r
  assume "wq_action q = Commit" and "cd_send (mem_cd parse) w q = (w1, Ok ())"
    and "cd_message (mem_cd parse) w1 = (w2, Ok (Some r))"
  then have "wq_expected q = ''sha256:'' @ mm_data w \<and> cs_leases (mm_store w) (mm_lease w) \<noteq> None
      \<and> mem_abs w2 = add_content (mem_abs w) (mm_lease w) (wq_expected q) (mm_data w) (wq_labels q)"
    using mem_send_commit [of q w w1 "Ok ()" r] by (auto simp: mem_cd_def)
  then have "wq_expected q = ''sha256:'' @ cd_sha256 (mem_cd parse) (mm_data w) \<and> cs_leases (mem_abs w) (mm_lease w) \<noteq> None
      \<and> gc (add_content (mem_abs w) (mm_lease w) (wq_expected q) (mm_data w) (wq_labels q)) (mem_abs w2)"
    by (simp add: mem_cd_def)
  then show "\<exists>b l. wq_expected q = ''sha256:'' @ cd_sha256 (mem_cd parse) b \<and> cs_leases (mem_abs w) l \<noteq> None
      \<and> gc (add_content (mem_abs w) l (wq_expected q) b (wq_labels q)) (mem_abs w2)"
    by blast
next
  fix w w' :: mem and l :: string and q :: write_request
  assume "cd_write (mem_cd parse) w l q = (w', Err WriteAlreadyExists)"
  then show "\<exists>b. cs_blob (mem_abs w) (wq_expected q) = Some b \<and> gc (add_content (mem_abs w) l (wq_expected q) b []) (mem_abs w')"
    using mem_write_cases(2) [of w l q w'] gc_refl by (force simp: mem_cd_def simp del: mem_abs_simps)
qed (auto simp: mem_cd_def mem_abs_updates mem_send_write mem_write_cases split: option.splits if_splits)

section \<open>The second load\<close>


definition demo_image_layer :: descriptor where
  "demo_image_layer = \<lparr>media_type = ''application/wasm'', digest = ''sha256:wasm''\<rparr>"

definition demo_mem :: mem where
  "demo_mem =
     \<lparr>mm_store = \<lparr>cs_blob = [''sha256:wasm'' \<mapsto> ''wasm''],
        cs_labels = [''sha256:img'' \<mapsto> [(''containerd.io/gc.ref.content.l.0'', ''sha256:wasm'')], ''sha256:wasm'' \<mapsto> []],
        cs_roots = {''sha256:img''}, cs_leases = (\<lambda>_. None)\<rparr>,
      mm_lease = [], mm_data = [], mm_reply = None, mm_images = (\<lambda>_. None), mm_containers = (\<lambda>_. None), mm_calls = (0, 0)\<rparr>"

definition demo_aot :: "mem compiler" where
  "demo_aot = \<lparr>co_cache_key = 1, co_compile = (\<lambda>m ls. (m, Ok (map (\<lambda>l. Some (''aot-'' @ wl_layer l)) ls)))\<rparr>"

abbreviation demo_mem_cd :: "mem containerd" where
  "demo_mem_cd \<equiv> mem_cd (\<lambda>_. Err [])"

lemma demo_first_load:
  "\<exists>w'. load_layers demo_mem_cd (Some demo_aot) ''wasmtime'' demo_mem ''sha256:img'' [demo_image_layer]
     = (w', Ok [\<lparr>wl_config = demo_image_layer, wl_layer = ''aot-wasm''\<rparr>])"
  by (simp add: load_layers_def Let_def get_info_def mem_cd_def demo_mem_def demo_image_layer_def demo_aot_def
      read_precompiled_layer_def read_original_layer_def read_content_def precompile_layers_def store_layer_def
      save_content_def lease_def save_digest_def mem_write_def mem_send_def default_request_def write_chunks.simps
      send_message_def write_chunk_def MAX_WRITE_CHUNK_SIZE_BYTES_def add_lease_def add_content_def update_labels_def
      update_info_def set_labels_def drop_lease_def)


section \<open>When it compiles again\<close>

text \<open>Two ways past the cache. An image whose layers are all cached through other images is never labelled itself: the compiler
  is asked again at every load, although there is nothing for it to do.\<close>

theorem shared_layers_compiled_again:
  assumes "get_info cd w img = Ok info" and "pid = precompile_label engine (co_cache_key co)"
    and "map_of (in_labels info) pid = None" and "map wl_config ls = cfgs"
    and "\<forall>l \<in> set ls. read_precompiled_layer cd w (wl_config l) pid = Ok l"
    and "co_compile co w ls = (w', Ok (map (\<lambda>_. None) ls))"
  shows "load_layers cd (Some co) engine w img cfgs = (w', Ok ls)"
proof -
  have "read_cached_layers cd w pid True (map wl_config ls) = Ok (True, ls)"
    using assms(5) by (induction ls) auto
  moreover have "zip ls (map (\<lambda>_. None :: string option) ls) = map (\<lambda>l. (l, None)) ls" by (induction ls) auto
  ultimately show ?thesis
    using assms(1,3,4,6) store_layers_None [of cd img pid 0 ls w']
    by (auto simp: load_layers_def assms(2) [symmetric] Let_def precompile_layers_def)
qed

text \<open>The label that refers to precompiled content for the collector has the position of the layer in its name, but neither engine nor
  version. When a second engine, or another version of the same, stores its content for the layer, the content of the first one is no
  longer referred to by the layer, although it is still named; the collector may then remove it.\<close>

theorem versions_share_reference:
  assumes "map_of ls pid = Some d" and "\<And>k. gc_key k \<Longrightarrow> map_of ls k = Some d \<Longrightarrow> k = gc_label i"
    and "pid = precompile_label engine v" and "pid' = precompile_label engine' v'" and "pid \<noteq> pid'" and "d \<noteq> d'"
  shows "let ls' = AList.update (gc_label i) d' (AList.update pid' d' ls)
    in map_of ls' pid = Some d \<and> \<not> referenced (set_labels s (digest c) ls') pid c"
proof -
  have "pid \<noteq> gc_label i" using assms(3) precompile_label_not_gc gc_label_key by metis
  moreover have "\<not> gc_key pid'" using assms(4) by simp
  ultimately show ?thesis
    using assms(1,2,5,6) by (auto simp: Let_def referenced_def set_labels_def split: if_splits)
qed

theorem versions_share_reference_witness:
  "let ls = [(precompile_label ''wasmtime'' 1, ''sha256:a''), (gc_label 0, ''sha256:a'')];
       ls' = AList.update (gc_label 0) ''sha256:b'' (AList.update (precompile_label ''wasmtime'' 2) ''sha256:b'' ls)
   in \<not> referenced (set_labels (mm_store demo_mem) (digest demo_image_layer) ls') (precompile_label ''wasmtime'' 1) demo_image_layer"
proof -
  let ?ls = "[(precompile_label ''wasmtime'' 1, ''sha256:a''), (gc_label 0, ''sha256:a'')]"
  have "k = gc_label 0" if "gc_key k" "map_of ?ls k = Some ''sha256:a''" for k
    using that by (auto split: if_splits)
  then have "let ls' = AList.update (gc_label 0) ''sha256:b'' (AList.update (precompile_label ''wasmtime'' 2) ''sha256:b'' ?ls)
    in map_of ls' (precompile_label ''wasmtime'' 1) = Some ''sha256:a'' \<and>
       \<not> referenced (set_labels (mm_store demo_mem) (digest demo_image_layer) ls') (precompile_label ''wasmtime'' 1) demo_image_layer"
    by (intro versions_share_reference [OF _ _ refl refl]) (simp_all add: precompile_label_inj)
  then show ?thesis unfolding Let_def by blast
qed

end
