(* ===== verification/Client_Tests.thy ===== *)
theory Client_Tests
  imports Content_Cache
begin

text \<open>
  The tests of the content client (\<open>mod tests\<close> of \<open>containerd-shim-wasm/src/containerd/client.rs\<close>), which need a running
  containerd, as programs on the store in memory of \<open>Content_Cache\<close>: every test is the conjunction of its assertions, and all
  of them hold. The random numbers are parameters: \<open>generate_content\<close> takes its hundred bytes from a list of them.
\<close>

section \<open>The compiler of the tests\<close>

text \<open>\<open>FakePrecomipler\<close>: its id, and the precompiled bytes by the digest of the original. The counters are in the world.\<close>

record fake_precompiler =
  fp_id :: string
  fp_layers :: "(string \<times> string) list"

definition fp_new :: "string \<Rightarrow> fake_precompiler" where
  "fp_new n = \<lparr>fp_id = ''uuid-'' @ n, fp_layers = []\<rparr>"

definition add_precompiled_bits :: "(string \<Rightarrow> string) \<Rightarrow> string \<Rightarrow> string \<Rightarrow> fake_precompiler \<Rightarrow> fake_precompiler" where
  "add_precompiled_bits sha original precompiled fp =
     fp\<lparr>fp_layers := AList.update (sha original) precompiled (fp_layers fp)\<rparr>"

text \<open>The loop of \<open>compile\<close>: what it has pushed, and how many layers it has compiled; the index into the map panics without
  the key.\<close>

fun fake_loop ::
  "(string \<Rightarrow> string) \<Rightarrow> (string \<times> string) list \<Rightarrow> i32 \<Rightarrow> wasm_layer list \<Rightarrow> i32 \<times> (string option list, string) result" where
  "fake_loop sha tbl n [] = (n, Ok [])"
| "fake_loop sha tbl n (l # ls) =
     (if media_type (wl_config l) = ''textfile'' \<or> list_ex (\<lambda>(_, b). sha b = sha (wl_layer l)) tbl
      then st_then (fake_loop sha tbl n ls) (\<lambda>n cs. (n, Ok (None # cs)))
      else (case map_of tbl (sha (wl_layer l)) of
              None \<Rightarrow> (n, Panic ''key not found'')
            | Some b \<Rightarrow> st_then (fake_loop sha tbl (n + 1) ls) (\<lambda>n cs. (n, Ok (Some b # cs)))))"

definition fake_compiler :: "(string \<Rightarrow> u64) \<Rightarrow> (string \<Rightarrow> string) \<Rightarrow> fake_precompiler \<Rightarrow> mem compiler" where
  "fake_compiler hash sha fp =
     \<lparr>co_cache_key = hash (fp_id fp),
      co_compile = (\<lambda>m ls. case fake_loop sha (fp_layers fp) 0 ls of
         (n, r) \<Rightarrow> (m\<lparr>mm_calls := (fst (mm_calls m) + 1, n)\<rparr>, r))\<rparr>"

definition precompile_called :: "mem \<Rightarrow> i32" where
  "precompile_called m = fst (mm_calls m)"

definition layers_compiled_per_call :: "mem \<Rightarrow> i32" where
  "layers_compiled_per_call m = snd (mm_calls m)"

section \<open>Images and containers of the tests\<close>

type_synonym test_content = "string \<times> string"

definition generate_content :: "string \<Rightarrow> string \<Rightarrow> string \<Rightarrow> test_content" where
  "generate_content rnd seed mt = (seed @ take 100 rnd, mt)"

definition content_descriptor :: "test_content \<Rightarrow> descriptor" where
  "content_descriptor c = \<lparr>media_type = snd c, digest = ''sha256:'' @ fst c\<rparr>"

text \<open>What an import leaves in the store: the contents, a manifest that refers to them, and the name of the image. The text of a
  manifest is its layers' contents and media types; \<open>test_manifest\<close> reads it back.\<close>

definition manifest_text :: "test_content list \<Rightarrow> string" where
  "manifest_text cs = ''manifest'' @ concat (map (\<lambda>(b, mt). CHR 0x0A # b @ CHR '':'' # mt) cs)"

definition manifest_content :: "string \<Rightarrow> test_content" where
  "manifest_content line = (case split_once CHR '':'' line of Some (b, mt) \<Rightarrow> (b, mt) | None \<Rightarrow> (line, []))"

definition test_manifest :: "string \<Rightarrow> (manifest, string) result" where
  "test_manifest s =
     Ok \<lparr>mf_config = content_descriptor (''config'', ''config''),
         mf_layers = map (content_descriptor \<circ> manifest_content) (List.tl (split_on CHR 0x0A s))\<rparr>"

definition test_cd :: "mem containerd" where
  "test_cd = mem_cd test_manifest"

definition store_blob :: "string \<Rightarrow> (string \<times> string) list \<Rightarrow> cstore \<Rightarrow> cstore" where
  "store_blob b ls s =
     (if cs_blob s (''sha256:'' @ b) \<noteq> None then s
      else s\<lparr>cs_blob := (cs_blob s)(''sha256:'' @ b := Some b), cs_labels := (cs_labels s)(''sha256:'' @ b := Some ls)\<rparr>)"

definition import_contents :: "test_content list \<Rightarrow> cstore \<Rightarrow> cstore" where
  "import_contents cs s =
     store_blob (manifest_text cs) [] (store_blob ''config'' [] (foldr (\<lambda>c. store_blob (fst c) []) cs s))"

definition generate_test_container :: "string \<Rightarrow> string option \<Rightarrow> test_content list \<Rightarrow> mem \<Rightarrow> mem \<times> string \<times> string" where
  "generate_test_container rnd nm cs m =
     (let image_name = (case nm of Some n \<Rightarrow> n | None \<Rightarrow> ''localhost/test:latest'' @ rnd);
          container_name = ''test-container-'' @ rnd
      in (m\<lparr>mm_store := (import_contents cs (mm_store m))\<lparr>cs_roots := insert (''sha256:'' @ manifest_text cs) (cs_roots (mm_store m))\<rparr>,
            mm_images := (mm_images m)(image_name := Some (''sha256:'' @ manifest_text cs)),
            mm_containers := (mm_containers m)(container_name := Some image_name)\<rparr>, image_name, container_name))"

definition mem_empty :: mem where
  "mem_empty =
     \<lparr>mm_store = \<lparr>cs_blob = (\<lambda>_. None), cs_labels = (\<lambda>_. None), cs_roots = {}, cs_leases = (\<lambda>_. None)\<rparr>,
      mm_lease = [], mm_data = [], mm_reply = None, mm_images = (\<lambda>_. None), mm_containers = (\<lambda>_. None), mm_calls = (0, 0)\<rparr>"

section \<open>The tests\<close>

definition WASM_LAYER :: string where
  "WASM_LAYER = ''application/vnd.bytecodealliance.wasm.component.layer.v0+wasm''"

text \<open>\<open>r.unwrap()\<close> and the rest of the test.\<close>

definition unwrapped :: "'s \<times> ('a, 'e) result \<Rightarrow> ('s \<Rightarrow> 'a \<Rightarrow> bool) \<Rightarrow> bool" where
  "unwrapped p k = (case p of (s, Ok a) \<Rightarrow> k s a | _ \<Rightarrow> False)"

definition test_save_content :: "string \<Rightarrow> u64 \<Rightarrow> bool" where
  "test_save_content data version =
     (let expected = ''sha256:'' @ data; label = [(precompile_label ''test'' version, ''original'')]
      in unwrapped (save_content test_cd mem_empty data ''test'' label) (\<lambda>m returned.
           snd returned = expected \<and>
           read_content test_cd m (snd returned) = Ok data \<and>
           (case save_content test_cd m data ''test'' label of (m, r) \<Rightarrow>
             is_err r \<and>
             unwrapped (save_content test_cd (fst (release_content test_cd m returned)) data ''test'' label) (\<lambda>m returned.
               snd returned = expected \<and>
               unwrapped (delete_content test_cd m expected) (\<lambda>m _. is_err (read_content test_cd m expected))))))"

definition test_layers_when_precompile_not_supported :: "string \<Rightarrow> bool" where
  "test_layers_when_precompile_not_supported rnd =
     (let fake_bytes = generate_content rnd ''original'' WASM_LAYER;
          (m, _, cid) = generate_test_container rnd None [fake_bytes] mem_empty
      in unwrapped (load_modules test_cd None [WASM_LAYER] ''fake'' m cid) (\<lambda>_ layers. map wl_layer layers = [fst fake_bytes]))"

text \<open>A load with the compiler.\<close>

definition load_fake :: "(string \<Rightarrow> u64) \<Rightarrow> fake_precompiler \<Rightarrow> string list \<Rightarrow> mem \<Rightarrow> string \<Rightarrow> mem \<times> wasm_layer list sandbox_result" where
  "load_fake hash fp supported m cid = load_modules test_cd (Some (fake_compiler hash (\<lambda>b. b) fp)) supported ''fake'' m cid"

definition test_layers_are_precompiled_once :: "(string \<Rightarrow> u64) \<Rightarrow> string \<Rightarrow> bool" where
  "test_layers_are_precompiled_once hash rnd =
     (let fake_bytes = generate_content rnd ''original'' WASM_LAYER;
          (m, _, cid) = generate_test_container rnd None [fake_bytes] mem_empty;
          compiled = generate_content rnd ''precompiled'' WASM_LAYER;
          engine = add_precompiled_bits (\<lambda>b. b) (fst fake_bytes) (fst compiled) (fp_new rnd)
      in unwrapped (load_fake hash engine [WASM_LAYER] m cid) (\<lambda>m _.
           precompile_called m = 1 \<and>
           unwrapped (load_fake hash engine [WASM_LAYER] m cid) (\<lambda>m layers.
             precompile_called m = 1 \<and> map wl_layer layers = [fst compiled])))"

definition test_layers_are_recompiled_if_version_changes :: "(string \<Rightarrow> u64) \<Rightarrow> string \<Rightarrow> bool" where
  "test_layers_are_recompiled_if_version_changes hash rnd =
     (let fake_bytes = generate_content rnd ''original'' WASM_LAYER;
          (m, _, cid) = generate_test_container rnd None [fake_bytes] mem_empty;
          compiled = generate_content rnd ''precompiled'' WASM_LAYER;
          engine = add_precompiled_bits (\<lambda>b. b) (fst fake_bytes) (fst compiled) (fp_new rnd)
      in unwrapped (load_fake hash engine [WASM_LAYER] m cid) (\<lambda>m _.
           precompile_called m = 1 \<and>
           unwrapped (load_fake hash (engine\<lparr>fp_id := ''new_version''\<rparr>) [WASM_LAYER] m cid) (\<lambda>m _. precompile_called m = 2)))"

text \<open>The label with which layer \<open>i\<close> of an image names its precompiled content.\<close>

definition label_of_layer :: "mem \<Rightarrow> string \<Rightarrow> nat \<Rightarrow> string \<Rightarrow> string option" where
  "label_of_layer m img i expected_id =
     (case get_image_manifest_and_digest test_cd m img of
        Ok (manifest, _) \<Rightarrow>
          if i < length (mf_layers manifest)
          then (case get_info test_cd m (digest (mf_layers manifest ! i)) of
                  Ok info \<Rightarrow> map_of (in_labels info) expected_id | _ \<Rightarrow> None)
          else None
      | _ \<Rightarrow> None)"

definition test_layers_are_precompiled :: "(string \<Rightarrow> u64) \<Rightarrow> string \<Rightarrow> bool" where
  "test_layers_are_precompiled hash rnd =
     (let fake_bytes = generate_content rnd ''original'' WASM_LAYER;
          (m, img, cid) = generate_test_container rnd None [fake_bytes] mem_empty;
          compiled = generate_content rnd ''precompiled'' WASM_LAYER;
          engine = add_precompiled_bits (\<lambda>b. b) (fst fake_bytes) (fst compiled) (fp_new rnd);
          expected_id = precompile_label ''fake'' (hash (fp_id engine))
      in unwrapped (load_fake hash engine [WASM_LAYER] m cid) (\<lambda>m layers.
           precompile_called m = 1 \<and> map wl_layer layers = [fst compiled] \<and>
           label_of_layer m img 0 expected_id = Some (''sha256:'' @ fst compiled)))"

definition test_layers_are_precompiled_but_not_for_all_layers :: "(string \<Rightarrow> u64) \<Rightarrow> string \<Rightarrow> bool" where
  "test_layers_are_precompiled_but_not_for_all_layers hash rnd =
     (let fake_bytes = generate_content rnd ''original'' WASM_LAYER;
          non_wasm = generate_content rnd ''original_dont_compile'' ''textfile'';
          (m, _, cid) = generate_test_container rnd None [fake_bytes, non_wasm] mem_empty;
          compiled = generate_content rnd ''precompiled'' WASM_LAYER;
          engine = add_precompiled_bits (\<lambda>b. b) (fst fake_bytes) (fst compiled) (fp_new rnd)
      in unwrapped (load_fake hash engine [WASM_LAYER, ''textfile''] m cid) (\<lambda>m layers.
           precompile_called m = 1 \<and> layers_compiled_per_call m = 1 \<and> map wl_layer layers = [fst compiled, fst non_wasm]))"

text \<open>The collector takes the content of the old image once no image has it as its target.\<close>

definition content_removed :: "string \<Rightarrow> mem \<Rightarrow> mem" where
  "content_removed sha m = fst (delete_content test_cd m sha)"

definition test_new_layers_added_to_existing_image :: "(string \<Rightarrow> u64) \<Rightarrow> string \<Rightarrow> string \<Rightarrow> bool" where
  "test_new_layers_added_to_existing_image hash rnd rnd2 =
     (let fake_bytes = generate_content rnd ''original'' WASM_LAYER;
          (m, img, cid) = generate_test_container rnd None [fake_bytes] mem_empty;
          compiled = generate_content rnd ''precompiled'' WASM_LAYER;
          engine = add_precompiled_bits (\<lambda>b. b) (fst fake_bytes) (fst compiled) (fp_new rnd)
      in unwrapped (load_fake hash engine [WASM_LAYER] m cid) (\<lambda>m layers.
           precompile_called m = 1 \<and> map wl_layer layers = [fst compiled] \<and>
           (case get_image test_cd m img of
              Ok (Some image_sha) \<Rightarrow>
                let fake_bytes2 = generate_content rnd2 ''image2'' WASM_LAYER;
                    (m, _, cid2) = generate_test_container rnd2 (Some img) [fake_bytes, fake_bytes2] m;
                    compiled2 = generate_content rnd2 ''precompiled2'' WASM_LAYER;
                    engine = add_precompiled_bits (\<lambda>b. b) (fst fake_bytes2) (fst compiled2) engine;
                    m = content_removed image_sha m
                in unwrapped (load_fake hash engine [WASM_LAYER] m cid2) (\<lambda>m layers.
                     precompile_called m = 2 \<and> length layers = 2 \<and> layers_compiled_per_call m = 1)
            | _ \<Rightarrow> False)))"

definition test_new_layers_add_to_new_image :: "(string \<Rightarrow> u64) \<Rightarrow> string \<Rightarrow> string \<Rightarrow> bool" where
  "test_new_layers_add_to_new_image hash rnd rnd2 =
     (let fake_bytes = generate_content rnd ''original'' WASM_LAYER;
          (m, _, cid) = generate_test_container rnd None [fake_bytes] mem_empty;
          compiled = generate_content rnd ''precompiled'' WASM_LAYER;
          engine = add_precompiled_bits (\<lambda>b. b) (fst fake_bytes) (fst compiled) (fp_new rnd)
      in unwrapped (load_fake hash engine [WASM_LAYER] m cid) (\<lambda>m layers.
           precompile_called m = 1 \<and> map wl_layer layers = [fst compiled] \<and>
           (let fake_bytes2 = generate_content rnd2 ''image2'' WASM_LAYER;
                (m, _, cid2) = generate_test_container rnd2 None [fake_bytes, fake_bytes2] m;
                compiled2 = generate_content rnd2 ''precompiled2'' WASM_LAYER;
                engine = add_precompiled_bits (\<lambda>b. b) (fst fake_bytes2) (fst compiled2) engine
            in unwrapped (load_fake hash engine [WASM_LAYER] m cid2) (\<lambda>m layers.
                 precompile_called m = 2 \<and> length layers = 2 \<and> layers_compiled_per_call m = 1))))"

definition test_layers_are_precompiled_for_multiple_layers :: "(string \<Rightarrow> u64) \<Rightarrow> string \<Rightarrow> bool" where
  "test_layers_are_precompiled_for_multiple_layers hash rnd =
     (let fake_bytes = generate_content rnd ''original'' WASM_LAYER;
          fake_bytes2 = generate_content rnd ''original1'' WASM_LAYER;
          (m, img, cid) = generate_test_container rnd None [fake_bytes, fake_bytes2] mem_empty;
          compiled = generate_content rnd ''precompiled'' WASM_LAYER;
          compiled2 = generate_content rnd ''precompiled1'' WASM_LAYER;
          engine = add_precompiled_bits (\<lambda>b. b) (fst fake_bytes2) (fst compiled2)
            (add_precompiled_bits (\<lambda>b. b) (fst fake_bytes) (fst compiled) (fp_new rnd));
          expected_id = precompile_label ''fake'' (hash (fp_id engine))
      in unwrapped (load_fake hash engine [WASM_LAYER] m cid) (\<lambda>m layers.
           precompile_called m = 1 \<and> layers_compiled_per_call m = 2 \<and>
           map wl_layer layers = [fst compiled, fst compiled2] \<and>
           label_of_layer m img 0 expected_id = Some (''sha256:'' @ fst compiled) \<and>
           label_of_layer m img 1 expected_id = Some (''sha256:'' @ fst compiled2)))"

text \<open>Congruences with which the simplifier evaluates a step before what follows it.\<close>

lemma unwrapped_cong_weak: "p = q \<Longrightarrow> unwrapped p k = unwrapped q k"
  by simp

lemma st_then_cong_weak: "p = q \<Longrightarrow> st_then p k = st_then q k"
  by simp

lemmas step_cong = unwrapped_cong_weak st_then_cong_weak let_weak_cong

lemma wasm_layer_facts:
  "CHR 0x0A \<notin> set WASM_LAYER" "WASM_LAYER \<noteq> ''textfile''" "''textfile'' \<noteq> WASM_LAYER"
  "split_on CHR 0x0A WASM_LAYER = [WASM_LAYER]" "split_on CHR 0x0A (WASM_LAYER @ CHR 0x0A # s) = WASM_LAYER # split_on CHR 0x0A s"
  by (simp_all add: WASM_LAYER_def split_on_append)

lemma labels_differ:
  "precompile_label e v \<noteq> gc_label i" "gc_label i \<noteq> precompile_label e v" "gc_label i = gc_label j \<longleftrightarrow> i = j"
  "precompile_label e v = precompile_label e' v' \<longleftrightarrow> e = e' \<and> v = v'"
proof -
  show "precompile_label e v \<noteq> gc_label i" "gc_label i \<noteq> precompile_label e v"
    using precompile_label_not_gc gc_label_key by metis+
  show "gc_label i = gc_label j \<longleftrightarrow> i = j"
    using show_nat_inj by (auto simp: gc_label_def)
qed (rule precompile_label_inj)

lemmas test_defs =
  test_cd_def mem_cd_def mem_empty_def unwrapped_def generate_content_def generate_test_container_def content_descriptor_def
  manifest_text_def manifest_content_def test_manifest_def store_blob_def import_contents_def wasm_layer_facts load_fake_def
  fake_compiler_def fp_new_def add_precompiled_bits_def precompile_called_def layers_compiled_per_call_def
  load_modules_def load_layers_def get_container_def get_image_manifest_and_digest_def get_image_def
  extract_image_content_sha_def is_wasm_layer_def get_info_def read_precompiled_layer_def read_original_layer_def
  read_content_def precompile_layers_def store_layer_def save_content_def lease_def save_digest_def mem_write_def
  mem_send_def default_request_def write_chunks.simps send_message_def write_chunk_def MAX_WRITE_CHUNK_SIZE_BYTES_def
  add_lease_def add_content_def update_labels_def update_info_def set_labels_def drop_lease_def delete_content_def
  release_content_def label_of_layer_def content_removed_def labels_differ Let_def

lemma save_content_test: "test_save_content ''hello world'' 7"
  by (simp add: test_save_content_def test_defs cong: step_cong)

lemma not_supported_test: "test_layers_when_precompile_not_supported ''1''"
  by (simp add: test_layers_when_precompile_not_supported_def test_defs cong: step_cong)

lemma precompiled_once_test: "test_layers_are_precompiled_once (\<lambda>s. of_nat (length s)) ''1''"
  by (simp add: test_layers_are_precompiled_once_def test_defs cong: step_cong)

lemma version_changes_test: "test_layers_are_recompiled_if_version_changes (\<lambda>s. of_nat (length s)) ''1''"
  by (simp add: test_layers_are_recompiled_if_version_changes_def test_defs cong: step_cong)

lemma are_precompiled_test: "test_layers_are_precompiled (\<lambda>s. of_nat (length s)) ''1''"
  by (simp add: test_layers_are_precompiled_def test_defs cong: step_cong)

lemma not_for_all_layers_test: "test_layers_are_precompiled_but_not_for_all_layers (\<lambda>s. of_nat (length s)) ''1''"
  by (simp add: test_layers_are_precompiled_but_not_for_all_layers_def test_defs cong: step_cong)

lemma added_to_existing_test: "test_new_layers_added_to_existing_image (\<lambda>s. of_nat (length s)) ''1'' ''2''"
  by (simp add: test_new_layers_added_to_existing_image_def test_defs cong: step_cong)

lemma add_to_new_test: "test_new_layers_add_to_new_image (\<lambda>s. of_nat (length s)) ''1'' ''2''"
  by (simp add: test_new_layers_add_to_new_image_def test_defs cong: step_cong)

lemma multiple_layers_test: "test_layers_are_precompiled_for_multiple_layers (\<lambda>s. of_nat (length s)) ''1''"
  by (simp add: test_layers_are_precompiled_for_multiple_layers_def test_defs cong: step_cong)

end
