(* ===== verification/Logger.thy ===== *)
theory Logger
  imports Shim_Main
begin

text \<open>
  The shim's logger (\<open>crates/containerd-shimkit/src/vendor/containerd_shim/logger.rs\<close>): the level it is
  configured with, the lines it writes into the \<open>log\<close> FIFO that containerd reads, and the key-value
  pairs that \<open>set_logger_kv\<close> adds to all of them.

  Parameters: \<open>parse_level\<close> is \<open>LevelFilter::from_str\<close> of the log crate, \<open>now\<close> the text of the clock,
  and how much of a line the FIFO accepts (its reader may be gone). Levels are those of the log crate in
  its order, \<open>Off\<close> the lowest.
\<close>

section \<open>Levels\<close>

datatype level_filter = Off | Error | Warn | Info | Debug | Trace

primrec level_rank :: "level_filter \<Rightarrow> nat" where
  "level_rank Off = 0"
| "level_rank Error = 1"
| "level_rank Warn = 2"
| "level_rank Info = 3"
| "level_rank Debug = 4"
| "level_rank Trace = 5"

lemma level_rank_inj: "level_rank a = level_rank b \<Longrightarrow> a = b"
  by (cases a; cases b) auto

instantiation level_filter :: linorder
begin

definition less_eq_level_filter :: "level_filter \<Rightarrow> level_filter \<Rightarrow> bool" where
  "less_eq_level_filter a b \<longleftrightarrow> level_rank a \<le> level_rank b"

definition less_level_filter :: "level_filter \<Rightarrow> level_filter \<Rightarrow> bool" where
  "less_level_filter a b \<longleftrightarrow> level_rank a < level_rank b"

instance
  by standard (auto simp: less_eq_level_filter_def less_level_filter_def dest: level_rank_inj)

end

lemmas level_order = less_eq_level_filter_def less_level_filter_def

text \<open>\<open>record.level().as_str().to_lowercase()\<close>.\<close>

primrec level_str :: "level_filter \<Rightarrow> string" where
  "level_str Off = ''off''"
| "level_str Error = ''error''"
| "level_str Warn = ''warn''"
| "level_str Info = ''info''"
| "level_str Debug = ''debug''"
| "level_str Trace = ''trace''"

section \<open>State and operations\<close>

text \<open>The log crate's maximal level and whether a logger is installed, \<open>KEY_VALUES\<close>, and what has been
  written into the FIFO.\<close>

record logger =
  lg_max_level :: level_filter
  lg_installed :: bool
  lg_key_values :: string
  lg_file :: string

definition LOG_ENV :: string where "LOG_ENV = ''RUST_LOG''"

definition visit_pair :: "string \<Rightarrow> string \<times> string \<Rightarrow> string" where
  "visit_pair key_values p = key_values @ '' '' @ fst p @ ''=\"'' @ snd p @ ''\"''"

text \<open>A source of pairs shows its pairs one after the other to the visitor, which writes into a string
  and does not fail; a source that stops early is the list of the pairs it has shown.\<close>

definition visit :: "(string \<times> string) list \<Rightarrow> string" where
  "visit kvs = foldl visit_pair [] kvs"

definition set_logger_kv :: "(string \<times> string) list \<Rightarrow> logger \<Rightarrow> logger" where
  "set_logger_kv kvs g = g\<lparr>lg_key_values := visit kvs\<rparr>"

record log_record =
  rc_level :: level_filter
  rc_kvs :: "(string \<times> string) list"
  rc_args :: string

definition enabled :: "logger \<Rightarrow> level_filter \<Rightarrow> bool" where
  "enabled g l \<longleftrightarrow> l \<le> lg_max_level g"

text \<open>The format string ends in a newline and \<open>writeln!\<close> writes another.\<close>

definition log_line :: "string \<Rightarrow> string \<Rightarrow> log_record \<Rightarrow> string" where
  "log_line now kvs r =
     ''time=\"'' @ now @ ''\" level='' @ level_str (rc_level r) @ kvs @ visit (rc_kvs r)
     @ '' msg=\"'' @ rc_args r @ ''\"'' @ [CHR 0x0A] @ [CHR 0x0A]"

text \<open>\<open>FifoLogger::log\<close>: the pieces of the line are written in order until one of them fails, and the
  failure is ignored; \<open>accepted\<close> is the number of bytes the FIFO took.\<close>

definition fifo_log :: "logger \<Rightarrow> string \<times> nat \<times> log_record \<Rightarrow> logger" where
  "fifo_log g e =
     (case e of (now, accepted, r) \<Rightarrow>
       if enabled g (rc_level r)
       then g\<lparr>lg_file := lg_file g @ take accepted (log_line now (lg_key_values g) r)\<rparr>
       else g)"

definition configure_logging_level ::
  "(string \<Rightarrow> level_filter option) \<Rightarrow> env \<Rightarrow> bool \<Rightarrow> string \<Rightarrow> logger \<Rightarrow> logger" where
  "configure_logging_level parse_level e debug dflt g =
     (let text = unwrap_or dflt (var e LOG_ENV);
          debug_level = (case parse_level text of Some l \<Rightarrow> l | None \<Rightarrow> Info)
      in g\<lparr>lg_max_level := (if debug \<and> Debug > debug_level then Debug else debug_level)\<rparr>)"

datatype logger_error = IoError string | SetLogger

text \<open>\<open>init\<close> on unix: \<open>opened\<close> is the result of opening the FIFO \<open>log\<close> in the working directory;
  \<open>log::set_boxed_logger\<close> refuses a second logger.\<close>

definition logger_init ::
  "(string \<Rightarrow> level_filter option) \<Rightarrow> env \<Rightarrow> (unit, string) result \<Rightarrow> bool \<Rightarrow> string \<Rightarrow> logger \<Rightarrow>
   logger \<times> (unit, logger_error) result" where
  "logger_init parse_level e opened debug dflt g =
     st_then (g, map_err (\<lambda>m. IoError (''failed to init logger: '' @ m)) opened) (\<lambda>g _.
       let g = configure_logging_level parse_level e debug dflt g
       in if lg_installed g then (g, Err SetLogger)
          else (g\<lparr>lg_installed := True\<rparr>, Ok ()))"

section \<open>The logger of Windows\<close>

text \<open>\<open>NamedPipeLogger\<close> (\<open>vendor/containerd_shim/sys/windows/named_pipe_logger.rs\<close>): the name of its pipe, the text
  of a record, and which failures of the pipe it bears.\<close>

definition pipe_name :: "string \<Rightarrow> string \<Rightarrow> string" where
  "pipe_name namespace cid =
     [CHR 0x5C, CHR 0x5C, CHR ''.'', CHR 0x5C] @ ''pipe'' @ [CHR 0x5C] @ ''containerd-shim-'' @ namespace @ ''-'' @ cid @ ''-log''"

datatype pipe_error = Interrupted | WouldBlock | RawOsError int | OtherPipe string

definition pipe_error_ignored :: "pipe_error \<Rightarrow> bool" where
  "pipe_error_ignored e \<longleftrightarrow> e \<in> {Interrupted, WouldBlock, RawOsError 536, RawOsError 232}"

text \<open>\<open>write_all\<close> writes a part of the message and fails, or all of it.\<close>

definition pipe_log ::
  "logger \<Rightarrow> string \<Rightarrow> log_record \<Rightarrow> nat \<times> pipe_error option \<Rightarrow> logger \<times> (unit, string) result" where
  "pipe_log g now r wr =
     (if enabled g (rc_level r) then
        (let message = butlast (log_line now (lg_key_values g) r)
         in case wr of
              (n, None) \<Rightarrow> (g\<lparr>lg_file := lg_file g @ message\<rparr>, Ok ())
            | (n, Some e) \<Rightarrow>
                (g\<lparr>lg_file := lg_file g @ take n message\<rparr>,
                 if pipe_error_ignored e then Ok () else Panic ''Error writing to client''))
      else (g, Ok ()))"

section \<open>Properties\<close>

text \<open>The level that is configured: the text of \<open>RUST_LOG\<close>, or the default level when the variable is not set or not
  valid unicode, read as a level and as \<open>Info\<close> when it is none; with the debug flag the result is never below
  \<open>Debug\<close> and otherwise unchanged. Nothing else of the logger changes.\<close>

theorem logging_level_configured:
  "configure_logging_level parse_level e debug dflt g
   = g\<lparr>lg_max_level :=
        (let chosen = (case e LOG_ENV of Some (Unicode v) \<Rightarrow> v | _ \<Rightarrow> dflt);
             l = (case parse_level chosen of Some l \<Rightarrow> l | None \<Rightarrow> Info)
         in if debug then max Debug l else l)\<rparr>"
  by (auto simp: configure_logging_level_def var_def unwrap_or_def max_def level_order Let_def
      split: option.splits os_value.splits)

lemma foldl_visit_pair: "foldl visit_pair a kvs = a @ concat (map (visit_pair []) kvs)"
  by (induction kvs arbitrary: a) (auto simp: visit_pair_def)

lemma visit_append: "visit (xs @ ys) = visit xs @ visit ys"
  by (simp add: visit_def foldl_visit_pair)

lemma enabled_fifo_log [simp]: "enabled (fifo_log g e) l = enabled g l"
  by (auto simp: fifo_log_def enabled_def split: prod.splits)

lemma lg_key_values_fifo_log [simp]: "lg_key_values (fifo_log g e) = lg_key_values g"
  by (auto simp: fifo_log_def split: prod.splits)

lemma lg_file_fifo_log:
  "lg_file (fifo_log g (now, acc, r))
   = lg_file g @ (if enabled g (rc_level r) then take acc (log_line now (lg_key_values g) r) else [])"
  by (simp add: fifo_log_def)

text \<open>What a run of log calls leaves in the FIFO: when every line is accepted, what was there followed by one line per
  enabled record in the order of the calls, each with its time, its level, the pairs of \<open>set_logger_kv\<close> before its own
  pairs, and its message; the records above the configured level leave nothing.\<close>

theorem log_file_is_enabled_records:
  assumes "\<forall>(now, acc, r) \<in> set es. length (log_line now (lg_key_values g) r) \<le> acc"
  shows "lg_file (foldl fifo_log g es)
    = lg_file g @ concat (map (\<lambda>(now, acc, r). log_line now (lg_key_values g) r)
                          (filter (\<lambda>(now, acc, r). enabled g (rc_level r)) es))"
  using assms
proof (induction es arbitrary: g)
  case (Cons e es)
  obtain now acc r where e: "e = (now, acc, r)" by (cases e)
  have len: "length (log_line now (lg_key_values g) r) \<le> acc" using Cons.prems e by simp
  show ?case
    using Cons.IH [of "fifo_log g e"] Cons.prems len by (simp add: e lg_file_fifo_log)
qed simp

theorem log_file_is_enabled_records_witness:
  "lg_file (foldl fifo_log
     \<lparr>lg_max_level = Info, lg_installed = True, lg_key_values = visit [(''instance'', ''a'')], lg_file = []\<rparr>
     [(''t0'', 100, \<lparr>rc_level = Debug, rc_kvs = [], rc_args = ''hidden''\<rparr>),
      (''t1'', 100, \<lparr>rc_level = Warn, rc_kvs = [(''k'', ''v'')], rc_args = ''seen''\<rparr>)])
   = ''time=\"t1\" level=warn instance=\"a\" k=\"v\" msg=\"seen\"'' @ [CHR 0x0A, CHR 0x0A]"
  using log_file_is_enabled_records
    [of "[(''t0'', 100, \<lparr>rc_level = Debug, rc_kvs = [], rc_args = ''hidden''\<rparr>),
          (''t1'', 100, \<lparr>rc_level = Warn, rc_kvs = [(''k'', ''v'')], rc_args = ''seen''\<rparr>)]"
        "\<lparr>lg_max_level = Info, lg_installed = True, lg_key_values = visit [(''instance'', ''a'')], lg_file = []\<rparr>"]
  by (simp add: log_line_def visit_def visit_pair_def enabled_def level_order)

text \<open>With a FIFO that takes less, nothing that was written is lost and every line is cut to a prefix of itself.\<close>

lemma log_file_only_grows: "prefix (lg_file g) (lg_file (foldl fifo_log g es))"
proof (induction es arbitrary: g)
  case (Cons e es)
  have "prefix (lg_file g) (lg_file (fifo_log g e))" by (cases e) (simp add: lg_file_fifo_log)
  then show ?case using Cons.IH [of "fifo_log g e"] by (auto intro: prefix_order.order_trans)
qed simp

text \<open>The two loggers write the same text, but for the empty line that only the FIFO gets after every record; logging
  never panics on unix, and on Windows exactly when the pipe fails in a way that is not a missing or leaving
  client.\<close>

lemma pipe_log_text:
  assumes "length (log_line now (lg_key_values g) r) \<le> acc"
  shows "lg_file (fifo_log g (now, acc, r)) =
    lg_file (fst (pipe_log g now r (n, None))) @ (if enabled g (rc_level r) then [CHR 0x0A] else [])"
  using assms by (auto simp: fifo_log_def pipe_log_def log_line_def butlast_append Let_def)

lemma pipe_log_panics_iff:
  "is_panic (snd (pipe_log g now r (n, e))) \<longleftrightarrow>
     enabled g (rc_level r) \<and> (\<exists>x. e = Some x \<and> \<not> pipe_error_ignored x)"
  by (auto simp: pipe_log_def Let_def split: option.splits)

text \<open>A second \<open>init\<close> fails, and still changes the level; an \<open>init\<close> that cannot open the FIFO changes nothing.\<close>

lemma logger_init_outcome:
  "logger_init pl e opened debug dflt g =
     (case opened of
        Err m \<Rightarrow> (g, Err (IoError (''failed to init logger: '' @ m)))
      | Panic m \<Rightarrow> (g, Panic m)
      | Ok _ \<Rightarrow>
          (if lg_installed g then (configure_logging_level pl e debug dflt g, Err SetLogger)
           else ((configure_logging_level pl e debug dflt g)\<lparr>lg_installed := True\<rparr>, Ok ())))"
  by (cases opened) (auto simp: logger_init_def configure_logging_level_def Let_def)

end
