(* ===== verification/Test_Harness.thy ===== *)
theory Test_Harness
  imports Content_Client Shim_Main Tar_Builder Instance_Data
begin

text \<open>
  The test harness that the crate exports (\<open>crates/containerd-shim-wasm/src/testing.rs\<close>):
  \<open>WasiTestBuilder\<close> and \<open>WasiTest\<close>, which run one instance in a bundle of their own, and
  \<open>oci_helpers\<close>, which drives containerd with its command line tool \<open>ctr\<close>.

  The file system and the processes are the fields of \<open>host\<close>, over a world \<open>'w\<close>; the instance under test is
  an \<open>instance_ops\<close>, and the image is built by the builder of \<open>Tar_Builder\<close>.
\<close>

section \<open>The host\<close>

record 'w host =
  h_tempdir :: "'w \<Rightarrow> 'w \<times> (path, string) result"
  h_create_dir :: "'w \<Rightarrow> path \<Rightarrow> 'w \<times> (unit, string) result"
  h_write :: "'w \<Rightarrow> path \<Rightarrow> string \<Rightarrow> 'w \<times> (unit, string) result"
  h_remove_file :: "'w \<Rightarrow> path \<Rightarrow> 'w \<times> (unit, string) result"
  h_symlink :: "'w \<Rightarrow> path \<Rightarrow> path \<Rightarrow> 'w \<times> (unit, string) result"
  h_canonicalize :: "'w \<Rightarrow> path \<Rightarrow> (path, string) result"
  h_read :: "'w \<Rightarrow> path \<Rightarrow> (string, string) result"
  h_is_symlink :: "'w \<Rightarrow> path \<Rightarrow> bool"
  h_status :: "'w \<Rightarrow> string list \<Rightarrow> 'w \<times> (bool, string) result"
  h_output :: "'w \<Rightarrow> string list \<Rightarrow> 'w \<times> (string, string) result"
  h_pipe :: "'w \<Rightarrow> string list \<Rightarrow> string list \<Rightarrow> 'w \<times> (string, string) result"
  h_elapse :: "'w \<Rightarrow> nat \<Rightarrow> 'w"
  h_clock :: "'w \<Rightarrow> nat"

type_synonym ('w, 'a) io = "'w \<times> ('a, string) result"

definition TEST_NAMESPACE :: string where "TEST_NAMESPACE = ''runwasi-test''"

definition SIGKILL :: u32 where "SIGKILL = 9"

definition SIGINT :: u32 where "SIGINT = 2"

definition SIGTERM :: u32 where "SIGTERM = 15"

section \<open>The ctr tool\<close>

text \<open>\<open>Command::new("ctr").arg("-n").arg(TEST_NAMESPACE)\<close> and the arguments; the status of the command must be
  success.\<close>

definition ctr_args :: "string list \<Rightarrow> string list" where
  "ctr_args as = [''ctr'', ''-n'', TEST_NAMESPACE] @ as"

definition ctr_success :: "'w host \<Rightarrow> string list \<Rightarrow> string \<Rightarrow> 'w \<Rightarrow> ('w, unit) io" where
  "ctr_success h as msg w =
     st_then (h_status h w (ctr_args as)) (\<lambda>w success. (w, if success then Ok () else Err msg))"

definition clean_container :: "'w host \<Rightarrow> string \<Rightarrow> 'w \<Rightarrow> ('w, unit) io" where
  "clean_container h cname w = ctr_success h [''c'', ''rm'', cname] ''failed to clean container'' w"

definition create_container :: "'w host \<Rightarrow> string \<Rightarrow> string \<Rightarrow> 'w \<Rightarrow> ('w, unit) io" where
  "create_container h cname img w =
     ctr_success h [''c'', ''create'', img, cname] '' failed to create container for image'' w"

definition remove_content :: "'w host \<Rightarrow> string \<Rightarrow> 'w \<Rightarrow> ('w, unit) io" where
  "remove_content h dgst w = ctr_success h [''content'', ''rm'', dgst] ''failed to remove content'' w"

text \<open>\<open>stdout.contains(image_name)\<close>; a command that cannot be run panics.\<close>

definition image_exists :: "'w host \<Rightarrow> string \<Rightarrow> 'w \<Rightarrow> ('w, bool) io" where
  "image_exists h img w =
     (case h_output h w (ctr_args [''i'', ''ls'', ''--quiet'']) of
        (w, Ok out) \<Rightarrow> (w, Ok (sublist img out))
      | (w, Err e) \<Rightarrow> (w, Panic ''failed to get output of image list'')
      | (w, Panic m) \<Rightarrow> (w, Panic m))"

text \<open>\<open>ctr i ls | grep <image>\<close>: the third of the pieces between single blanks.\<close>

definition sha_of_listing :: "string \<Rightarrow> (string, string) result" where
  "sha_of_listing out =
     (let parts = split_on CHR '' '' (trim out)
      in if length parts < 3 then Err ''failed to get image sha'' else Ok (parts ! 2))"

definition get_image_sha :: "'w host \<Rightarrow> string \<Rightarrow> 'w \<Rightarrow> ('w, string) io" where
  "get_image_sha h img w =
     st_then (h_pipe h w (ctr_args [''i'', ''ls'']) [''grep'', img]) (\<lambda>w out. (w, sha_of_listing out))"

text \<open>Key and value of a label: what is before the first and after the last \<open>=\<close>.\<close>

definition label_of_listing :: "string \<Rightarrow> string \<times> string" where
  "label_of_listing out =
     (let label = split_on CHR ''='' out in (trim (hd label), trim (last label)))"

definition get_image_label :: "'w host \<Rightarrow> 'w \<Rightarrow> ('w, string \<times> string) io" where
  "get_image_label h w =
     st_then (h_pipe h w (ctr_args [''i'', ''ls'']) [''grep'', ''-ohE'', ''runwasi.io/precompiled/.*'']) (\<lambda>w out.
       (w, Ok (label_of_listing out)))"

definition get_content_label :: "'w host \<Rightarrow> 'w \<Rightarrow> ('w, string \<times> string) io" where
  "get_content_label h w =
     st_then (h_pipe h w (ctr_args [''content'', ''ls''])
               [''grep'', ''-ohE'', ''runwasi.io/precompiled/[[:alpha:]]*/[0-9]+=.*'']) (\<lambda>w out.
       (w, Ok (label_of_listing out)))"

text \<open>The loop of \<open>wait_for_content_removal\<close>, entered at the time \<open>start\<close> (in milliseconds): it ends when the
  content is gone and when more than 60 seconds have passed.\<close>

partial_function (option) removal_loop ::
  "'w host \<Rightarrow> nat \<Rightarrow> string \<Rightarrow> 'w \<Rightarrow> ('w \<times> (unit, string) result) option" where
  "removal_loop h start sha w =
     (case h_output h w (ctr_args [''content'', ''get'', sha]) of
        (w, Err e) \<Rightarrow> Some (w, Err e)
      | (w, Panic m) \<Rightarrow> Some (w, Panic m)
      | (w, Ok out) \<Rightarrow>
          (if out = [] then Some (w, Ok ())
           else if 60000 < h_clock h w - start then Some (w, Ok ())
           else removal_loop h start sha w))"

definition wait_for_content_removal :: "'w host \<Rightarrow> string \<Rightarrow> 'w \<Rightarrow> ('w \<times> (unit, string) result) option" where
  "wait_for_content_removal h sha w = removal_loop h (h_clock h w) sha w"

text \<open>\<open>clean_image\<close>: an image that is not listed is none to clean.\<close>

definition clean_image :: "'w host \<Rightarrow> string \<Rightarrow> 'w \<Rightarrow> ('w \<times> (unit, string) result) option" where
  "clean_image h img w =
     (case get_image_sha h img w of
        (w, Err e) \<Rightarrow> Some (w, Ok ())
      | (w, Panic m) \<Rightarrow> Some (w, Panic m)
      | (w, Ok sha) \<Rightarrow>
          (case ctr_success h [''i'', ''rm'', img] ''failed to clean image'' w of
             (w, Ok _) \<Rightarrow> wait_for_content_removal h sha w
           | (w, Err e) \<Rightarrow> Some (w, Err e)
           | (w, Panic m) \<Rightarrow> Some (w, Panic m)))"

record oci_cleanup =
  oc_image_name :: string
  oc_container_name :: string

text \<open>\<open>OCICleanup::drop\<close>: both results are unwrapped.\<close>

definition unwrap :: "('a, string) result \<Rightarrow> ('a, string) result" where
  "unwrap r = (case r of Err e \<Rightarrow> Panic ''called Result::unwrap() on an Err value'' | _ \<Rightarrow> r)"

definition cleanup_drop :: "'w host \<Rightarrow> oci_cleanup \<Rightarrow> 'w \<Rightarrow> ('w \<times> (unit, string) result) option" where
  "cleanup_drop h g w =
     (case clean_container h (oc_container_name g) w of
        (w, Ok _) \<Rightarrow> map_option (\<lambda>(w, r). (w, unwrap r)) (clean_image h (oc_image_name g) w)
      | (w, r) \<Rightarrow> Some (w, unwrap r))"

section \<open>Importing an image\<close>

record image_content =
  ct_bytes :: string
  ct_media_type :: string

fun write_layers ::
  "'w host \<Rightarrow> path \<Rightarrow> nat \<Rightarrow> image_content list \<Rightarrow> 'c builder \<Rightarrow> 'w \<Rightarrow> ('w, 'c builder) io" where
  "write_layers h dir i [] b w = (w, Ok b)"
| "write_layers h dir i (c # cs) b w =
     (let p = path_join dir (show_nat i @ ''.wasm'')
      in st_then (h_write h w p (ct_bytes c)) (\<lambda>w _.
           write_layers h dir (Suc i) cs (add_layer_with_media_type b p (ct_media_type c)) w))"

text \<open>The image's configuration, and how it is written, are of the image crate; \<open>archive\<close> is the text of the tar
  file with the entries of \<open>Builder::build\<close>.\<close>

definition import_image ::
  "'w host \<Rightarrow> ('w \<Rightarrow> tar_env) \<Rightarrow> (tar_entry list \<Rightarrow> string) \<Rightarrow> 'c oci_config \<Rightarrow> 'c \<Rightarrow> string \<Rightarrow> image_content list \<Rightarrow> 'w \<Rightarrow>
   ('w, unit) io" where
  "import_image h tar archive oc img_config img contents w =
     st_then (h_tempdir h w) (\<lambda>w dir.
     st_then (write_layers h dir 0 contents builder_default w) (\<lambda>w b.
     st_then (h_write h w (path_join dir ''img.tar'') []) (\<lambda>w _.
     st_then (w, build (tar w) oc
                  (add_config b img_config img ''application/vnd.oci.image.config.v1+json'')) (\<lambda>w entries.
     st_then (h_write h w (path_join dir ''img.tar'') (archive entries)) (\<lambda>w _.
       ctr_success h [''image'', ''import'', ''--all-platforms'', path_join dir ''img.tar'']
         '' failed to import image'' w)))))"

section \<open>The test builder\<close>

record wasi_test_builder =
  tb_container_name :: string
  tb_start_fn :: string
  tb_namespaces :: "string list"
  tb_tempdir :: path

definition with_name :: "string \<Rightarrow> wasi_test_builder \<Rightarrow> wasi_test_builder" where
  "with_name nm b = b\<lparr>tb_container_name := nm\<rparr>"

definition with_host_network :: "wasi_test_builder \<Rightarrow> wasi_test_builder" where
  "with_host_network b = b\<lparr>tb_namespaces := filter (\<lambda>ns. ns \<noteq> ''network'') (tb_namespaces b)\<rparr>"

definition with_start_fn :: "string \<Rightarrow> wasi_test_builder \<Rightarrow> wasi_test_builder" where
  "with_start_fn f b = b\<lparr>tb_start_fn := f\<rparr>"

definition wasm_file :: "wasi_test_builder \<Rightarrow> path" where
  "wasm_file b = path_join (path_join (tb_tempdir b) ''rootfs'') ''hello.wasm''"

definition with_wasm :: "'w host \<Rightarrow> string \<Rightarrow> wasi_test_builder \<Rightarrow> 'w \<Rightarrow> ('w, wasi_test_builder) io" where
  "with_wasm h bytes b w = st_then (h_write h w (wasm_file b) bytes) (\<lambda>w _. (w, Ok b))"

definition with_stdin :: "'w host \<Rightarrow> string \<Rightarrow> wasi_test_builder \<Rightarrow> 'w \<Rightarrow> ('w, wasi_test_builder) io" where
  "with_stdin h bytes b w = st_then (h_write h w (path_join (tb_tempdir b) ''stdin'') bytes) (\<lambda>w _. (w, Ok b))"

text \<open>\<open>with_stdout\<close> and \<open>with_stderr\<close>: the file of the bundle becomes a link.\<close>

definition with_stdio :: "string \<Rightarrow> 'w host \<Rightarrow> path \<Rightarrow> wasi_test_builder \<Rightarrow> 'w \<Rightarrow> ('w, wasi_test_builder) io" where
  "with_stdio f h p b w =
     st_then (w, h_canonicalize h w p) (\<lambda>w tgt.
     st_then (h_remove_file h w (path_join (tb_tempdir b) f)) (\<lambda>w _.
     st_then (h_symlink h w tgt (path_join (tb_tempdir b) f)) (\<lambda>w _. (w, Ok b))))"

definition with_stdout :: "'w host \<Rightarrow> path \<Rightarrow> wasi_test_builder \<Rightarrow> 'w \<Rightarrow> ('w, wasi_test_builder) io" where
  "with_stdout = with_stdio ''stdout''"

definition with_stderr :: "'w host \<Rightarrow> path \<Rightarrow> wasi_test_builder \<Rightarrow> 'w \<Rightarrow> ('w, wasi_test_builder) io" where
  "with_stderr = with_stdio ''stderr''"

text \<open>\<open>WasiTestBuilder::new\<close>; \<open>options\<close> is the JSON of the map with the one key \<open>root\<close>, \<open>namespaces\<close> the
  default namespaces of the runtime crate. The empty module is eight bytes.\<close>

definition empty_module :: string where
  "empty_module = [CHR 0x00, CHR ''a'', CHR ''s'', CHR ''m'', CHR 0x01, CHR 0x00, CHR 0x00, CHR 0x00]"

definition builder_new ::
  "'w host \<Rightarrow> (path \<Rightarrow> string) \<Rightarrow> string list \<Rightarrow> 'w \<Rightarrow> ('w, wasi_test_builder) io" where
  "builder_new h options namespaces w =
     st_then (h_tempdir h w) (\<lambda>w dir.
     st_then (h_create_dir h w (path_join dir ''rootfs'')) (\<lambda>w _.
     st_then (h_create_dir h w (path_join dir ''runwasi'')) (\<lambda>w _.
     st_then (h_write h w (path_join dir ''options.json'') (options (path_join dir ''runwasi''))) (\<lambda>w _.
     st_then (h_write h w (path_join dir ''stdout'') []) (\<lambda>w _.
     st_then (h_write h w (path_join dir ''stderr'') []) (\<lambda>w _.
     st_then (with_wasm h empty_module
               \<lparr>tb_container_name = ''test'', tb_start_fn = [], tb_namespaces = namespaces, tb_tempdir = dir\<rparr> w) (\<lambda>w b.
       with_stdin h [] b w)))))))"

text \<open>\<open>as_oci_image\<close>: the module leaves the root file system only when the image is imported here.\<close>

definition as_oci_image ::
  "'w host \<Rightarrow> (string \<Rightarrow> image_content list \<Rightarrow> 'w \<Rightarrow> ('w, unit) io) \<Rightarrow> string option \<Rightarrow> string option \<Rightarrow>
   wasi_test_builder \<Rightarrow> 'w \<Rightarrow> ('w, wasi_test_builder \<times> oci_cleanup) io" where
  "as_oci_image h import img cname b w =
     (let img = (case img of Some i \<Rightarrow> i | None \<Rightarrow> ''localhost/hello:latest'');
          cname = (case cname of Some c \<Rightarrow> c | None \<Rightarrow> ''test'')
      in st_then (image_exists h img w) (\<lambda>w exists.
         st_then
           (if exists then (w, Ok ())
            else st_then (w, h_read h w (wasm_file b)) (\<lambda>w bytes.
                 st_then (import img [\<lparr>ct_bytes = bytes, ct_media_type = WASM_LAYER_MEDIA_TYPE\<rparr>] w) (\<lambda>w _.
                   h_remove_file h w (wasm_file b))))
           (\<lambda>w _.
         st_then (create_container h cname img w) (\<lambda>w _.
           (w, Ok (b\<lparr>tb_container_name := cname\<rparr>, \<lparr>oc_image_name = img, oc_container_name = cname\<rparr>))))))"

section \<open>The test\<close>

record 'i wasi_test =
  wt_instance :: 'i
  wt_tempdir :: path

definition test_entrypoint :: "string \<Rightarrow> string" where
  "test_entrypoint start_fn = (if start_fn = [] then ''/hello.wasm'' else ''/hello.wasm#'' @ start_fn)"

definition test_config :: "path \<Rightarrow> instance_config" where
  "test_config dir =
     \<lparr>ic_stdin = path_join dir ''stdin'', ic_stdout = path_join dir ''stdout'', ic_stderr = path_join dir ''stderr'',
      ic_bundle = dir, ic_namespace = TEST_NAMESPACE,
      ic_containerd_address = ''/run/containerd/containerd.sock'', ic_config = default_config\<rparr>"

text \<open>\<open>build\<close>: \<open>spec_json\<close> is the runtime spec with the root \<open>rootfs\<close>, these namespaces, the working directory
  \<open>/\<close> and these arguments.\<close>

definition builder_build ::
  "'w host \<Rightarrow> ('w, 'i) instance_ops \<Rightarrow> (string list \<Rightarrow> string list \<Rightarrow> string) \<Rightarrow> (sandbox_error \<Rightarrow> string) \<Rightarrow>
   wasi_test_builder \<Rightarrow> 'w \<Rightarrow> ('w, 'i wasi_test) io" where
  "builder_build h ops spec_json disp b w =
     st_then (h_write h w (path_join (tb_tempdir b) ''config.json'')
               (spec_json (tb_namespaces b) [test_entrypoint (tb_start_fn b)])) (\<lambda>w _.
       case i_new ops w (tb_container_name b) (test_config (tb_tempdir b)) of
         (w, r) \<Rightarrow> st_then (w, map_err disp r) (\<lambda>w i. (w, Ok \<lparr>wt_instance = i, wt_tempdir = tb_tempdir b\<rparr>)))"

definition test_start ::
  "('w, 'i) instance_ops \<Rightarrow> (sandbox_error \<Rightarrow> string) \<Rightarrow> 'i wasi_test \<Rightarrow> 'w \<Rightarrow> ('w, unit) io" where
  "test_start ops disp t w =
     (case i_start ops w (wt_instance t) of (w, r) \<Rightarrow> (w, and_then (map_err disp r) (\<lambda>_. Ok ())))"

definition test_delete ::
  "('w, 'i) instance_ops \<Rightarrow> (sandbox_error \<Rightarrow> string) \<Rightarrow> 'i wasi_test \<Rightarrow> 'w \<Rightarrow> ('w, unit) io" where
  "test_delete ops disp t w = (case i_delete ops w (wt_instance t) of (w, r) \<Rightarrow> (w, map_err disp r))"

definition test_signal ::
  "('w, 'i) instance_ops \<Rightarrow> (sandbox_error \<Rightarrow> string) \<Rightarrow> u32 \<Rightarrow> 'i wasi_test \<Rightarrow> 'w \<Rightarrow> ('w, unit) io" where
  "test_signal ops disp sig t w = (case i_kill ops w (wt_instance t) sig of (w, r) \<Rightarrow> (w, map_err disp r))"

text \<open>\<open>ctrl_c\<close>, \<open>terminate\<close> and \<open>kill\<close>.\<close>

definition ctrl_c :: "('w, 'i) instance_ops \<Rightarrow> (sandbox_error \<Rightarrow> string) \<Rightarrow> 'i wasi_test \<Rightarrow> 'w \<Rightarrow> ('w, unit) io" where
  "ctrl_c ops disp = test_signal ops disp SIGINT"

definition terminate :: "('w, 'i) instance_ops \<Rightarrow> (sandbox_error \<Rightarrow> string) \<Rightarrow> 'i wasi_test \<Rightarrow> 'w \<Rightarrow> ('w, unit) io" where
  "terminate ops disp = test_signal ops disp SIGTERM"

definition test_kill :: "('w, 'i) instance_ops \<Rightarrow> (sandbox_error \<Rightarrow> string) \<Rightarrow> 'i wasi_test \<Rightarrow> 'w \<Rightarrow> ('w, unit) io" where
  "test_kill ops disp = test_signal ops disp SIGKILL"

text \<open>\<open>read_stdout\<close> and \<open>read_stderr\<close>: nothing when the test has redirected the file.\<close>

definition read_stdio :: "'w host \<Rightarrow> string \<Rightarrow> 'i wasi_test \<Rightarrow> 'w \<Rightarrow> (string option, string) result" where
  "read_stdio h f t w =
     (let p = path_join (wt_tempdir t) f
      in if h_is_symlink h w p then Ok None else and_then (h_read h w p) (\<lambda>s. Ok (Some s)))"

definition or_empty :: "string option \<Rightarrow> string" where
  "or_empty s = (case s of Some s \<Rightarrow> s | None \<Rightarrow> [])"

text \<open>\<open>WasiTest::wait\<close>: \<open>h_elapse\<close> lets the time pass until the instance exits or the timeout is over.\<close>

definition test_wait ::
  "'w host \<Rightarrow> ('w, 'i) instance_ops \<Rightarrow> (sandbox_error \<Rightarrow> string) \<Rightarrow> nat \<Rightarrow> 'i wasi_test \<Rightarrow> 'w \<Rightarrow>
   ('w, u32 \<times> string \<times> string) io" where
  "test_wait h ops disp timeout t w =
     (let w = h_elapse h w timeout
      in case i_poll ops w (wt_instance t) of
           None \<Rightarrow> st_then (test_kill ops disp t w) (\<lambda>w _. (w, Err ''timeout while waiting for module to finish''))
         | Some (status, _) \<Rightarrow>
             st_then (w, read_stdio h ''stdout'' t w) (\<lambda>w out.
             st_then (w, read_stdio h ''stderr'' t w) (\<lambda>w err.
             st_then (test_delete ops disp t w) (\<lambda>w _. (w, Ok (status, or_empty out, or_empty err))))))"

section \<open>Properties\<close>

text \<open>The entrypoint the harness writes into the spec of a test is read back by the runtime: the module is
  \<open>/hello.wasm\<close> and the function is the one that was asked for, whatever characters it has, or \<open>_start\<close>.\<close>

theorem test_entrypoint_roundtrip:
  "entrypoint_of \<lparr>ctx_process = Some \<lparr>pr_args = Some [test_entrypoint f], pr_env = None\<rparr>, wasm_layers = []\<rparr>
   = \<lparr>func = (if f = [] then ''_start'' else f), name = Some ''hello'', arg0 = Some (test_entrypoint f),
      source = File ''/hello.wasm''\<rparr>"
proof -
  let ?ctx = "\<lparr>ctx_process = Some \<lparr>pr_args = Some [test_entrypoint f], pr_env = None\<rparr>, wasm_layers = []\<rparr>"
  have a: "args ?ctx = [test_entrypoint f]" by (simp add: args_def)
  have s: "split_entrypoint (test_entrypoint f) = (''/hello.wasm'', if f = [] then ''_start'' else f)"
    using split_entrypoint_hash [of "''/hello.wasm''" f] split_entrypoint_plain [of "''/hello.wasm''"]
    by (simp add: test_entrypoint_def)
  have n: "file_stem ''/hello.wasm'' = Some ''hello''"
    by (simp add: file_stem_def file_name_def components_def is_absolute_def rsplit_dot_def)
  show ?thesis using entrypoint_args_Cons [OF a s] n by simp
qed

text \<open>A test that has its module as the only file of the bundle is handled: the bytes a new builder writes are a wasm
  module for the runtime's check.\<close>

lemma empty_module_is_wasm: "take 4 empty_module = wasm_magic"
  by (simp add: empty_module_def wasm_magic_def)

text \<open>\<open>wait\<close> of a test: after a timeout the instance has been sent \<open>SIGKILL\<close> and the test fails, and the instance is
  not deleted; an instance that exited is deleted after its output was read, and the result is its status with the
  output, each empty when the test redirected it; when an output cannot be read the test fails and nothing is deleted.\<close>

theorem test_wait_outcome:
  "test_wait h ops disp timeout t w =
    (let w1 = h_elapse h w timeout in
     case i_poll ops w1 (wt_instance t) of
       None \<Rightarrow>
         (case i_kill ops w1 (wt_instance t) 9 of
            (w2, Ok _) \<Rightarrow> (w2, Err ''timeout while waiting for module to finish'')
          | (w2, Err e) \<Rightarrow> (w2, Err (disp e))
          | (w2, Panic m) \<Rightarrow> (w2, Panic m))
     | Some (status, at) \<Rightarrow>
         (case (read_stdio h ''stdout'' t w1, read_stdio h ''stderr'' t w1) of
            (Ok out, Ok err) \<Rightarrow>
              (case i_delete ops w1 (wt_instance t) of
                 (w2, Ok _) \<Rightarrow> (w2, Ok (status, or_empty out, or_empty err))
               | (w2, Err e) \<Rightarrow> (w2, Err (disp e))
               | (w2, Panic m) \<Rightarrow> (w2, Panic m))
          | (Ok out, Err e) \<Rightarrow> (w1, Err e) | (Ok out, Panic m) \<Rightarrow> (w1, Panic m)
          | (Err e, _) \<Rightarrow> (w1, Err e) | (Panic m, _) \<Rightarrow> (w1, Panic m)))"
  unfolding test_wait_def test_kill_def test_signal_def test_delete_def SIGKILL_def Let_def
  by (auto split: option.split prod.split result.split)

text \<open>Every turn of the loop runs a command, and a command takes time.\<close>

definition ticks :: "'w host \<Rightarrow> bool" where
  "ticks h \<longleftrightarrow> (\<forall>w as. h_clock h w < h_clock h (fst (h_output h w as)))"

lemma removal_loop_ends:
  assumes "ticks h" and "start \<le> h_clock h w"
  shows "\<exists>w' r. removal_loop h start sha w = Some (w', r) \<and> h_clock h w < h_clock h w' \<and>
    (r = Ok () \<longrightarrow> (\<exists>w0. h_output h w0 (ctr_args [''content'', ''get'', sha]) = (w', Ok []))
       \<or> 60000 < h_clock h w' - start)"
  using assms(2)
proof (induction "60001 + start - h_clock h w" arbitrary: w rule: less_induct)
  case less
  obtain w1 r where o: "h_output h w (ctr_args [''content'', ''get'', sha]) = (w1, r)" by (metis prod.exhaust)
  have later: "h_clock h w < h_clock h w1"
    using assms(1) o unfolding ticks_def by (metis fst_conv)
  show ?case
  proof (cases "(\<exists>out. r = Ok out \<and> out \<noteq> []) \<and> \<not> 60000 < h_clock h w1 - start")
    case False
    then show ?thesis using o later by (subst removal_loop.simps) (cases r; force)
  next
    case True
    then obtain out where out: "r = Ok out" "out \<noteq> []" "\<not> 60000 < h_clock h w1 - start" by blast
    have step: "removal_loop h start sha w = removal_loop h start sha w1"
      using o out by (subst removal_loop.simps) simp
    have "60001 + start - h_clock h w1 < 60001 + start - h_clock h w" "start \<le> h_clock h w1"
      using later less.prems out(3) by linarith+
    from less.hyps [OF this] show ?thesis using later unfolding step by (meson order_less_trans)
  qed
qed

text \<open>\<open>wait_for_content_removal\<close> returns, on a clock that advances by at least a millisecond with every command: with
  success only when the content was gone or more than 60 seconds had passed.\<close>

theorem wait_for_content_removal_ends:
  assumes "ticks h"
  shows "\<exists>w' r. wait_for_content_removal h sha w = Some (w', r)
    \<and> (r = Ok () \<longrightarrow> (\<exists>w0. h_output h w0 (ctr_args [''content'', ''get'', sha]) = (w', Ok []))
         \<or> 60000 < h_clock h w' - h_clock h w)"
  using removal_loop_ends [OF assms, of "h_clock h w" w sha] unfolding wait_for_content_removal_def by auto

text \<open>A host whose world is its clock and whose content is never removed.\<close>

definition demo_host :: "nat host" where
  "demo_host =
     \<lparr>h_tempdir = \<lambda>w. (w, Ok ''/tmp/t''), h_create_dir = \<lambda>w p. (w, Ok ()), h_write = \<lambda>w p s. (w, Ok ()),
      h_remove_file = \<lambda>w p. (w, Ok ()), h_symlink = \<lambda>w a b. (w, Ok ()), h_canonicalize = \<lambda>w p. Ok p,
      h_read = \<lambda>w p. Ok [], h_is_symlink = \<lambda>w p. False, h_status = \<lambda>w as. (w + 1, Ok True),
      h_output = \<lambda>w as. (w + 25000, Ok ''content''), h_pipe = \<lambda>w as bs. (w + 1, Ok ''i t sha256:x ''),
      h_elapse = \<lambda>w t. w + t, h_clock = \<lambda>w. w\<rparr>"

lemma demo_clock: "h_clock demo_host w = w"
  by (simp add: demo_host_def)

lemma demo_removal: "removal_loop demo_host 5 sha w =
    (if 60005 < w + 25000 then Some (w + 25000, Ok ()) else removal_loop demo_host 5 sha (w + 25000))"
  by (subst removal_loop.simps) (simp add: demo_host_def less_diff_conv)

theorem wait_for_content_removal_ends_witness:
  "\<exists>w'. wait_for_content_removal demo_host ''sha256:x'' 5 = Some (w', Ok ()) \<and> 60000 < w' - 5"
proof -
  have t: "ticks demo_host" by (simp add: ticks_def demo_host_def)
  have "wait_for_content_removal demo_host ''sha256:x'' 5 = Some (75005, Ok ())"
    by (simp add: wait_for_content_removal_def demo_clock demo_removal)
  then show ?thesis
    using wait_for_content_removal_ends [OF t, of "''sha256:x''" 5] by (auto simp: demo_host_def)
qed

text \<open>The label of a precompiled layer is read back from its line in the listing, \<open>key=value\<close> and a newline: the key is
  the label the content client puts on the image for this engine and version, the value the digest it points to.\<close>

theorem precompile_label_read_back:
  assumes "CHR ''='' \<notin> set engine" and "CHR ''='' \<notin> set v" and "v \<noteq> []" "\<not> is_ws (hd v)" "\<not> is_ws (last v)"
  shows "label_of_listing (precompile_label engine version @ ''='' @ v @ [CHR 0x0A]) = (precompile_label engine version, v)"
proof -
  let ?k = "precompile_label engine version"
  have "last (show_nat (unat version)) \<in> set (show_nat (unat version))" by (rule last_in_set) simp
  then have l: "\<not> is_ws (last (show_nat (unat version)))" by (rule show_nat_not_ws)
  have k: "CHR ''='' \<notin> set ?k" "?k \<noteq> []" "\<not> is_ws (hd ?k)" "\<not> is_ws (last ?k)"
    using assms(1) l show_nat_digits [of "CHR ''=''" "unat version"]
    by (simp_all add: precompile_label_def PRECOMPILE_PREFIX_def char_digit_def) (simp add: is_ws_def)
  have "split_on CHR ''='' (?k @ ''='' @ v @ [CHR 0x0A]) = [?k, v @ [CHR 0x0A]]"
    using k(1) assms(2) split_on_append [of "CHR ''=''" ?k "v @ [CHR 0x0A]"] by (simp add: split_on_none)
  then show ?thesis
    using trim_no_ws_ends [OF k(2-4)] trim_padded [of "[]" "[CHR 0x0A]" v] assms(3-5)
    by (simp add: label_of_listing_def is_ws_def)
qed

theorem precompile_label_read_back_witness:
  "label_of_listing (precompile_label ''wasmtime'' 7 @ ''='' @ ''sha256:ab'' @ [CHR 0x0A])
   = (precompile_label ''wasmtime'' 7, ''sha256:ab'')"
  by (rule precompile_label_read_back) (simp_all add: is_ws_def)

text \<open>When an image with the name is listed already, whatever it contains, the module stays in the root file
  system of the test: nothing is read, imported or removed.\<close>

lemma as_oci_image_listed:
  "image_exists h img w = (w1, Ok True) \<Longrightarrow>
   as_oci_image h import (Some img) (Some c) b w =
     st_then (create_container h c img w1) (\<lambda>w _.
       (w, Ok (b\<lparr>tb_container_name := c\<rparr>, \<lparr>oc_image_name = img, oc_container_name = c\<rparr>)))"
  by (simp add: as_oci_image_def)

text \<open>A name that is part of a listed name counts as listed.\<close>

lemma image_exists_sublist:
  "h_output h w (ctr_args [''i'', ''ls'', ''--quiet'']) = (w1, Ok (a @ img @ b)) \<Longrightarrow> image_exists h img w = (w1, Ok True)"
  by (simp add: image_exists_def sublist_appendI)

text \<open>A container that cannot be removed makes the guard panic before the image is touched.\<close>

lemma cleanup_drop_container_first:
  "clean_container h (oc_container_name g) w = (w1, Err e) \<Longrightarrow>
   cleanup_drop h g w = Some (w1, Panic ''called Result::unwrap() on an Err value'')"
  by (simp add: cleanup_drop_def unwrap_def)

text \<open>The layers that are imported are the contents in their order, each in a file of its own with its media type.\<close>

lemma write_layers_Ok:
  "write_layers h dir i cs b w = (w', Ok b') \<Longrightarrow>
   b_layers b' = b_layers b @
     map (\<lambda>(j, c). (path_join dir (show_nat j @ ''.wasm''), ct_media_type c)) (List.enumerate i cs)
   \<and> b_configs b' = b_configs b"
proof (induction cs arbitrary: i b w)
  case (Cons c cs)
  obtain w1 where w1: "write_layers h dir (Suc i) cs
      (add_layer_with_media_type b (path_join dir (show_nat i @ ''.wasm'')) (ct_media_type c)) w1 = (w', Ok b')"
    using Cons.prems by (auto simp: Let_def res_simps)
  show ?case using Cons.IH [OF w1] by (simp add: add_layer_with_media_type_def)
qed simp

text \<open>The layer that \<open>as_oci_image\<close> imports is one that every engine loads by default.\<close>

lemma imported_layer_supported: "is_wasm_layer WASM_LAYER_MEDIA_TYPE supported_layers_types"
  by (simp add: is_wasm_layer_def WASM_LAYER_MEDIA_TYPE_def supported_layers_types_def)

end
