(* ===== verification/Stress_Test.thy ===== *)
theory Stress_Test
  imports Base
begin

text \<open>
  The load generator (\<open>crates/stress-test\<close>): the scheduler of \<open>run_stress_test\<close> (\<open>src/main.rs\<close>), the
  tasks it deletes exactly once (\<open>src/utils.rs\<close>, \<open>src/mocks/task.rs\<close>, \<open>src/containerd/task.rs\<close>), and
  the reading of image content and chain ids (\<open>src/containerd/client.rs\<close>).

  The shim under test answers each call with success or failure, the labels of the steps.
\<close>

section \<open>Names\<close>

definition make_task_id :: "u32 \<Rightarrow> u64 \<Rightarrow> u64 \<times> string" where
  "make_task_id pid counter =
     (counter + 1, ''shim-stress-test-'' @ show_nat (unat pid) @ ''-task-'' @ show_nat (unat counter))"

definition get_runtime :: "path \<Rightarrow> string option" where
  "get_runtime p =
     Option.bind (file_name p) (\<lambda>f.
     Option.bind (strip_prefix ''containerd-shim-'' f) (\<lambda>r.
     map_option fst (split_once CHR ''-'' r)))"

definition default_entrypoint ::
  "(string \<Rightarrow> (string list, string) result) \<Rightarrow> string \<Rightarrow> (string list, string) result" where
  "default_entrypoint entrypoint img =
     (let nm = (case split_once CHR '':'' img of Some (a, _) \<Rightarrow> a | None \<Rightarrow> img)
      in if nm = ''ghcr.io/containerd/runwasi/wasi-demo-app'' then Ok [''/wasi-demo-app.wasm'', ''echo'', ''hello'']
         else if nm = ''ghcr.io/containerd/runwasi/wasi-demo-oci'' then Ok [''/wasi-demo-oci.wasm'', ''echo'', ''hello'']
         else entrypoint img)"

definition chain_id :: "(string \<Rightarrow> string) \<Rightarrow> string list \<Rightarrow> string" where
  "chain_id sha256 digests =
     foldl (\<lambda>c d. ''sha256:'' @ sha256 (c @ '' '' @ d)) (case digests of [] \<Rightarrow> [] | d # _ \<Rightarrow> d) (drop 1 digests)"

text \<open>The messages of a content stream: offset (as \<open>usize\<close>) and data, or an error.\<close>

fun read_stream :: "string \<Rightarrow> (u64 \<times> string, string) result list \<Rightarrow> (string, string) result" where
  "read_stream data [] = Ok data"
| "read_stream data (r # rs) =
     and_then r (\<lambda>(off, d). if unat off \<noteq> length data then Err ''bad offset!'' else read_stream (data @ d) rs)"

section \<open>The scheduler\<close>

datatype worker =
  Setup | AtBarrier | WaitPermit | Creating | Starting | Waiting | Deleting | Finished bool | Reported bool

datatype ending = AllDone | Timeout | Cancelled

record stress =
  st_workers :: "worker list"
  st_permits :: nat
  st_main_arrived :: bool
  st_arrived :: nat
  st_setup_done :: bool
  st_start :: bool
  st_success :: nat
  st_failed :: nat
  st_incomplete :: nat
  st_end :: "ending option"

text \<open>One step of worker \<open>i\<close> whose call succeeds or not; \<open>tracker.next()\<close> hands out a finished worker; main
  arrives at the barrier when it first polls \<open>setup_done\<close>.\<close>

datatype stress_label = Work nat bool | Next nat | NoMore | MainArrives | SetupDone | Watchdog | CtrlC

definition permits_of :: "nat \<Rightarrow> nat \<Rightarrow> nat" where
  "permits_of par count = (if par = 0 then count else par)"

definition stress_init :: "nat \<Rightarrow> nat \<Rightarrow> stress" where
  "stress_init par count =
     \<lparr>st_workers = replicate count Setup, st_permits = permits_of par count, st_main_arrived = False,
      st_arrived = 0, st_setup_done = False, st_start = False, st_success = 0, st_failed = 0,
      st_incomplete = count, st_end = None\<rparr>"

text \<open>The barrier is for \<open>count + 1\<close> arrivals.\<close>

definition barrier_open :: "stress \<Rightarrow> bool" where
  "barrier_open s \<longleftrightarrow> length (st_workers s) + 1 \<le> st_arrived s + (if st_main_arrived s then 1 else 0)"

definition set_worker :: "stress \<Rightarrow> nat \<Rightarrow> worker \<Rightarrow> stress" where
  "set_worker s i x = s\<lparr>st_workers := (st_workers s)[i := x]\<rparr>"

definition release_permit :: "stress \<Rightarrow> stress" where
  "release_permit s = s\<lparr>st_permits := Suc (st_permits s)\<rparr>"

fun work :: "stress \<Rightarrow> nat \<Rightarrow> bool \<Rightarrow> worker \<Rightarrow> stress" where
  "work s i okay Setup =
     (if okay then (set_worker s i AtBarrier)\<lparr>st_arrived := Suc (st_arrived s)\<rparr> else set_worker s i (Finished False))"
| "work s i okay AtBarrier = (if barrier_open s then set_worker s i WaitPermit else s)"
| "work s i okay WaitPermit =
     (if 0 < st_permits s
      then (set_worker s i Creating)\<lparr>st_permits := st_permits s - 1, st_start := True\<rparr> else s)"
| "work s i okay Creating =
     (if okay then set_worker s i Starting else release_permit (set_worker s i (Finished False)))"
| "work s i okay Starting = release_permit (set_worker s i (if okay then Waiting else Finished False))"
| "work s i okay Waiting = set_worker s i (if okay then Deleting else Finished False)"
| "work s i okay Deleting = set_worker s i (Finished okay)"
| "work s i okay (Finished r) = s"
| "work s i okay (Reported r) = s"

fun report :: "stress \<Rightarrow> nat \<Rightarrow> worker \<Rightarrow> stress" where
  "report s i (Finished True) =
     (set_worker s i (Reported True))\<lparr>st_incomplete := st_incomplete s - 1, st_success := Suc (st_success s)\<rparr>"
| "report s i (Finished False) =
     (set_worker s i (Reported False))\<lparr>st_incomplete := st_incomplete s - 1, st_failed := Suc (st_failed s)\<rparr>"
| "report s i _ = s"

definition is_reported :: "worker \<Rightarrow> bool" where
  "is_reported x \<longleftrightarrow> x = Reported True \<or> x = Reported False"

text \<open>The watchdog runs only after \<open>setup_done\<close>, and not at all with a timeout of zero.\<close>

fun loop_step :: "bool \<Rightarrow> stress \<Rightarrow> stress_label \<Rightarrow> stress" where
  "loop_step no_timeout s (Work i okay) =
     (if i < length (st_workers s) then work s i okay (st_workers s ! i) else s)"
| "loop_step no_timeout s (Next i) =
     (if i < length (st_workers s) then report s i (st_workers s ! i) else s)"
| "loop_step no_timeout s NoMore =
     (if list_all is_reported (st_workers s) then s\<lparr>st_end := Some AllDone\<rparr> else s)"
| "loop_step no_timeout s MainArrives = s\<lparr>st_main_arrived := True\<rparr>"
| "loop_step no_timeout s SetupDone = (if barrier_open s then s\<lparr>st_setup_done := True\<rparr> else s)"
| "loop_step no_timeout s Watchdog =
     (if st_setup_done s \<and> \<not> no_timeout then s\<lparr>st_end := Some Timeout\<rparr> else s)"
| "loop_step no_timeout s CtrlC = s\<lparr>st_end := Some Cancelled\<rparr>"

definition stress_step :: "bool \<Rightarrow> stress \<Rightarrow> stress_label \<Rightarrow> stress" where
  "stress_step no_timeout s l = (if st_end s = None then loop_step no_timeout s l else s)"

text \<open>After the loop: the result, which reads the start time.\<close>

definition stress_result :: "nat \<Rightarrow> stress \<Rightarrow> (unit, string) result" where
  "stress_result count s =
     (if st_success s \<noteq> count then Err ''Some tasks did not succeed''
      else if \<not> st_start s then Panic ''called Option::unwrap() on a None value''
      else Ok ())"

interpretation stress: machine "stress_init par count" "stress_step no_timeout" for par count no_timeout .

abbreviation stress_run :: "bool \<Rightarrow> stress \<Rightarrow> stress_label list \<Rightarrow> stress" where
  "stress_run no_timeout \<equiv> machine.run (stress_step no_timeout)"

section \<open>Deleting once\<close>

text \<open>\<open>RunOnce::try_run\<close>: the future runs until it has succeeded once.\<close>

definition try_run :: "bool \<Rightarrow> 'w \<Rightarrow> ('w \<Rightarrow> 'w \<times> (unit, string) result) \<Rightarrow> ('w \<times> bool) \<times> (unit, string) result" where
  "try_run done w fut =
     (if done then ((w, done), Ok ())
      else (case fut w of (w', Ok _) \<Rightarrow> ((w', True), Ok ()) | (w', Err e) \<Rightarrow> ((w', False), Err e)
            | (w', Panic m) \<Rightarrow> ((w', False), Panic m)))"

text \<open>\<open>Task::delete\<close>, with the flags of its two \<open>RunOnce\<close>: both parts are tried, the first error is
  returned. Dropping the task deletes again and ignores the result.\<close>

definition task_delete_both ::
  "('w \<Rightarrow> 'w \<times> (unit, string) result) \<Rightarrow> ('w \<Rightarrow> 'w \<times> (unit, string) result) \<Rightarrow>
   'w \<times> bool \<times> bool \<Rightarrow> ('w \<times> bool \<times> bool) \<times> (unit, string) result" where
  "task_delete_both del unmount s =
     (case s of (w, d1, d2) \<Rightarrow>
       (case try_run d1 w del of
          ((w, d1), r1) \<Rightarrow>
            (case try_run d2 w unmount of ((w, d2), r2) \<Rightarrow> ((w, d1, d2), res_and r1 r2))))"

definition task_drop ::
  "('w \<Rightarrow> 'w \<times> (unit, string) result) \<Rightarrow> ('w \<Rightarrow> 'w \<times> (unit, string) result) \<Rightarrow> 'w \<times> bool \<times> bool \<Rightarrow> 'w" where
  "task_drop del unmount s = fst (fst (task_delete_both del unmount s))"

section \<open>The scheduler keeps its promises\<close>

definition cnt :: "(worker \<Rightarrow> bool) \<Rightarrow> stress \<Rightarrow> nat" where
  "cnt P s = length (filter P (st_workers s))"

lemma filter_update:
  "i < length xs \<Longrightarrow> length (filter P (xs[i := v])) + (if P (xs ! i) then 1 else 0)
     = length (filter P xs) + (if P v then 1 else 0)"
proof (induction xs arbitrary: i)
  case (Cons x xs)
  then show ?case by (cases i) auto
qed simp

lemma cnt_set_worker:
  "i < length (st_workers s) \<Longrightarrow> cnt P (set_worker s i v) + (if P (st_workers s ! i) then 1 else 0)
     = cnt P s + (if P v then 1 else 0)"
  by (simp add: cnt_def set_worker_def filter_update)

lemma cnt_updates [simp]:
  "cnt P (s\<lparr>st_arrived := a\<rparr>) = cnt P s" "cnt P (s\<lparr>st_permits := b, st_start := c\<rparr>) = cnt P s"
  "cnt P (s\<lparr>st_incomplete := d, st_success := e\<rparr>) = cnt P s" "cnt P (s\<lparr>st_incomplete := d, st_failed := e\<rparr>) = cnt P s"
  "cnt P (s\<lparr>st_end := f\<rparr>) = cnt P s" "cnt P (s\<lparr>st_main_arrived := g\<rparr>) = cnt P s"
  "cnt P (s\<lparr>st_setup_done := g\<rparr>) = cnt P s" "cnt P (release_permit s) = cnt P s"
  by (simp_all add: cnt_def release_permit_def)

lemma fields_set_worker [simp]:
  "st_permits (set_worker s i v) = st_permits s" "st_arrived (set_worker s i v) = st_arrived s"
  "st_main_arrived (set_worker s i v) = st_main_arrived s" "st_start (set_worker s i v) = st_start s"
  "st_success (set_worker s i v) = st_success s" "st_failed (set_worker s i v) = st_failed s"
  "st_incomplete (set_worker s i v) = st_incomplete s" "length (st_workers (set_worker s i v)) = length (st_workers s)"
  "st_setup_done (set_worker s i v) = st_setup_done s" "st_end (set_worker s i v) = st_end s"
  by (simp_all add: set_worker_def)

lemma fields_release [simp]:
  "st_permits (release_permit s) = Suc (st_permits s)" "st_arrived (release_permit s) = st_arrived s"
  "st_main_arrived (release_permit s) = st_main_arrived s" "st_start (release_permit s) = st_start s"
  "st_success (release_permit s) = st_success s" "st_failed (release_permit s) = st_failed s"
  "st_incomplete (release_permit s) = st_incomplete s" "st_workers (release_permit s) = st_workers s"
  "st_setup_done (release_permit s) = st_setup_done s" "st_end (release_permit s) = st_end s"
  by (simp_all add: release_permit_def)

definition holds_permit :: "worker \<Rightarrow> bool" where
  "holds_permit x \<longleftrightarrow> x = Creating \<or> x = Starting"

text \<open>A worker that has passed the barrier (a failed one may have failed before it).\<close>

definition past_barrier :: "worker \<Rightarrow> bool" where
  "past_barrier x \<longleftrightarrow> x \<in> {WaitPermit, Creating, Starting, Waiting, Deleting, Finished True, Reported True}"

definition stress_inv :: "nat \<Rightarrow> nat \<Rightarrow> stress \<Rightarrow> bool" where
  "stress_inv limit n s \<longleftrightarrow>
     length (st_workers s) = n
     \<and> st_permits s + cnt holds_permit s = limit
     \<and> st_arrived s + cnt (\<lambda>x. x = Setup) s \<le> n
     \<and> (cnt past_barrier s = 0 \<or> n \<le> st_arrived s \<and> st_main_arrived s)
     \<and> st_success s = cnt (\<lambda>x. x = Reported True) s \<and> st_failed s = cnt (\<lambda>x. x = Reported False) s
     \<and> st_success s + st_failed s + st_incomplete s = n
     \<and> cnt is_reported s = st_success s + st_failed s
     \<and> (st_setup_done s \<longrightarrow> n \<le> st_arrived s)"

lemma stress_inv_init: "stress_inv (permits_of par count) count (stress_init par count)"
proof -
  have z: "cnt P (stress_init par count) = (if P Setup then count else 0)" for P
    by (simp add: cnt_def stress_init_def)
  show ?thesis
    by (simp add: stress_inv_def z holds_permit_def past_barrier_def is_reported_def) (simp add: stress_init_def)
qed

lemma cnt_pos: "i < length (st_workers s) \<Longrightarrow> P (st_workers s ! i) \<Longrightarrow> 0 < cnt P s"
  by (auto simp: cnt_def filter_empty_conv)

lemma cnt_set_worker_eq:
  "i < length (st_workers s) \<Longrightarrow> cnt P (set_worker s i v)
     = cnt P s + (if P v then 1 else 0) - (if P (st_workers s ! i) then 1 else 0)"
  using cnt_set_worker [of i s P v] by simp

lemma stress_inv_past:
  "stress_inv limit n s \<Longrightarrow> i < length (st_workers s) \<Longrightarrow> past_barrier (st_workers s ! i) \<Longrightarrow>
   n \<le> st_arrived s \<and> st_main_arrived s"
  using cnt_pos [of i s past_barrier] by (auto simp: stress_inv_def)

lemmas worker_kinds = holds_permit_def past_barrier_def is_reported_def

lemma stress_inv_work:
  assumes inv: "stress_inv limit n s" and i: "i < length (st_workers s)"
  shows "stress_inv limit n (work s i okay (st_workers s ! i))"
  using inv stress_inv_past [OF assms] cnt_pos [OF i, of holds_permit] cnt_pos [OF i, of "\<lambda>x. x = Setup"]
    cnt_pos [OF i, of past_barrier]
  by (cases "st_workers s ! i")
    (auto simp: stress_inv_def worker_kinds barrier_open_def cnt_set_worker_eq [OF i] split: if_splits)

lemma stress_inv_report:
  assumes inv: "stress_inv limit n s" and i: "i < length (st_workers s)"
  shows "stress_inv limit n (report s i (st_workers s ! i))"
proof (cases "st_workers s ! i")
  case (Finished b)
  have "length (filter is_reported (st_workers s)) < length (st_workers s)"
    using nth_mem [OF i] Finished by (intro length_filter_less [of "st_workers s ! i"]) (auto simp: is_reported_def)
  then have "0 < st_incomplete s" using inv by (simp add: stress_inv_def cnt_def)
  with Finished inv stress_inv_past [OF assms] cnt_pos [OF i, of past_barrier] show ?thesis
    by (cases b) (auto simp: stress_inv_def worker_kinds cnt_set_worker_eq [OF i])
qed (use inv in simp_all)

lemma stress_inv_step: "stress_inv limit n s \<Longrightarrow> stress_inv limit n (stress_step no_timeout s l)"
proof -
  assume inv: "stress_inv limit n s"
  have "stress_inv limit n (loop_step no_timeout s l)"
  proof (cases l)
    case (Work i okay)
    then show ?thesis using inv stress_inv_work by simp
  next
    case (Next i)
    then show ?thesis using inv stress_inv_report by simp
  qed (use inv in \<open>auto simp: stress_inv_def barrier_open_def\<close>)
  then show ?thesis using inv by (simp add: stress_step_def)
qed

lemma stress_inv_run: "stress_inv (permits_of par n) n (stress_run no_timeout (stress_init par n) ls)"
  by (rule stress.run_invariant [where I = "stress_inv (permits_of par n) n"]) (auto intro: stress_inv_init stress_inv_step)


lemma filter_mono_length: "(\<And>x. P x \<Longrightarrow> Q x) \<Longrightarrow> length (filter P xs) \<le> length (filter Q xs)"
  by (induction xs) (auto intro: le_SucI)

lemma cnt_mono: "(\<And>x. P x \<Longrightarrow> Q x) \<Longrightarrow> cnt P s \<le> cnt Q s"
  unfolding cnt_def by (rule filter_mono_length)

text \<open>Once an arrival is missing for good, the barrier stays closed.\<close>

definition stuck :: "nat \<Rightarrow> nat \<Rightarrow> stress \<Rightarrow> bool" where
  "stuck limit n s \<longleftrightarrow> stress_inv limit n s \<and> st_arrived s + cnt (\<lambda>x. x = Setup) s < n \<and> st_end s \<noteq> Some Timeout"

lemma stuck_step: "stuck limit n s \<Longrightarrow> stuck limit n (stress_step no_timeout s l)"
proof -
  assume st: "stuck limit n s"
  then have inv: "stress_inv limit n s" by (simp add: stuck_def)
  have "st_arrived (loop_step no_timeout s l) + cnt (\<lambda>x. x = Setup) (loop_step no_timeout s l) < n
      \<and> st_end (loop_step no_timeout s l) \<noteq> Some Timeout"
  proof (cases l)
    case (Work i okay)
    show ?thesis
    proof (cases "i < length (st_workers s)")
      case True
      with Work st cnt_pos [OF True, of "\<lambda>x. x = Setup"] show ?thesis
        by (cases "st_workers s ! i") (auto simp: stuck_def cnt_set_worker_eq [OF True])
    qed (use Work st in \<open>simp add: stuck_def\<close>)
  next
    case (Next i)
    show ?thesis
    proof (cases "i < length (st_workers s)")
      case True
      with Next st show ?thesis
        by (cases "(s, i, st_workers s ! i)" rule: report.cases) (auto simp: stuck_def cnt_set_worker_eq [OF True])
    qed (use Next st in \<open>simp add: stuck_def\<close>)
  next
    case Watchdog
    with st show ?thesis by (auto simp: stuck_def stress_inv_def)
  qed (use st in \<open>auto simp: stuck_def\<close>)
  with st stress_inv_step [OF inv] show ?thesis by (simp add: stuck_def stress_step_def)
qed

text \<open>One task whose set-up fails stalls the whole run: the barrier waits for all tasks, so no other task
  is ever created, none succeeds, and the timeout, which only runs after the set-up, never ends the run; only
  Ctrl-C does.\<close>

theorem failed_setup_stalls_run:
  assumes "s = stress_run no_timeout (stress_init par n) ls" and "st_end s = None"
    and "i < n" and "st_workers s ! i = Setup"
  shows "let t = stress_run no_timeout (stress_step no_timeout s (Work i False)) ls'
         in st_success t = 0 \<and> cnt past_barrier t = 0 \<and> st_end t \<noteq> Some Timeout"
proof -
  have inv: "stress_inv (permits_of par n) n s" using assms(1) stress_inv_run by simp
  then have i: "i < length (st_workers s)" using assms(3) by (simp add: stress_inv_def)
  have "stuck (permits_of par n) n (stress_step no_timeout s (Work i False))"
    using stress_inv_step [OF inv, of no_timeout "Work i False"] inv assms(2,4) i cnt_pos [OF i, of "\<lambda>x. x = Setup"]
    by (auto simp: stuck_def stress_step_def cnt_set_worker_eq [OF i]) (auto simp: stress_inv_def)
  then have t: "stuck (permits_of par n) n (stress_run no_timeout (stress_step no_timeout s (Work i False)) ls')"
    by (rule stress.run_invariant [where I = "stuck (permits_of par n) n"]) (rule stuck_step)
  let ?t = "stress_run no_timeout (stress_step no_timeout s (Work i False)) ls'"
  have p: "cnt past_barrier ?t = 0" using t by (auto simp: stuck_def stress_inv_def)
  have "cnt (\<lambda>x. x = Reported True) ?t \<le> cnt past_barrier ?t" by (rule cnt_mono) (simp add: past_barrier_def)
  with p t show ?thesis by (auto simp: stuck_def stress_inv_def Let_def)
qed

theorem failed_setup_stalls_run_witness:
  "let t = stress_run False (stress_init 1 2) [Work 0 True, MainArrives, Work 1 False, Next 1, Work 0 True, SetupDone, Watchdog]
   in st_success t = 0 \<and> st_end t \<noteq> Some Timeout"
  using failed_setup_stalls_run [of _ False 1 2 "[Work 0 True, MainArrives]" 1 "[Next 1, Work 0 True, SetupDone, Watchdog]", OF refl]
  by (simp add: stress_step_def stress_init_def set_worker_def barrier_open_def numeral_2_eq_2)

section \<open>Results, names and chain ids\<close>

text \<open>With \<open>--count 0\<close> the run ends at once and then panics, because no task has set the start time.\<close>

theorem empty_run_panics:
  "is_panic (stress_result 0 (stress_run no_timeout (stress_init par 0) [NoMore]))"
  by (simp add: stress_result_def stress_step_def stress_init_def)

text \<open>The runtime in the name of a shim binary, in any directory.\<close>

theorem get_runtime_of_shim:
  assumes "CHR ''-'' \<notin> set rt" and "CHR ''/'' \<notin> set rt"
  shows "get_runtime (dir @ ''/'' @ ''containerd-shim-'' @ rt @ ''-v1'') = Some rt"
proof -
  have "file_name (dir @ ''/'' @ ''containerd-shim-'' @ rt @ ''-v1'') = Some (''containerd-shim-'' @ rt @ ''-v1'')"
    using assms(2) by (intro file_name_join) auto
  moreover have "split_once CHR ''-'' (rt @ ''-v1'') = Some (rt, ''v1'')"
    using assms(1) by (simp add: split_once_Some)
  ultimately show ?thesis by (simp add: get_runtime_def)
qed

lemma try_run_result: "try_run d w fut = ((w', d'), r) \<Longrightarrow> d' \<longleftrightarrow> r = Ok ()"
  by (cases "fut w"; cases "snd (fut w)") (auto simp: try_run_def split: if_splits)

lemma task_delete_both_again:
  "task_delete_both del unmount s = (t, Ok ()) \<Longrightarrow> task_delete_both del unmount t = (t, Ok ())"
  by (cases s) (auto simp: task_delete_both_def try_run_def split: if_splits result.splits prod.splits)

text \<open>What the trait \<open>Task\<close> of \<open>src/traits.rs\<close> is used for: a worker deletes its task and then drops it, which deletes
  again, so a deletion that succeeded must not be repeated. Both kinds of task promise that.\<close>

locale deletable_task =
  fixes delete :: "'s \<Rightarrow> 's \<times> (unit, string) result"
  assumes delete_once: "delete s = (t, Ok ()) \<Longrightarrow> delete t = (t, Ok ())"
begin

lemma dropped_after_delete: "delete s = (t, Ok ()) \<Longrightarrow> fst (delete t) = t"
  by (simp add: delete_once)

lemma deleted_for_good: "delete s = (t, Ok ()) \<Longrightarrow> ((fst \<circ> delete) ^^ n) t = t"
  by (induction n) (simp_all add: dropped_after_delete)

end

text \<open>\<open>RunOnce\<close>: a task that was deleted successfully is not deleted again when it is dropped, and of a failed deletion
  something is still to be done then.\<close>

theorem deleted_once:
  assumes "task_delete_both del unmount s = (t, r)"
  shows "(r = Ok () \<longrightarrow> task_drop del unmount t = fst t \<and> task_delete_both del unmount t = (t, Ok ()))
    \<and> (is_err r \<longrightarrow> \<not> (fst (snd t) \<and> snd (snd t)))"
proof -
  obtain w d1 d2 where s: "s = (w, d1, d2)" by (cases s)
  obtain w1 e1 r1 where 1: "try_run d1 w del = ((w1, e1), r1)" by (metis prod.exhaust)
  obtain w2 e2 r2 where 2: "try_run d2 w1 unmount = ((w2, e2), r2)" by (metis prod.exhaust)
  have t: "t = (w2, e1, e2)" "r = res_and r1 r2" using assms s 1 2 by (auto simp: task_delete_both_def)
  show ?thesis
    using try_run_result [OF 1] try_run_result [OF 2] t
    by (cases r1; cases r2) (auto simp: task_drop_def task_delete_both_def try_run_def)
qed

text \<open>The chain id of the OCI image specification, by recursion over the layers from the topmost down: of one layer it
  is the diff id, of more the digest of the chain id below and the diff id on top.\<close>

fun oci_chain_id :: "(string \<Rightarrow> string) \<Rightarrow> string list \<Rightarrow> string" where
  "oci_chain_id sha [] = []"
| "oci_chain_id sha [d] = d"
| "oci_chain_id sha (d # below) = ''sha256:'' @ sha (oci_chain_id sha below @ '' '' @ d)"

lemma chain_id_snoc: "ds \<noteq> [] \<Longrightarrow> chain_id sha (ds @ [d]) = ''sha256:'' @ sha (chain_id sha ds @ '' '' @ d)"
  by (cases ds) (simp_all add: chain_id_def)

text \<open>The loop that computes the parent of a snapshot computes the chain id of the OCI image specification.\<close>

theorem chain_id_spec: "chain_id sha ds = oci_chain_id sha (rev ds)"
proof (induction ds rule: rev_induct)
  case (snoc d ds)
  show ?case
  proof (cases "rev ds")
    case Nil
    then show ?thesis by (simp add: chain_id_def)
  next
    case (Cons x xs)
    then have "ds \<noteq> []" by auto
    then show ?thesis using chain_id_snoc [of ds sha d] snoc.IH Cons by simp
  qed
qed (simp add: chain_id_def)

text \<open>Content that is read completely is the concatenation of the messages, each of which started where the one before
  ended.\<close>

theorem read_stream_contiguous:
  "read_stream [] msgs = Ok data \<Longrightarrow>
   \<exists>ps. msgs = map Ok ps \<and> data = concat (map snd ps)
     \<and> (\<forall>i < length ps. unat (fst (ps ! i)) = length (concat (map snd (take i ps))))"
proof -
  have "\<exists>ps. msgs = map Ok ps \<and> data = acc @ concat (map snd ps)
      \<and> (\<forall>i < length ps. unat (fst (ps ! i)) = length (acc @ concat (map snd (take i ps))))"
    if "read_stream acc msgs = Ok data" for acc
    using that
  proof (induction msgs arbitrary: acc)
    case (Cons r rs)
    then obtain off d where r: "r = Ok (off, d)" "unat off = length acc" "read_stream (acc @ d) rs = Ok data"
      by (auto simp: res_simps split: if_splits)
    from Cons.IH [OF r(3)] obtain ps where ps: "rs = map Ok ps" "data = (acc @ d) @ concat (map snd ps)"
      "\<forall>i < length ps. unat (fst (ps ! i)) = length ((acc @ d) @ concat (map snd (take i ps)))" by blast
    show ?case
    proof (intro exI [of _ "(off, d) # ps"] conjI allI impI)
      fix i assume i: "i < length ((off, d) # ps)"
      show "unat (fst (((off, d) # ps) ! i)) = length (acc @ concat (map snd (take i ((off, d) # ps))))"
        using r(2) ps(3) i by (cases i) auto
    qed (use r ps in auto)
  qed simp
  from this [of "[]"] show "read_stream [] msgs = Ok data \<Longrightarrow> ?thesis" by simp
qed

end
