(* ===== verification/Stress_Client.thy ===== *)
theory Stress_Client
  imports Stress_Test
begin

text \<open>
  The containerd client of the load generator (\<open>crates/stress-test/src/containerd/client.rs\<close>), and the
  tasks it runs through containerd (\<open>src/containerd/task.rs\<close>, \<open>src/containerd/shim.rs\<close>).

  containerd is a parameter, the record \<open>server\<close>: each service answers from all that was sent so far, the
  last request included, so that the state of the daemon is covered by the history. Parsing of manifests and
  validity of a metadata value are parameters too.
\<close>

section \<open>Requests\<close>

record mount_info =
  mi_type :: string
  mi_source :: string
  mi_target :: string
  mi_options :: "string list"

text \<open>The runtime spec of a task, as the builders are given it.\<close>

record task_spec =
  tk_version :: string
  tk_args :: "string list"
  tk_cwd :: path
  tk_annotations :: "(string \<times> string) list"
  tk_root :: path
  tk_readonly :: "bool option"

datatype request =
    CreateLease "(string \<times> string) list"
  | DeleteLease string bool
  | ReadContent string
  | GetImage string
  | PrepareSnapshot string string string
  | CreateContainer string string string string task_spec
  | CreateTask string "mount_info list" path path
  | StartTask string
  | WaitTask string
  | KillTask string u32 bool
  | DeleteTask string
  | DeleteContainer string

type_synonym metadata = "(string \<times> string) list"
type_synonym wire = "(metadata \<times> request) list"
type_synonym 'a answer = "string + 'a"
type_synonym 'a rpc = "wire \<times> ('a, string) result"

record 'i server =
  sv_valid :: "string \<Rightarrow> bool"
  sv_expiry :: "wire \<Rightarrow> string"
  sv_lease :: "wire \<Rightarrow> (string option) answer"
  sv_unit :: "wire \<Rightarrow> unit answer"
  sv_read :: "wire \<Rightarrow> ((u64 \<times> string, string) result list) answer"
  sv_image :: "wire \<Rightarrow> (string option option) answer"
  sv_mounts :: "wire \<Rightarrow> (mount_info list) answer"
  sv_status :: "wire \<Rightarrow> u32 answer"
  sv_index :: "string \<Rightarrow> (string \<times> string option) list option"
  sv_manifest :: "string \<Rightarrow> (string, string) result"
  sv_config :: "string \<Rightarrow> ('i, string) result"

section \<open>The client\<close>

record client =
  gc_namespace :: string
  gc_lease :: string

definition with_metadata :: "'i server \<Rightarrow> client \<Rightarrow> (metadata, string) result" where
  "with_metadata sv c =
     (if \<not> sv_valid sv (gc_namespace c) then Panic ''called Result::unwrap() on an Err value''
      else if gc_lease c = [] then Ok [(''containerd-namespace'', gc_namespace c)]
      else if \<not> sv_valid sv (gc_lease c) then Panic ''called Result::unwrap() on an Err value''
      else Ok [(''containerd-namespace'', gc_namespace c), (''containerd-lease'', gc_lease c)])"

text \<open>A request goes out with its metadata; the service answers with an error or a value.\<close>

fun of_answer :: "'a answer \<Rightarrow> ('a, string) result" where
  "of_answer (Inl e) = Err e"
| "of_answer (Inr a) = Ok a"

definition call ::
  "'i server \<Rightarrow> client \<Rightarrow> request \<Rightarrow> (wire \<Rightarrow> 'a answer) \<Rightarrow> wire \<Rightarrow> 'a rpc" where
  "call sv c r answer w =
     st_then (w, with_metadata sv c) (\<lambda>w m. let w = w @ [(m, r)] in (w, of_answer (answer w)))"

definition inner_connect :: "(unit, string) result \<Rightarrow> string \<Rightarrow> (client, string) result" where
  "inner_connect channel namespace =
     and_then channel (\<lambda>_. Ok \<lparr>gc_namespace = namespace, gc_lease = []\<rparr>)"

definition with_lease :: "'i server \<Rightarrow> client \<Rightarrow> wire \<Rightarrow> client rpc" where
  "with_lease sv c w =
     st_then (call sv c (CreateLease [(''containerd.io/gc.expire'', sv_expiry sv w)]) (sv_lease sv) w) (\<lambda>w l.
     st_then (w, ok_or ''creating lease'' l) (\<lambda>w lid.
       (w, Ok \<lparr>gc_namespace = gc_namespace c, gc_lease = lid\<rparr>)))"

text \<open>\<open>drop_lease\<close> takes the lease out of the client before the request is built.\<close>

definition client_drop_lease :: "'i server \<Rightarrow> client \<Rightarrow> wire \<Rightarrow> (client \<times> wire) \<times> (unit, string) result" where
  "client_drop_lease sv c w =
     (if gc_lease c = [] then ((c, w), Ok ())
      else (let c' = c\<lparr>gc_lease := []\<rparr>
            in case call sv c' (DeleteLease (gc_lease c) False) (sv_unit sv) w of (w, r) \<Rightarrow> ((c', w), r)))"

definition client_drop :: "'i server \<Rightarrow> client \<Rightarrow> wire \<Rightarrow> wire" where
  "client_drop sv c w = snd (fst (client_drop_lease sv c w))"

definition client_connect :: "'i server \<Rightarrow> (unit, string) result \<Rightarrow> string \<Rightarrow> wire \<Rightarrow> client rpc" where
  "client_connect sv channel namespace w =
     st_then (w, inner_connect channel namespace) (\<lambda>w c. with_lease sv c w)"

definition client_default :: "'i server \<Rightarrow> (path \<Rightarrow> (unit, string) result) \<Rightarrow> wire \<Rightarrow> client rpc" where
  "client_default sv open w = client_connect sv (open ''/run/containerd/containerd.sock'') ''default'' w"

definition client_read_content :: "'i server \<Rightarrow> client \<Rightarrow> string \<Rightarrow> wire \<Rightarrow> string rpc" where
  "client_read_content sv c digest w =
     st_then (call sv c (ReadContent digest) (sv_read sv) w) (\<lambda>w ms. (w, read_stream [] ms))"

text \<open>The host's architecture as the OCI name it matches, or none of the two that are supported.\<close>

definition supported_arch :: "string option \<Rightarrow> string option \<Rightarrow> bool" where
  "supported_arch host arch \<longleftrightarrow>
     (case arch of None \<Rightarrow> False | Some a \<Rightarrow> a \<in> {''amd64'', ''arm64''} \<and> host = Some a)"

definition image_config :: "'i server \<Rightarrow> string option \<Rightarrow> client \<Rightarrow> string \<Rightarrow> wire \<Rightarrow> 'i rpc" where
  "image_config sv host c img w =
     st_then (call sv c (GetImage img) (sv_image sv) w) (\<lambda>w image.
     st_then (w, ok_or ''Could not find image'' image) (\<lambda>w tgt.
     st_then (w, ok_or ''Could not find image descriptor'' tgt) (\<lambda>w digest.
     st_then (client_read_content sv c digest w) (\<lambda>w manifest.
     st_then
       (case sv_index sv manifest of
          None \<Rightarrow> (w, Ok manifest)
        | Some ms \<Rightarrow>
            st_then (w, ok_or ''host platform not supported'' (find (\<lambda>m. supported_arch host (snd m)) ms))
              (\<lambda>w m. client_read_content sv c (fst m) w))
       (\<lambda>w manifest.
     st_then (w, sv_manifest sv manifest) (\<lambda>w config_digest.
     st_then (client_read_content sv c config_digest w) (\<lambda>w config. (w, sv_config sv config))))))))"

definition snapshot :: "'i server \<Rightarrow> client \<Rightarrow> string \<Rightarrow> string \<Rightarrow> wire \<Rightarrow> mount_info list rpc" where
  "snapshot sv c key parent w = call sv c (PrepareSnapshot key parent ''overlayfs'') (sv_mounts sv) w"

text \<open>An image configuration: the diff ids, and the entrypoint of its \<open>config\<close>.\<close>

record image_configuration =
  im_diff_ids :: "string list"
  im_config :: "string list option option"

type_synonym containerd = "image_configuration server"

definition get_mounts ::
  "(string \<Rightarrow> string) \<Rightarrow> containerd \<Rightarrow> string option \<Rightarrow> client \<Rightarrow> string \<Rightarrow> string \<Rightarrow> wire \<Rightarrow> mount_info list rpc" where
  "get_mounts sha256 sv host c tid img w =
     st_then (image_config sv host c img w) (\<lambda>w config.
       snapshot sv c tid (chain_id sha256 (im_diff_ids config)) w)"

definition image_entrypoint ::
  "containerd \<Rightarrow> string option \<Rightarrow> client \<Rightarrow> string \<Rightarrow> wire \<Rightarrow> string list rpc" where
  "image_entrypoint sv host c img w =
     st_then (image_config sv host c img w) (\<lambda>w config.
       (w, Ok (case im_config config of None \<Rightarrow> [] | Some None \<Rightarrow> [] | Some (Some e) \<Rightarrow> e)))"

definition client_create_container ::
  "'i server \<Rightarrow> client \<Rightarrow> string \<Rightarrow> string \<Rightarrow> string \<Rightarrow> task_spec \<Rightarrow> wire \<Rightarrow> unit rpc" where
  "client_create_container sv c cid img runtime spec w =
     call sv c (CreateContainer cid img runtime ''types.containerd.io/opencontainers/runtime-spec/1/Spec'' spec)
       (sv_unit sv) w"

definition client_create_task ::
  "'i server \<Rightarrow> client \<Rightarrow> string \<Rightarrow> mount_info list \<Rightarrow> path \<Rightarrow> path \<Rightarrow> wire \<Rightarrow> unit rpc" where
  "client_create_task sv c cid mounts stdout stderr w = call sv c (CreateTask cid mounts stdout stderr) (sv_unit sv) w"

definition client_start_task :: "'i server \<Rightarrow> client \<Rightarrow> string \<Rightarrow> wire \<Rightarrow> unit rpc" where
  "client_start_task sv c cid w = call sv c (StartTask cid) (sv_unit sv) w"

definition client_wait_task :: "'i server \<Rightarrow> client \<Rightarrow> string \<Rightarrow> wire \<Rightarrow> u32 rpc" where
  "client_wait_task sv c cid w = call sv c (WaitTask cid) (sv_status sv) w"

definition client_kill_task :: "'i server \<Rightarrow> client \<Rightarrow> string \<Rightarrow> wire \<Rightarrow> unit rpc" where
  "client_kill_task sv c cid w = call sv c (KillTask cid 9 True) (sv_unit sv) w"

definition client_delete_task :: "'i server \<Rightarrow> client \<Rightarrow> string \<Rightarrow> wire \<Rightarrow> unit rpc" where
  "client_delete_task sv c cid w = call sv c (DeleteTask cid) (sv_unit sv) w"

definition client_delete_container :: "'i server \<Rightarrow> client \<Rightarrow> string \<Rightarrow> wire \<Rightarrow> unit rpc" where
  "client_delete_container sv c cid w = call sv c (DeleteContainer cid) (sv_unit sv) w"

section \<open>Tasks\<close>

record ctask =
  ct_runtime :: string
  ct_id :: string
  ct_image :: string
  ct_mounts :: "mount_info list"
  ct_spec :: task_spec
  ct_dir :: path

definition ctask_spec :: "u32 \<Rightarrow> bool option \<Rightarrow> string list \<Rightarrow> task_spec" where
  "ctask_spec pid readonly args =
     \<lparr>tk_version = ''1.1.0'', tk_args = args, tk_cwd = ''/'',
      tk_annotations = [(''io.kubernetes.cri.sandbox-id'', ''sandbox-'' @ show_nat (unat pid))],
      tk_root = ''rootfs'', tk_readonly = readonly\<rparr>"

text \<open>\<open>Task::new\<close>: a fresh id, the mounts, the spec, a temporary directory. The counter advances even when
  the image has no mounts.\<close>

definition ctask_new ::
  "(string \<Rightarrow> string) \<Rightarrow> containerd \<Rightarrow> string option \<Rightarrow> u32 \<Rightarrow> (path, string) result \<Rightarrow> client \<Rightarrow>
   string \<Rightarrow> string \<Rightarrow> string list \<Rightarrow> u64 \<times> wire \<Rightarrow> (u64 \<times> wire) \<times> (ctask, string) result" where
  "ctask_new sha256 sv host pid tmp c runtime img args s =
     (case s of (n, w) \<Rightarrow>
       (case make_task_id pid n of (n, tid) \<Rightarrow>
         (case get_mounts sha256 sv host c tid img w of (w, r) \<Rightarrow>
           ((n, w), and_then r (\<lambda>mounts. and_then tmp (\<lambda>dir.
             Ok \<lparr>ct_runtime = runtime, ct_id = tid, ct_image = img, ct_mounts = mounts,
                 ct_spec = ctask_spec pid None args, ct_dir = dir\<rparr>))))))"

definition ctask_create :: "'i server \<Rightarrow> client \<Rightarrow> ctask \<Rightarrow> wire \<Rightarrow> unit rpc" where
  "ctask_create sv c t w =
     st_then (client_create_container sv c (ct_id t) (ct_image t) (ct_runtime t) (ct_spec t) w) (\<lambda>w _.
       client_create_task sv c (ct_id t) (ct_mounts t) (path_join (ct_dir t) ''stdout'')
         (path_join (ct_dir t) ''stderr'') w)"

definition ctask_start :: "'i server \<Rightarrow> client \<Rightarrow> ctask \<Rightarrow> wire \<Rightarrow> unit rpc" where
  "ctask_start sv c t w = client_start_task sv c (ct_id t) w"

text \<open>\<open>wait\<close> demands the exit status 0; \<open>outs\<close> is the text of the two files as \<open>{:?}\<close> shows it.\<close>

definition ctask_wait :: "'i server \<Rightarrow> (wire \<Rightarrow> string) \<Rightarrow> client \<Rightarrow> ctask \<Rightarrow> wire \<Rightarrow> unit rpc" where
  "ctask_wait sv outs c t w =
     st_then (client_wait_task sv c (ct_id t) w) (\<lambda>w status.
       (w, if status = 0 then Ok () else Err (''Exit status '' @ show_nat (unat status) @ outs w)))"

text \<open>The two parts of \<open>delete\<close>; the result of the kill is not looked at.\<close>

definition ctask_kill_delete :: "'i server \<Rightarrow> client \<Rightarrow> ctask \<Rightarrow> wire \<Rightarrow> unit rpc" where
  "ctask_kill_delete sv c t w =
     (case client_kill_task sv c (ct_id t) w of
        (w, Panic m) \<Rightarrow> (w, Panic m)
      | (w, _) \<Rightarrow> client_delete_task sv c (ct_id t) w)"

definition ctask_delete ::
  "'i server \<Rightarrow> client \<Rightarrow> ctask \<Rightarrow> wire \<times> bool \<times> bool \<Rightarrow> (wire \<times> bool \<times> bool) \<times> (unit, string) result" where
  "ctask_delete sv c t s =
     task_delete_both (ctask_kill_delete sv c t) (client_delete_container sv c (ct_id t)) s"

definition ctask_drop :: "'i server \<Rightarrow> client \<Rightarrow> ctask \<Rightarrow> wire \<times> bool \<times> bool \<Rightarrow> wire" where
  "ctask_drop sv c t s = fst (fst (ctask_delete sv c t s))"

text \<open>The part of \<open>run_stress_test\<close> that a worker does with its task, and the drop of the task at its end.\<close>

definition run_ctask :: "'i server \<Rightarrow> (wire \<Rightarrow> string) \<Rightarrow> client \<Rightarrow> ctask \<Rightarrow> wire \<Rightarrow> unit rpc" where
  "run_ctask sv outs c t w =
     (case st_then (ctask_create sv c t w) (\<lambda>w _.
           st_then (ctask_start sv c t w) (\<lambda>w _. ctask_wait sv outs c t w)) of
        (w, Ok _) \<Rightarrow> (case ctask_delete sv c t (w, False, False) of (s, r) \<Rightarrow> (ctask_drop sv c t s, r))
      | (w, Err e) \<Rightarrow> (ctask_drop sv c t (w, False, False), Err e)
      | (w, Panic m) \<Rightarrow> (ctask_drop sv c t (w, False, False), Panic m))"

section \<open>What goes over the wire\<close>

text \<open>The metadata of a client whose values are valid.\<close>

definition client_metadata :: "client \<Rightarrow> metadata" where
  "client_metadata c =
     (''containerd-namespace'', gc_namespace c) # (if gc_lease c = [] then [] else [(''containerd-lease'', gc_lease c)])"

definition client_valid :: "'i server \<Rightarrow> client \<Rightarrow> bool" where
  "client_valid sv c \<longleftrightarrow> sv_valid sv (gc_namespace c) \<and> (gc_lease c = [] \<or> sv_valid sv (gc_lease c))"

lemma of_answer_not_Panic [simp]: "of_answer a \<noteq> Panic m"
  by (cases a) auto

lemma with_metadata_eq:
  "with_metadata sv c =
     (if client_valid sv c then Ok (client_metadata c) else Panic ''called Result::unwrap() on an Err value'')"
  by (auto simp: with_metadata_def client_valid_def client_metadata_def)

lemma call_valid:
  "client_valid sv c \<Longrightarrow>
   call sv c r answer w = (w @ [(client_metadata c, r)], of_answer (answer (w @ [(client_metadata c, r)])))"
  by (simp add: call_def with_metadata_eq Let_def)

text \<open>An operation of the client only appends requests, none of them about a lease, with its metadata.\<close>

fun is_lease_request :: "request \<Rightarrow> bool" where
  "is_lease_request (CreateLease ls) = True"
| "is_lease_request (DeleteLease l s) = True"
| "is_lease_request r = False"

definition appends :: "client \<Rightarrow> wire \<Rightarrow> wire \<Rightarrow> bool" where
  "appends c w w' \<longleftrightarrow> (\<exists>rs. w' = w @ map (Pair (client_metadata c)) rs \<and> \<not> (\<exists>r \<in> set rs. is_lease_request r))"

named_theorems appends_intros \<open>the operations of the client that only append requests\<close>

lemma appends_refl [appends_intros]: "appends c w w"
  unfolding appends_def by (rule exI [of _ "[]"]) simp

lemma appends_trans: "appends c w w' \<Longrightarrow> appends c w' w'' \<Longrightarrow> appends c w w''"
  unfolding appends_def by (metis (no_types, lifting) append_assoc map_append Un_iff set_append)

lemma appends_call [appends_intros]: "\<not> is_lease_request r \<Longrightarrow> appends c w (fst (call sv c r answer w))"
  by (auto simp: call_def with_metadata_eq appends_def Let_def intro: exI [of _ "[]"] exI [of _ "[r]"])

lemma appends_st_then [appends_intros]:
  "appends c w (fst p) \<Longrightarrow> (\<And>w' a. appends c w' (fst (f w' a))) \<Longrightarrow> appends c w (fst (st_then p f))"
  by (rule fst_st_then_inv) (auto intro: appends_trans)

lemma appends_read_content [appends_intros]: "appends c w (fst (client_read_content sv c d w))"
  by (auto simp: client_read_content_def intro!: appends_intros)

lemma appends_image_config [appends_intros]: "appends c w (fst (image_config sv host c img w))"
  unfolding image_config_def
  by (auto intro!: appends_intros split: option.split)

lemma appends_get_mounts [appends_intros]: "appends c w (fst (get_mounts sha sv host c tid img w))"
  by (auto simp: get_mounts_def snapshot_def intro!: appends_intros)

lemma appends_entrypoint [appends_intros]: "appends c w (fst (image_entrypoint sv host c img w))"
  by (auto simp: image_entrypoint_def intro!: appends_intros)

lemmas client_call_defs =
  client_create_container_def client_create_task_def client_start_task_def client_wait_task_def
  client_kill_task_def client_delete_task_def client_delete_container_def

text \<open>What the load generator asks of a client.\<close>

datatype client_op =
    GetMounts string string | Entrypoint string | OpCreateContainer string string string task_spec
  | OpCreateTask string "mount_info list" path path | OpStart string | OpWait string | OpKill string
  | OpDeleteTask string | OpDeleteContainer string

fun run_op :: "(string \<Rightarrow> string) \<Rightarrow> containerd \<Rightarrow> string option \<Rightarrow> client \<Rightarrow> wire \<Rightarrow> client_op \<Rightarrow> wire" where
  "run_op sha sv host c w (GetMounts tid img) = fst (get_mounts sha sv host c tid img w)"
| "run_op sha sv host c w (Entrypoint img) = fst (image_entrypoint sv host c img w)"
| "run_op sha sv host c w (OpCreateContainer cid img rt spec) = fst (client_create_container sv c cid img rt spec w)"
| "run_op sha sv host c w (OpCreateTask cid ms out err) = fst (client_create_task sv c cid ms out err w)"
| "run_op sha sv host c w (OpStart cid) = fst (client_start_task sv c cid w)"
| "run_op sha sv host c w (OpWait cid) = fst (client_wait_task sv c cid w)"
| "run_op sha sv host c w (OpKill cid) = fst (client_kill_task sv c cid w)"
| "run_op sha sv host c w (OpDeleteTask cid) = fst (client_delete_task sv c cid w)"
| "run_op sha sv host c w (OpDeleteContainer cid) = fst (client_delete_container sv c cid w)"

lemma appends_run_op: "appends c w (run_op sha sv host c w p)"
  by (cases p) (auto simp: client_call_defs intro!: appends_intros)

lemma appends_run_ops: "appends c w (foldl (run_op sha sv host c) w ps)"
  by (induction ps arbitrary: w) (auto intro: appends_intros appends_trans [OF appends_run_op])

lemma connect_wire:
  assumes "client_connect sv channel ns w0 = (w, Ok c)"
  shows "gc_namespace c = ns \<and> sv_valid sv ns
    \<and> w = w0 @ [([(''containerd-namespace'', ns)], CreateLease [(''containerd.io/gc.expire'', sv_expiry sv w0)])]"
  using assms
  by (auto simp: client_connect_def inner_connect_def with_lease_def call_def with_metadata_def Let_def res_simps
      split: if_splits)

text \<open>A client session: the lease is created first; then every request, of whatever operations, carries the namespace and
  the lease, so that containerd's garbage collector leaves the content alone; and dropping the client deletes that
  lease, once and as the last thing, in a request that is not itself under the lease.\<close>

theorem session_runs_under_lease:
  assumes "client_connect sv channel ns w0 = (w, Ok c)" and "gc_lease c \<noteq> []" and "sv_valid sv (gc_lease c)"
  shows "\<exists>rs. client_drop sv c (foldl (run_op sha sv host c) w ps) =
      w0 @ [([(''containerd-namespace'', ns)], CreateLease [(''containerd.io/gc.expire'', sv_expiry sv w0)])]
      @ map (Pair [(''containerd-namespace'', ns), (''containerd-lease'', gc_lease c)]) rs
      @ [([(''containerd-namespace'', ns)], DeleteLease (gc_lease c) False)]
    \<and> \<not> (\<exists>r \<in> set rs. is_lease_request r)"
proof -
  note w = connect_wire [OF assms(1)]
  obtain rs where rs: "foldl (run_op sha sv host c) w ps = w @ map (Pair (client_metadata c)) rs"
      "\<not> (\<exists>r \<in> set rs. is_lease_request r)"
    using appends_run_ops [of c w sha sv host ps] by (auto simp: appends_def)
  show ?thesis
    using w rs assms(2,3)
    by (intro exI [of _ rs])
      (simp add: client_drop_def client_drop_lease_def call_def with_metadata_def client_metadata_def Let_def)
qed

section \<open>Tasks are cleaned up\<close>

lemma ctask_delete_wire:
  assumes "client_valid sv c" and "ctask_delete sv c t (w, d1, d2) = ((w', e1, e2), r)"
  shows "w' = w @ map (Pair (client_metadata c))
           ((if d1 then [] else [KillTask (ct_id t) 9 True, DeleteTask (ct_id t)])
            @ (if d2 then [] else [DeleteContainer (ct_id t)]))
    \<and> (r = Ok () \<longrightarrow> e1 \<and> e2)"
  using assms
  by (auto simp: ctask_delete_def task_delete_both_def try_run_def ctask_kill_delete_def client_call_defs call_valid
      split: if_splits result.splits prod.splits)

interpretation ctask: deletable_task "ctask_delete sv c t" for sv c t
  by unfold_locales (auto simp: ctask_delete_def intro: task_delete_both_again)

lemma ctask_dropped_after_delete: "ctask_delete sv c t s = (s', Ok ()) \<Longrightarrow> ctask_drop sv c t s' = fst s'"
  by (simp add: ctask_drop_def ctask.dropped_after_delete)

lemma ctask_drop_fresh:
  "client_valid sv c \<Longrightarrow> ctask_drop sv c t (w, False, False) =
     w @ map (Pair (client_metadata c)) [KillTask (ct_id t) 9 True, DeleteTask (ct_id t), DeleteContainer (ct_id t)]"
  using ctask_delete_wire [of sv c t w False False]
  by (cases "ctask_delete sv c t (w, False, False)") (auto simp: ctask_drop_def)

text \<open>The body of a worker before its task is deleted: the requests up to the first that is refused.\<close>

definition ctask_body :: "ctask \<Rightarrow> request list" where
  "ctask_body t =
     [CreateContainer (ct_id t) (ct_image t) (ct_runtime t)
        ''types.containerd.io/opencontainers/runtime-spec/1/Spec'' (ct_spec t),
      CreateTask (ct_id t) (ct_mounts t) (path_join (ct_dir t) ''stdout'') (path_join (ct_dir t) ''stderr''),
      StartTask (ct_id t), WaitTask (ct_id t)]"

definition ctask_cleanup :: "ctask \<Rightarrow> request list" where
  "ctask_cleanup t = [KillTask (ct_id t) 9 True, DeleteTask (ct_id t), DeleteContainer (ct_id t)]"

lemma unit_answer: "(\<exists>e. a = Inl e) \<or> a = Inr ()" for a :: "unit answer"
  by (cases a) auto

lemma ctask_run_wire:
  assumes "client_valid sv c"
    and "st_then (ctask_create sv c t w) (\<lambda>w _. st_then (ctask_start sv c t w) (\<lambda>w _. ctask_wait sv outs c t w)) = (w', r)"
  shows "\<exists>k. w' = w @ map (Pair (client_metadata c)) (take k (ctask_body t)) \<and> 0 < k \<and> k \<le> 4 \<and> (r = Ok () \<longrightarrow> k = 4)
    \<and> \<not> is_panic r"
proof -
  note defs = ctask_create_def ctask_start_def ctask_wait_def client_call_defs call_valid [OF assms(1)]
  let ?w = "\<lambda>k. w @ map (Pair (client_metadata c)) (take k (ctask_body t))"
  consider (1) e where "sv_unit sv (?w 1) = Inl e"
    | (2) e where "sv_unit sv (?w 1) = Inr ()" "sv_unit sv (?w 2) = Inl e"
    | (3) e where "sv_unit sv (?w 1) = Inr ()" "sv_unit sv (?w 2) = Inr ()" "sv_unit sv (?w 3) = Inl e"
    | (4) "sv_unit sv (?w 1) = Inr ()" "sv_unit sv (?w 2) = Inr ()" "sv_unit sv (?w 3) = Inr ()"
    using unit_answer by metis
  then show ?thesis
  proof cases
    case 1 then show ?thesis using assms(2) by (intro exI [of _ 1]) (auto simp: defs ctask_body_def)
  next
    case 2 then show ?thesis using assms(2) by (intro exI [of _ 2]) (auto simp: defs ctask_body_def)
  next
    case 3 then show ?thesis using assms(2) by (intro exI [of _ 3]) (auto simp: defs ctask_body_def)
  next
    case 4
    then show ?thesis using assms(2)
      by (intro exI [of _ 4], cases "sv_status sv (?w 4)") (auto simp: defs ctask_body_def split: if_splits)
  qed
qed

text \<open>No run of a task leaves anything behind unasked: whatever containerd answers, the worker sends the requests of its
  body up to the first one that fails, and then kills the task, deletes it and deletes the container; when the run
  succeeds these are all the requests there are, and dropping the task sends nothing more.\<close>

theorem task_run_cleans_up:
  assumes "client_valid sv c" and "run_ctask sv outs c t w = (w', r)"
  shows "\<exists>k more_rs. w' = w @ map (Pair (client_metadata c)) (take k (ctask_body t) @ ctask_cleanup t @ more_rs)
      \<and> 0 < k \<and> set more_rs \<subseteq> set (ctask_cleanup t) \<and> (r = Ok () \<longrightarrow> 4 \<le> k \<and> more_rs = [])"
proof -
  obtain w1 r1 where b: "st_then (ctask_create sv c t w)
      (\<lambda>w _. st_then (ctask_start sv c t w) (\<lambda>w _. ctask_wait sv outs c t w)) = (w1, r1)"
    by (metis prod.exhaust)
  obtain k where k: "w1 = w @ map (Pair (client_metadata c)) (take k (ctask_body t))" "0 < k"
      "r1 = Ok () \<Longrightarrow> k = 4" "\<not> is_panic r1"
    using ctask_run_wire [OF assms(1) b] by blast
  show ?thesis
  proof (cases "r1 = Ok ()")
    case False
    then have "w' = ctask_drop sv c t (w1, False, False)" "r \<noteq> Ok ()"
      using assms(2) b k(4) by (auto simp: run_ctask_def split: result.splits)
    then show ?thesis
      using k assms(1) by (intro exI [of _ k] exI [of _ "[]"]) (simp add: ctask_drop_fresh ctask_cleanup_def)
  next
    case True
    obtain w2 e1 e2 r2 where d: "ctask_delete sv c t (w1, False, False) = ((w2, e1, e2), r2)" by (metis prod.exhaust)
    obtain w3 f1 f2 r3 where d': "ctask_delete sv c t (w2, e1, e2) = ((w3, f1, f2), r3)" by (metis prod.exhaust)
    have w': "w' = w3" "r = r2"
      using assms(2) b True d d' by (auto simp: run_ctask_def ctask_drop_def)
    define more_rs where "more_rs = (if e1 then [] else [KillTask (ct_id t) 9 True, DeleteTask (ct_id t)])
      @ (if e2 then [] else [DeleteContainer (ct_id t)])"
    have "w3 = w1 @ map (Pair (client_metadata c)) (ctask_cleanup t @ more_rs)" "r2 = Ok () \<longrightarrow> e1 \<and> e2"
      using ctask_delete_wire [OF assms(1) d] ctask_delete_wire [OF assms(1) d']
      by (auto simp: ctask_cleanup_def more_rs_def)
    then show ?thesis
      using w' k True by (intro exI [of _ k] exI [of _ more_rs]) (auto simp: more_rs_def ctask_cleanup_def)
  qed
qed

text \<open>A containerd with one image, that grants every request.\<close>

definition demo_store :: "string \<Rightarrow> string" where
  "demo_store d = (if d = ''sha256:i'' then ''index'' else if d = ''sha256:m'' then ''manifest'' else ''config'')"

definition demo_containerd :: containerd where
  "demo_containerd =
     \<lparr>sv_valid = \<lambda>v. True, sv_expiry = \<lambda>w. ''tomorrow'', sv_lease = \<lambda>w. Inr (Some ''lease1''), sv_unit = \<lambda>w. Inr (),
      sv_read = \<lambda>w. case snd (last w) of
                     ReadContent d \<Rightarrow> Inr [Ok (0, take 1 (demo_store d)), Ok (1, drop 1 (demo_store d))]
                   | _ \<Rightarrow> Inl ''not found'',
      sv_image = \<lambda>w. Inr (Some (Some ''sha256:i'')), sv_mounts = \<lambda>w. Inr [], sv_status = \<lambda>w. Inr 0,
      sv_index = \<lambda>t. if t = ''index'' then Some [(''sha256:x'', Some ''arm64''), (''sha256:m'', Some ''amd64'')] else None,
      sv_manifest = \<lambda>t. if t = ''manifest'' then Ok ''sha256:c'' else Err ''not a manifest'',
      sv_config = \<lambda>t. if t = ''config'' then Ok \<lparr>im_diff_ids = [''sha256:a'', ''sha256:b''], im_config = None\<rparr>
                      else Err ''not a config''\<rparr>"

lemma demo_grants [simp]: "sv_unit demo_containerd w = Inr ()" "sv_status demo_containerd w = Inr 0"
  by (simp_all add: demo_containerd_def)

definition demo_client :: client where
  "demo_client = \<lparr>gc_namespace = ''default'', gc_lease = ''lease1''\<rparr>"

theorem session_runs_under_lease_witness:
  "\<exists>rs. client_drop demo_containerd demo_client
      (foldl (run_op (\<lambda>x. x) demo_containerd (Some ''amd64'') demo_client)
        [([(''containerd-namespace'', ''default'')], CreateLease [(''containerd.io/gc.expire'', ''tomorrow'')])]
        [GetMounts ''t'' ''i'', OpStart ''t'']) =
      [([(''containerd-namespace'', ''default'')], CreateLease [(''containerd.io/gc.expire'', ''tomorrow'')])]
      @ map (Pair [(''containerd-namespace'', ''default''), (''containerd-lease'', ''lease1'')]) rs
      @ [([(''containerd-namespace'', ''default'')], DeleteLease ''lease1'' False)]"
proof -
  have 1: "client_connect demo_containerd (Ok ()) ''default'' [] =
      ([([(''containerd-namespace'', ''default'')], CreateLease [(''containerd.io/gc.expire'', ''tomorrow'')])], Ok demo_client)"
    by (simp add: client_connect_def inner_connect_def with_lease_def call_def with_metadata_def demo_containerd_def
        demo_client_def)
  show ?thesis
    using session_runs_under_lease [OF 1, of "\<lambda>x. x" "Some ''amd64''" "[GetMounts ''t'' ''i'', OpStart ''t'']"]
    by (auto simp: demo_client_def demo_containerd_def)
qed

definition demo_ctask :: ctask where
  "demo_ctask = \<lparr>ct_runtime = ''rt'', ct_id = ''t'', ct_image = ''i'', ct_mounts = [],
     ct_spec = ctask_spec 7 None [''a''], ct_dir = ''/tmp/x''\<rparr>"

theorem task_run_cleans_up_witness:
  "\<exists>k more_rs. fst (run_ctask demo_containerd (\<lambda>w. []) demo_client demo_ctask [])
      = map (Pair (client_metadata demo_client)) (take k (ctask_body demo_ctask) @ ctask_cleanup demo_ctask @ more_rs)
    \<and> 4 \<le> k \<and> more_rs = []"
proof -
  have v: "client_valid demo_containerd demo_client" by (simp add: client_valid_def demo_containerd_def demo_client_def)
  have r: "snd (run_ctask demo_containerd (\<lambda>w. []) demo_client demo_ctask []) = Ok ()"
    by (simp add: run_ctask_def ctask_create_def ctask_start_def ctask_wait_def client_call_defs call_valid [OF v]
        ctask_delete_def task_delete_both_def try_run_def ctask_kill_delete_def)
  show ?thesis
    using task_run_cleans_up [OF v surjective_pairing [of "run_ctask demo_containerd (\<lambda>w. []) demo_client demo_ctask []"]]
    by (auto simp: r)
qed

section \<open>The mounts of an image\<close>

lemma client_read_content_valid:
  assumes "client_valid sv c" and "sv_read sv (w @ [(client_metadata c, ReadContent d)]) = Inr ms"
    and "read_stream [] ms = Ok x"
  shows "client_read_content sv c d w = (w @ [(client_metadata c, ReadContent d)], Ok x)"
  using assms by (simp add: client_read_content_def call_valid)

text \<open>What the client reads of a digest is its content in the store.\<close>

definition serves :: "'i server \<Rightarrow> (string \<Rightarrow> string option) \<Rightarrow> bool" where
  "serves sv store \<longleftrightarrow>
     (\<forall>w m d x. store d = Some x \<longrightarrow>
       (\<exists>ms. sv_read sv (w @ [(m, ReadContent d)]) = Inr ms \<and> read_stream [] ms = Ok x))"

lemma client_read_served:
  "client_valid sv c \<Longrightarrow> serves sv store \<Longrightarrow> store d = Some x \<Longrightarrow>
   client_read_content sv c d w = (w @ [(client_metadata c, ReadContent d)], Ok x)"
  unfolding serves_def using client_read_content_valid by metis

text \<open>The mounts of a multi-platform image: the client reads the index the image points to, the manifest of the first
  entry for the architecture of the host, and the configuration of that manifest, and prepares an overlayfs snapshot
  under the id of the task on top of the chain id of the layers of that configuration; the entries for other
  architectures are not read.\<close>

theorem mounts_of_host_platform:
  assumes v: "client_valid sv c" and store: "serves sv store"
    and img: "\<And>w m. sv_image sv (w @ [(m, GetImage img)]) = Inr (Some (Some d))"
    and index: "store d = Some i" "sv_index sv i = Some (before @ (dm, Some host) # after)"
    and host: "host \<in> {''amd64'', ''arm64''}" "(\<exists>p \<in> set before. snd p = Some host) = False"
    and man: "store dm = Some man" "sv_manifest sv man = Ok dc"
    and cfg: "store dc = Some conf" "sv_config sv conf = Ok config"
  shows "get_mounts sha sv (Some host) c tid img w =
    (let w' = w @ map (Pair (client_metadata c))
               [GetImage img, ReadContent d, ReadContent dm, ReadContent dc,
                PrepareSnapshot tid (chain_id sha (im_diff_ids config)) ''overlayfs'']
     in (w', of_answer (sv_mounts sv w')))"
proof -
  have "find (\<lambda>m. supported_arch (Some host) (snd m)) (before @ (dm, Some host) # after) = Some (dm, Some host)"
    using host by (induction before) (auto simp: supported_arch_def split: option.splits)
  then show ?thesis
    using index man cfg
    by (simp add: get_mounts_def image_config_def call_valid [OF v] img client_read_served [OF v store] snapshot_def Let_def)
qed

lemma demo_serves: "serves demo_containerd (Some \<circ> demo_store)"
  by (auto simp: serves_def demo_containerd_def demo_store_def)

theorem mounts_of_host_platform_witness:
  "fst (get_mounts (\<lambda>x. x) demo_containerd (Some ''amd64'') demo_client ''t'' ''img'' [])
   = map (Pair (client_metadata demo_client))
       [GetImage ''img'', ReadContent ''sha256:i'', ReadContent ''sha256:m'', ReadContent ''sha256:c'',
        PrepareSnapshot ''t'' ''sha256:sha256:a sha256:b'' ''overlayfs'']"
proof -
  have v: "client_valid demo_containerd demo_client" by (simp add: client_valid_def demo_containerd_def demo_client_def)
  show ?thesis
    using mounts_of_host_platform [OF v demo_serves, of "''img''" "''sha256:i''" "''index''" "[(''sha256:x'', Some ''arm64'')]" "''sha256:m''"
        "''amd64''" "[]" "''manifest''" "''sha256:c''" "''config''"
        "\<lparr>im_diff_ids = [''sha256:a'', ''sha256:b''], im_config = None\<rparr>" "\<lambda>x. x" "''t''" "[]"]
    by (simp add: demo_store_def Let_def chain_id_def) (simp add: demo_containerd_def)
qed

end
