(* ===== verification/Demo_App.thy ===== *)
theory Demo_App
  imports Stress_Client Sandbox_Context Tar_Builder
begin

text \<open>
  The sample guest (\<open>crates/wasi-demo-app/src/main.rs\<close>), the image its build script makes of it
  (\<open>crates/wasi-demo-app/build.rs\<close>), and the build script that turns the test modules into constants
  (\<open>crates/containerd-shim-wasm-test-modules/build.rs\<close>). The last section follows the default command of the
  load generator through the runtime to what the guest prints.
\<close>

section \<open>The guest\<close>

datatype guest_end = Returned | Exited i32 | Panicked | NeverEnds

text \<open>What a run leaves: the standard output and error, the file it wrote, how long it slept, and how it ended.
  Output of the endless loop is the text it repeats.\<close>

record guest_run =
  gr_stdout :: string
  gr_stderr :: string
  gr_file :: "(path \<times> string) option"
  gr_slept :: "string option"
  gr_end :: guest_end

definition silent :: "guest_end \<Rightarrow> guest_run" where
  "silent e = \<lparr>gr_stdout = [], gr_stderr = [], gr_file = None, gr_slept = None, gr_end = e\<rparr>"

text \<open>\<open>parse::<i32>\<close>: an optional sign and digits, in range.\<close>

definition parse_i32 :: "string \<Rightarrow> i32 option" where
  "parse_i32 s =
     (case s of
        c # r \<Rightarrow>
          if c = CHR ''-'' then
            (case (if r = [] then None else read_digits 0 r) of
               Some n \<Rightarrow> if n \<le> 2 ^ 31 then Some (- of_nat n) else None | None \<Rightarrow> None)
          else map_option of_nat (parse_uint 31 s)
      | [] \<Rightarrow> None)"

definition newline :: string where "newline = [CHR 0x0A]"

definition daemon_song :: string where
  "daemon_song =
     ''This is a song that never ends.'' @ newline @ ''Yes, it goes on and on my friends.'' @ newline
     @ ''Some people started singing it not knowing what it was,'' @ newline
     @ ''So they'' @ [CHR 0x27] @ ''ll continue singing it forever just because...'' @ newline @ newline"

text \<open>\<open>main\<close>: \<open>valid_secs\<close> is whether the text parses as an \<open>f64\<close> that is a duration, \<open>create\<close> and \<open>write\<close>
  whether the file can be created and written. A run that returns from the match prints a last line.\<close>

definition exiting :: "guest_run \<Rightarrow> guest_run" where
  "exiting g = g\<lparr>gr_stderr := gr_stderr g @ ''exiting'' @ newline, gr_end := Returned\<rparr>"

definition demo_main ::
  "(string \<Rightarrow> bool) \<Rightarrow> (path \<Rightarrow> bool) \<Rightarrow> (path \<Rightarrow> bool) \<Rightarrow> string list \<Rightarrow> guest_run" where
  "demo_main valid_secs create writable as =
     (let cmd = (if 2 \<le> length as then as ! 1 else ''daemon'')
      in if cmd = ''echo'' then exiting ((silent Returned)\<lparr>gr_stdout := join_with '' '' (drop 2 as) @ newline\<rparr>)
         else if cmd = ''sleep'' then
           (if length as < 3 \<or> \<not> valid_secs (as ! 2) then silent Panicked
            else exiting ((silent Returned)\<lparr>gr_slept := Some (as ! 2)\<rparr>))
         else if cmd = ''exit'' then
           (if length as < 3 then silent Panicked
            else (case parse_i32 (as ! 2) of Some i \<Rightarrow> silent (Exited i) | None \<Rightarrow> silent Panicked))
         else if cmd = ''write'' then
           (if length as < 3 \<or> \<not> create (as ! 2) then silent Panicked
            else if \<not> writable (as ! 2) then (silent Panicked)\<lparr>gr_file := Some (as ! 2, [])\<rparr>
            else exiting ((silent Returned)\<lparr>gr_file := Some (as ! 2, join_with '' '' (drop 3 as))\<rparr>))
         else if cmd = ''daemon'' then (silent NeverEnds)\<lparr>gr_stdout := daemon_song\<rparr>
         else (silent (Exited 1))\<lparr>gr_stderr := ''unknown command: '' @ as ! 1 @ newline\<rparr>)"

section \<open>The image of the guest\<close>

text \<open>\<open>main\<close> of the build script: \<open>layer_tar\<close> is the archive with the program under the name
  \<open>wasi-demo-app.wasm\<close>, which is written to \<open>layer.tar\<close>; \<open>img\<close> makes the configuration from its entrypoint and
  its diff ids. All failures panic.\<close>

definition demo_image ::
  "(string \<times> string \<Rightarrow> string) \<Rightarrow> (string \<Rightarrow> tar_env) \<Rightarrow> 'c oci_config \<Rightarrow> (string list \<Rightarrow> string list \<Rightarrow> 'c) \<Rightarrow> path \<Rightarrow>
   (string, string) result \<Rightarrow> (tar_entry list, string) result" where
  "demo_image layer_tar env oc img out_dir app =
     (case app of
        Ok bytes \<Rightarrow>
          (let layer = layer_tar (''wasi-demo-app.wasm'', bytes);
               e = env layer;
               cfg = img [''/wasi-demo-app.wasm''] [''sha256:'' @ te_sha256 e layer];
               b = add_config (add_layer builder_default (path_join out_dir ''layer.tar'')) cfg
                     ''ghcr.io/containerd/runwasi/wasi-demo-app:latest'' ''application/vnd.oci.image.config.v1+json''
           in (case build e oc b of Err m \<Rightarrow> Panic ''called Result::unwrap() on an Err value'' | r \<Rightarrow> r))
      | _ \<Rightarrow> Panic ''called Result::unwrap() on an Err value'')"

section \<open>Constants of the test modules\<close>

definition is_upper :: "char \<Rightarrow> bool" where
  "is_upper c \<longleftrightarrow> of_char c \<in> {65 .. 90 :: nat}"

definition is_lower :: "char \<Rightarrow> bool" where
  "is_lower c \<longleftrightarrow> of_char c \<in> {97 .. 122 :: nat}"

definition is_digit :: "char \<Rightarrow> bool" where
  "is_digit c \<longleftrightarrow> of_char c \<in> {48 .. 57 :: nat}"

definition to_upper :: "char \<Rightarrow> char" where
  "to_upper c = (if is_lower c then char_of (of_char c - 32 :: nat) else c)"

text \<open>The characters of a UTF-8 text start with a byte that is not a continuation byte, and all but the ASCII
  letters and digits become underscores.\<close>

definition ident_char :: "char \<Rightarrow> char" where
  "ident_char c = (if is_upper c \<or> is_lower c \<or> is_digit c then c else CHR ''_'')"

definition char_starts :: "string \<Rightarrow> string" where
  "char_starts s = filter (\<lambda>c. of_char c \<notin> {128 ..< 192 :: nat}) s"

definition path_to_ident :: "path \<Rightarrow> (string, string) result" where
  "path_to_ident p =
     and_then (ok_or ''getting filename'' (file_stem p)) (\<lambda>stem.
       let ident = map ident_char (char_starts stem)
       in if ident \<noteq> [] \<and> (is_upper (hd ident) \<or> is_lower (hd ident)) then Ok ident
          else Err ''please start the filename with [a-zA-Z]'')"

definition output_for :: "path \<Rightarrow> path \<Rightarrow> (path, string) result" where
  "output_for out_dir src =
     and_then (ok_or ''getting filename'' (file_name src)) (\<lambda>f.
       Ok (path_join out_dir (fst (rsplit_dot f) @ ''.wasm'')))"

text \<open>How a source becomes a module: the compiler for \<open>rs\<close>, the text format for \<open>wat\<close>, a copy for \<open>wasm\<close>; the
  tools are parameters that write the destination.\<close>

record tools =
  tl_rustc :: "path \<Rightarrow> path \<Rightarrow> (unit, string) result"
  tl_wat :: "path \<Rightarrow> path \<Rightarrow> (unit, string) result"
  tl_copy :: "path \<Rightarrow> path \<Rightarrow> (unit, string) result"

definition compile_source :: "tools \<Rightarrow> path \<Rightarrow> path \<Rightarrow> (bool \<times> path, string) result" where
  "compile_source tk out_dir src =
     (let via = (\<lambda>tool with_source. and_then (output_for out_dir src) (\<lambda>dst.
                   and_then (tool src dst) (\<lambda>_. Ok (with_source, dst))))
      in case extension src of
           Some e \<Rightarrow>
             if e = ''rs'' then via (tl_rustc tk) True
             else if e = ''wat'' then via (tl_wat tk) True
             else if e = ''wasm'' then via (tl_copy tk) False
             else Err ''unrecognized file format for source file''
         | None \<Rightarrow> Err ''unrecognized file format for source file'')"

text \<open>One constant of \<open>modules.rs\<close>: its name, whether it carries the source, and the bytes' path.\<close>

definition module_const :: "tools \<Rightarrow> path \<Rightarrow> path \<Rightarrow> (string \<times> path option \<times> path, string) result" where
  "module_const tk out_dir src =
     and_then (path_to_ident src) (\<lambda>ident.
     and_then (compile_source tk out_dir src) (\<lambda>(with_source, dst).
       Ok (map to_upper ident, if with_source then Some src else None, dst)))"

fun module_consts :: "tools \<Rightarrow> path \<Rightarrow> path list \<Rightarrow> ((string \<times> path option \<times> path) list, string) result" where
  "module_consts tk out_dir [] = Ok []"
| "module_consts tk out_dir (src # srcs) =
     and_then (module_const tk out_dir src) (\<lambda>c. and_then (module_consts tk out_dir srcs) (\<lambda>cs. Ok (c # cs)))"

section \<open>Properties\<close>

lemma is_upper_to_upper: "is_upper c \<or> is_lower c \<Longrightarrow> is_upper (to_upper c)"
  by (auto simp: is_upper_def is_lower_def to_upper_def)

lemma ident_char_kind:
  "is_upper (to_upper (ident_char c)) \<or> is_digit (to_upper (ident_char c)) \<or> to_upper (ident_char c) = CHR ''_''"
  using is_upper_to_upper [of c]
  by (auto simp: ident_char_def) (auto simp: to_upper_def is_lower_def is_digit_def)

text \<open>Every constant the build script writes has a name that is a Rust constant's: it starts with an upper-case
  letter and goes on with upper-case letters, digits and underscores; there is one per source, in the order of the
  directory, with the module at the stem of the source in the output directory; only a binary module has no source
  text.\<close>

theorem module_consts_wellformed:
  assumes "module_consts tk out_dir srcs = Ok cs"
  shows "list_all2 (\<lambda>src (nm, source, dst).
      nm \<noteq> [] \<and> is_upper (hd nm) \<and> (\<forall>c \<in> set nm. is_upper c \<or> is_digit c \<or> c = CHR ''_'')
      \<and> output_for out_dir src = Ok dst \<and> (source = None \<longleftrightarrow> extension src = Some ''wasm'')
      \<and> (source = None \<or> source = Some src)) srcs cs"
  using assms
proof (induction srcs arbitrary: cs)
  case (Cons src srcs)
  obtain c cs' where c: "module_const tk out_dir src = Ok c" "module_consts tk out_dir srcs = Ok cs'" "cs = c # cs'"
    using Cons.prems by (auto simp: res_simps)
  obtain ident ws dst where i: "path_to_ident src = Ok ident" "compile_source tk out_dir src = Ok (ws, dst)"
      "c = (map to_upper ident, if ws then Some src else None, dst)"
    using c(1) by (auto simp: module_const_def res_simps)
  obtain stem where stem: "ident = map ident_char stem" "ident \<noteq> []" "is_upper (hd ident) \<or> is_lower (hd ident)"
    using i(1) by (auto simp: path_to_ident_def res_simps Let_def split: if_splits)
  have d: "output_for out_dir src = Ok dst" "\<not> ws \<longleftrightarrow> extension src = Some ''wasm''"
    using i(2) by (auto simp: compile_source_def Let_def res_simps split: option.splits if_splits)
  have "is_upper (hd (map to_upper ident))" using stem is_upper_to_upper by (simp add: hd_map)
  moreover have "\<forall>x \<in> set (map to_upper ident). is_upper x \<or> is_digit x \<or> x = CHR ''_''"
    unfolding stem(1) using ident_char_kind by auto
  ultimately show ?case using Cons.IH [OF c(2)] c(3) i(3) d stem(2) by auto
qed simp

theorem module_consts_wellformed_witness:
  "(let tk = \<lparr>tl_rustc = \<lambda>s d. Ok (), tl_wat = \<lambda>s d. Ok (), tl_copy = \<lambda>s d. Ok ()\<rparr>
    in module_consts tk ''/out'' [''/m/hello-world.rs''] = Ok [(''HELLO_WORLD'', Some ''/m/hello-world.rs'', ''/out/hello-world.wasm'')]
       \<and> is_upper (hd ''HELLO_WORLD''))"
proof -
  let ?tk = "\<lparr>tl_rustc = \<lambda>s d. Ok (), tl_wat = \<lambda>s d. Ok (), tl_copy = \<lambda>s d. Ok ()\<rparr>"
  have e: "module_consts ?tk ''/out'' [''/m/hello-world.rs'']
      = Ok [(''HELLO_WORLD'', Some ''/m/hello-world.rs'', ''/out/hello-world.wasm'')]"
    by (simp add: module_const_def path_to_ident_def compile_source_def output_for_def extension_def file_stem_def
        file_name_def components_def is_absolute_def rsplit_dot_def ident_char_def char_starts_def is_upper_def
        is_lower_def is_digit_def to_upper_def path_join_def Let_def)
      (simp add: char_of_def bit_simps)
  show ?thesis using module_consts_wellformed [OF e] e by simp
qed

text \<open>The default command of the load generator, all the way: without arguments and with the default image it runs
  \<open>echo hello\<close> in \<open>/wasi-demo-app.wasm\<close>; the runtime takes that path for the module and \<open>_start\<close> for the function;
  the guest prints \<open>hello\<close> and returns, so that its task succeeds.\<close>

theorem default_command_says_hello:
  "\<exists>as. default_entrypoint ep ''ghcr.io/containerd/runwasi/wasi-demo-app:latest'' = Ok as
     \<and> source (entrypoint_of \<lparr>ctx_process = Some \<lparr>pr_args = Some as, pr_env = None\<rparr>, wasm_layers = []\<rparr>)
         = File ''/wasi-demo-app.wasm''
     \<and> func (entrypoint_of \<lparr>ctx_process = Some \<lparr>pr_args = Some as, pr_env = None\<rparr>, wasm_layers = []\<rparr>) = ''_start''
     \<and> gr_stdout (demo_main v cr wr as) = ''hello'' @ newline \<and> gr_end (demo_main v cr wr as) = Returned"
proof -
  have e: "default_entrypoint ep ''ghcr.io/containerd/runwasi/wasi-demo-app:latest''
      = Ok [''/wasi-demo-app.wasm'', ''echo'', ''hello'']"
    by (simp add: default_entrypoint_def)
  have p: "source (entrypoint_of \<lparr>ctx_process = Some \<lparr>pr_args = Some [''/wasi-demo-app.wasm'', ''echo'', ''hello''], pr_env = None\<rparr>,
      wasm_layers = []\<rparr>) = File ''/wasi-demo-app.wasm''"
    "func (entrypoint_of \<lparr>ctx_process = Some \<lparr>pr_args = Some [''/wasi-demo-app.wasm'', ''echo'', ''hello''], pr_env = None\<rparr>,
      wasm_layers = []\<rparr>) = ''_start''"
    by (simp_all add: entrypoint_of_def split_entrypoint_def args_def Let_def)
  show ?thesis using e p by (simp add: demo_main_def exiting_def silent_def newline_def)
qed

end
