(* ===== verification/Unix_Instance.thy ===== *)
theory Unix_Instance
  imports Sandbox_Context Instance_Data
begin

text \<open>
  The instance of the wasm shims on unix (\<open>containerd-shim-wasm/src/sys/unix\<close>): the container
  behind a zygote process (\<open>container/container.rs\<close>), the wait for its process
  (\<open>pid_fd.rs\<close>) and the \<open>Instance\<close> methods (\<open>container/instance.rs\<close>).

  youki's container, the zygote crate, the kernel and the containerd client are outside: they are
  the fields of \<open>unix_env\<close>, over a state \<open>'y\<close> of the operating system and a type \<open>'c\<close> of
  youki containers. Every zygote process has one slot for a container.
\<close>

section \<open>Waiting for a process\<close>

datatype wait_status = WExited i32 i32 | WSignaled i32 i32 bool | WStillAlive | WOther

datatype errno = ECHILD | EOther string

datatype subject = SubjectPid i32 | SubjectExec

text \<open>\<open>try_wait_pid\<close>: the events the reaper delivers before two seconds pass without one.\<close>

fun try_wait_pid :: "i32 \<Rightarrow> (subject \<times> i32) list \<Rightarrow> (i32, errno) result" where
  "try_wait_pid pid [] = Err ECHILD"
| "try_wait_pid pid ((SubjectExec, code) # evs) = try_wait_pid pid evs"
| "try_wait_pid pid ((SubjectPid p, code) # evs) =
     (if pid = p then Ok code else try_wait_pid pid evs)"

text \<open>\<open>PidFd::wait\<close>: one element for every turn of the loop, with what \<open>waitid\<close> answers and, if
  the process is alive, how \<open>fd.readable()\<close> ends. \<open>None\<close> is the future that is not ready.\<close>

fun pidfd_wait ::
  "i32 \<Rightarrow> (subject \<times> i32) list \<Rightarrow> ((wait_status, errno) result \<times> (unit, errno) result) list \<Rightarrow>
   (wait_status, errno) result option" where
  "pidfd_wait pid subs [] = None"
| "pidfd_wait pid subs ((Ok WStillAlive, Ok _) # rs) = pidfd_wait pid subs rs"
| "pidfd_wait pid subs ((Ok WStillAlive, Err e) # rs) = Some (Err e)"
| "pidfd_wait pid subs ((Ok WStillAlive, Panic m) # rs) = Some (Panic m)"
| "pidfd_wait pid subs ((Ok status, _) # rs) = Some (Ok status)"
| "pidfd_wait pid subs ((Err ECHILD, _) # rs) =
     Some (and_then (try_wait_pid pid subs) (\<lambda>status. Ok (WExited pid status)))"
| "pidfd_wait pid subs ((Err e, _) # rs) = Some (Err e)"
| "pidfd_wait pid subs ((Panic m, _) # rs) = Some (Panic m)"

text \<open>The exit status that the task spawned by \<open>start\<close> stores; \<open>as u32\<close> keeps the bits.\<close>

fun exit_status :: "(wait_status, errno) result \<Rightarrow> u32" where
  "exit_status (Ok (WExited p status)) = status"
| "exit_status (Ok (WSignaled p sig core)) = 128 + sig"
| "exit_status _ = 137"

section \<open>The world of the shim\<close>

record build_args =
  ba_id :: string
  ba_modules :: "wasm_layer list"
  ba_rootdir :: path
  ba_stdin :: "path option"
  ba_stdout :: "path option"
  ba_stderr :: "path option"
  ba_bundle :: path
  ba_systemd :: bool

record ('y, 'c) unix_env =
  ux_name :: string
  ux_connect :: "'y \<Rightarrow> string \<Rightarrow> string \<Rightarrow> 'y \<times> (unit, string) result"
  ux_load_modules :: "'y \<Rightarrow> string \<Rightarrow> 'y \<times> wasm_layer list sandbox_result"
  ux_load_spec :: "'y \<Rightarrow> path \<Rightarrow> (unit, string) result"
  ux_fs_open :: "path \<Rightarrow> (string, io_error) result"
  ux_parse_options :: "string \<Rightarrow> (path option, string) result"
  ux_open_rw :: "path \<Rightarrow> (path, io_error) result"
  ux_build :: "'y \<Rightarrow> build_args \<Rightarrow> 'y \<times> ('c, string) result"
  ux_pid :: "'c \<Rightarrow> i32 option"
  ux_start :: "'y \<Rightarrow> 'c \<Rightarrow> ('y \<times> 'c) \<times> (unit, string) result"
  ux_kill :: "'y \<Rightarrow> 'c \<Rightarrow> i32 \<Rightarrow> ('y \<times> 'c) \<times> (unit, string) result"
  ux_delete :: "'y \<Rightarrow> 'c \<Rightarrow> ('y \<times> 'c) \<times> (unit, string) result"
  ux_is_signal :: "i32 \<Rightarrow> bool"
  ux_subscribe :: "'y \<Rightarrow> (unit, string) result"
  ux_pidfd_open :: "'y \<Rightarrow> i32 \<Rightarrow> (unit, string) result"
  ux_now :: "'y \<Rightarrow> datetime"

text \<open>The handle of an instance names its cell and its zygote. A spawned exit task has the cell
  (with the guard on it) and the pid.\<close>

record unix_instance =
  un_id :: string
  un_cell :: nat
  un_zygote :: nat

record ('y, 'c) unix_world =
  uw_os :: 'y
  uw_client :: bool
  uw_zygotes :: "'c option list"
  uw_cells :: "exit_info waitable_cell list"
  uw_tasks :: "(nat \<times> i32) list"

section \<open>Container\<close>

text \<open>\<open>run_impl\<close>: the function runs in the zygote, on its slot.\<close>

definition run_impl ::
  "('y, 'c) unix_world \<Rightarrow> nat \<Rightarrow> ('y \<Rightarrow> 'c option \<Rightarrow> ('y \<times> 'c option) \<times> ('a, string) result) \<Rightarrow>
   ('y, 'c) unix_world \<times> ('a, string) result" where
  "run_impl w z f =
     (case f (uw_os w) (uw_zygotes w ! z) of
        ((y, c), r) \<Rightarrow> (w\<lparr>uw_os := y, uw_zygotes := (uw_zygotes w)[z := c]\<rparr>, r))"

definition run_init ::
  "('y, 'c) unix_world \<Rightarrow> nat \<Rightarrow> ('y \<Rightarrow> 'y \<times> ('c, string) result) \<Rightarrow>
   ('y, 'c) unix_world \<times> (unit, string) result" where
  "run_init w z f =
     run_impl w z (\<lambda>y slot.
       case f y of
         (y', Ok c) \<Rightarrow> ((y', Some c), Ok ())
       | (y', Err e) \<Rightarrow> ((y', slot), Err e)
       | (y', Panic m) \<Rightarrow> ((y', slot), Panic m))"

definition run_container ::
  "('y, 'c) unix_world \<Rightarrow> nat \<Rightarrow> ('y \<Rightarrow> 'c \<Rightarrow> ('y \<times> 'c) \<times> ('a, string) result) \<Rightarrow>
   ('y, 'c) unix_world \<times> ('a, string) result" where
  "run_container w z f =
     run_impl w z (\<lambda>y slot.
       case slot of
         None \<Rightarrow> ((y, None), Panic ''Container not initialized'')
       | Some c \<Rightarrow> (case f y c of ((y', c'), r) \<Rightarrow> ((y', Some c'), r)))"

definition container_build ::
  "('y, 'c) unix_world \<Rightarrow> ('y \<Rightarrow> 'y \<times> ('c, string) result) \<Rightarrow>
   ('y, 'c) unix_world \<times> (nat, string) result" where
  "container_build w f =
     (let z = length (uw_zygotes w)
      in st_then (run_init (w\<lparr>uw_zygotes := uw_zygotes w @ [None]\<rparr>) z f) (\<lambda>w _. (w, Ok z)))"

definition container_pid ::
  "('y, 'c) unix_env \<Rightarrow> ('y, 'c) unix_world \<Rightarrow> nat \<Rightarrow> ('y, 'c) unix_world \<times> (i32, string) result" where
  "container_pid env w z =
     st_then (run_container w z (\<lambda>y c. ((y, c), Ok (ux_pid env c)))) (\<lambda>w p.
       (w, ok_or ''Failed to obtain PID'' p))"

definition container_start ::
  "('y, 'c) unix_env \<Rightarrow> ('y, 'c) unix_world \<Rightarrow> nat \<Rightarrow> ('y, 'c) unix_world \<times> (unit, string) result" where
  "container_start env w z = run_container w z (ux_start env)"

definition container_kill ::
  "('y, 'c) unix_env \<Rightarrow> ('y, 'c) unix_world \<Rightarrow> nat \<Rightarrow> u32 \<Rightarrow> ('y, 'c) unix_world \<times> (unit, string) result" where
  "container_kill env w z signal =
     run_container w z (\<lambda>y c.
       if ux_is_signal env signal then ux_kill env y c signal
       else ((y, c), Err ''invalid signal number''))"

definition container_delete ::
  "('y, 'c) unix_env \<Rightarrow> ('y, 'c) unix_world \<Rightarrow> nat \<Rightarrow> ('y, 'c) unix_world \<times> (unit, string) result" where
  "container_delete env w z = run_container w z (ux_delete env)"

section \<open>The Instance methods\<close>

text \<open>The closure that builds the container in the zygote: spec, root directory, the streams that
  can be opened, then youki's builder.\<close>

definition build_container ::
  "('y, 'c) unix_env \<Rightarrow> string \<Rightarrow> instance_config \<Rightarrow> wasm_layer list \<Rightarrow> 'y \<Rightarrow> 'y \<times> ('c, string) result" where
  "build_container env cid cfg modules y =
     st_then (y, ux_load_spec env y (path_join (ic_bundle cfg) ''config.json'')) (\<lambda>y _.
     st_then (y, map_err (error_display (\<lambda>_. [])) (determine_rootdir (ux_fs_open env) (ux_parse_options env) cfg (ux_name env)))
       (\<lambda>y rootdir.
         ux_build env y
           \<lparr>ba_id = cid, ba_modules = modules, ba_rootdir = rootdir,
            ba_stdin = ok (open_stdin (ux_open_rw env) cfg),
            ba_stdout = ok (open_stdout (ux_open_rw env) cfg),
            ba_stderr = ok (open_stderr (ux_open_rw env) cfg),
            ba_bundle = ic_bundle cfg, ba_systemd = systemd_cgroup (ic_config cfg)\<rparr>))"

text \<open>\<open>OCI_CLIENT.get_or_try_init\<close>: connect once per process.\<close>

definition oci_client ::
  "('y, 'c) unix_env \<Rightarrow> ('y, 'c) unix_world \<Rightarrow> instance_config \<Rightarrow> ('y, 'c) unix_world \<times> unit sandbox_result" where
  "oci_client env w cfg =
     (if uw_client w then (w, Ok ())
      else (case ux_connect env (uw_os w) (ic_containerd_address cfg) (ic_namespace cfg) of
              (y, r) \<Rightarrow> st_then (w\<lparr>uw_os := y\<rparr>, map_err Containerd r) (\<lambda>w _. (w\<lparr>uw_client := True\<rparr>, Ok ()))))"

definition unix_new ::
  "('y, 'c) unix_env \<Rightarrow> ('y, 'c) unix_world \<Rightarrow> string \<Rightarrow> instance_config \<Rightarrow>
   ('y, 'c) unix_world \<times> unix_instance sandbox_result" where
  "unix_new env w cid cfg =
     st_then (oci_client env w cfg) (\<lambda>w _.
       case ux_load_modules env (uw_os w) cid of
         (y, Panic m) \<Rightarrow> (w\<lparr>uw_os := y\<rparr>, Panic m)
       | (y, r) \<Rightarrow>
           (let modules = (case r of Ok ms \<Rightarrow> ms | _ \<Rightarrow> []);
                (w, b) = container_build (w\<lparr>uw_os := y\<rparr>) (build_container env cid cfg modules)
            in st_then (w, map_err Any b) (\<lambda>w z.
                 (w\<lparr>uw_cells := uw_cells w @ [wc_new]\<rparr>,
                  Ok \<lparr>un_id = cid, un_cell = length (uw_cells w), un_zygote = z\<rparr>))))"

definition set_exit :: "('y, 'c) unix_world \<Rightarrow> nat \<Rightarrow> exit_info \<Rightarrow> ('y, 'c) unix_world" where
  "set_exit w c v = w\<lparr>uw_cells := (uw_cells w)[c := fst (wc_set (uw_cells w ! c) v)]\<rparr>"

text \<open>Dropping the guard made by \<open>set_guard_with(|| (137, Utc::now()))\<close>.\<close>

definition drop_exit_guard :: "('y, 'c) unix_env \<Rightarrow> ('y, 'c) unix_world \<Rightarrow> nat \<Rightarrow> ('y, 'c) unix_world" where
  "drop_exit_guard env w c =
     (case guard_drop (uw_cells w ! c) (set_guard_with (\<lambda>_. (137, ux_now env (uw_os w)))) :: (_, unit) result of
        Ok x \<Rightarrow> w\<lparr>uw_cells := (uw_cells w)[c := x]\<rparr>
      | _ \<Rightarrow> w)"

definition pidfd_new :: "('y, 'c) unix_env \<Rightarrow> 'y \<Rightarrow> i32 \<Rightarrow> (unit, string) result" where
  "pidfd_new env y pid = and_then (ux_subscribe env y) (\<lambda>_. ux_pidfd_open env y pid)"

text \<open>On every early return, and on a panic, the guard is dropped here; on success it moves into the
  spawned task.\<close>

definition unix_start ::
  "('y, 'c) unix_env \<Rightarrow> ('y, 'c) unix_world \<Rightarrow> unix_instance \<Rightarrow> ('y, 'c) unix_world \<times> u32 sandbox_result" where
  "unix_start env w i =
     (case st_then (container_pid env w (un_zygote i)) (\<lambda>w pid.
           st_then (w, pidfd_new env (uw_os w) pid) (\<lambda>w _.
           st_then (container_start env w (un_zygote i)) (\<lambda>w _. (w, Ok pid)))) of
        (w, Ok pid) \<Rightarrow> (w\<lparr>uw_tasks := uw_tasks w @ [(un_cell i, pid)]\<rparr>, Ok pid)
      | (w, Err e) \<Rightarrow> (drop_exit_guard env w (un_cell i), Err (Any e))
      | (w, Panic m) \<Rightarrow> (drop_exit_guard env w (un_cell i), Panic m))"

definition unix_kill ::
  "('y, 'c) unix_env \<Rightarrow> ('y, 'c) unix_world \<Rightarrow> unix_instance \<Rightarrow> u32 \<Rightarrow> ('y, 'c) unix_world \<times> unit sandbox_result" where
  "unix_kill env w i signal =
     (case container_kill env w (un_zygote i) signal of (w, r) \<Rightarrow> (w, map_err Any r))"

definition unix_delete ::
  "('y, 'c) unix_env \<Rightarrow> ('y, 'c) unix_world \<Rightarrow> unix_instance \<Rightarrow> ('y, 'c) unix_world \<times> unit sandbox_result" where
  "unix_delete env w i =
     (case container_delete env w (un_zygote i) of (w, r) \<Rightarrow> (w, map_err Any r))"

definition unix_wait :: "('y, 'c) unix_world \<Rightarrow> unix_instance \<Rightarrow> exit_info option" where
  "unix_wait w i = (if un_cell i < length (uw_cells w) then wc_wait (uw_cells w ! un_cell i) else None)"

text \<open>The spawned task \<open>k\<close> gets the result of \<open>pidfd.wait()\<close>: it stores the status, then its guard
  is dropped. A task that is dropped, or that panics, before that drops the guard only.\<close>

definition remove_task :: "('y, 'c) unix_world \<Rightarrow> nat \<Rightarrow> ('y, 'c) unix_world" where
  "remove_task w k = w\<lparr>uw_tasks := take k (uw_tasks w) @ drop (Suc k) (uw_tasks w)\<rparr>"

definition exit_task ::
  "('y, 'c) unix_env \<Rightarrow> ('y, 'c) unix_world \<Rightarrow> nat \<Rightarrow> (wait_status, errno) result \<Rightarrow> ('y, 'c) unix_world" where
  "exit_task env w k res =
     (if k < length (uw_tasks w) then
        (let c = fst (uw_tasks w ! k);
             w1 = remove_task w k;
             w2 = (if is_panic res then w1 else set_exit w1 c (exit_status res, ux_now env (uw_os w)))
         in drop_exit_guard env w2 c)
      else w)"

definition pod_id :: "(string \<times> string) list option \<Rightarrow> string option" where
  "pod_id annotations =
     Option.bind annotations (\<lambda>a. map_of a ''io.kubernetes.cri.sandbox-id'')"

definition unix_ops :: "('y, 'c) unix_env \<Rightarrow> (('y, 'c) unix_world, unix_instance) instance_ops" where
  "unix_ops env =
     \<lparr>i_new = unix_new env, i_start = unix_start env, i_kill = unix_kill env,
      i_delete = unix_delete env, i_poll = unix_wait\<rparr>"

section \<open>The cells and the zygotes\<close>

definition unix_valid :: "('y, 'c) unix_world \<Rightarrow> unix_instance \<Rightarrow> bool" where
  "unix_valid w i \<longleftrightarrow>
     un_cell i < length (uw_cells w) \<and> un_zygote i < length (uw_zygotes w)
     \<and> uw_zygotes w ! un_zygote i \<noteq> None"

text \<open>Work in a zygote touches no cell and empties no slot.\<close>

definition zygote_step :: "('y, 'c) unix_world \<Rightarrow> ('y, 'c) unix_world \<Rightarrow> bool" where
  "zygote_step w w' \<longleftrightarrow>
     uw_cells w' = uw_cells w \<and> uw_tasks w' = uw_tasks w
     \<and> length (uw_zygotes w) \<le> length (uw_zygotes w')
     \<and> (\<forall>z < length (uw_zygotes w). uw_zygotes w ! z \<noteq> None \<longrightarrow> uw_zygotes w' ! z \<noteq> None)"

lemma zygote_step_refl [simp]: "zygote_step w w"
  by (simp add: zygote_step_def)

lemma zygote_step_os [simp]: "zygote_step w (w\<lparr>uw_os := y\<rparr>)" "zygote_step w (w\<lparr>uw_client := b\<rparr>)"
  "zygote_step w (w\<lparr>uw_os := y, uw_client := b\<rparr>)"
  by (simp_all add: zygote_step_def)

lemma zygote_step_trans: "zygote_step a b \<Longrightarrow> zygote_step b c \<Longrightarrow> zygote_step a c"
  by (auto simp: zygote_step_def)

lemma zygote_step_impl:
  assumes "\<And>y c. c \<noteq> None \<Longrightarrow> snd (fst (f y c)) \<noteq> None"
  shows "zygote_step w (fst (run_impl w z f))"
proof (cases "f (uw_os w) (uw_zygotes w ! z)")
  case (Pair yc r)
  obtain y c where yc: "yc = (y, c)" by (cases yc)
  have "(uw_zygotes w)[z := c] ! k \<noteq> None" if "k < length (uw_zygotes w)" "uw_zygotes w ! k \<noteq> None" for k
    using assms [of "uw_zygotes w ! z" "uw_os w"] Pair yc that by (cases "k = z") auto
  then show ?thesis by (simp add: zygote_step_def run_impl_def Pair yc)
qed

lemma zygote_step_run: "zygote_step w (fst (run_container w z f))"
  unfolding run_container_def
  by (rule zygote_step_impl) (auto split: option.splits prod.splits)

lemma zygote_step_run_eq: "run_container w z f = (w', r) \<Longrightarrow> zygote_step w w'"
  using zygote_step_run [of w z f] by simp

lemma zygote_step_pid: "zygote_step w (fst (container_pid env w z))"
  unfolding container_pid_def
  by (rule fst_st_then_inv [where P = "zygote_step w"]) (auto simp: zygote_step_run dest: zygote_step_run_eq)

lemma zygote_step_build: "zygote_step w (fst (container_build w f))"
proof -
  let ?w = "w\<lparr>uw_zygotes := uw_zygotes w @ [None]\<rparr>"
  have 1: "zygote_step w ?w" by (simp add: zygote_step_def nth_append)
  have 2: "zygote_step ?w (fst (run_init ?w (length (uw_zygotes w)) f))"
    unfolding run_init_def by (rule zygote_step_impl) (auto split: result.splits prod.splits)
  have "zygote_step w t" if "run_init ?w (length (uw_zygotes w)) f = (t, r)" for t r
    using zygote_step_trans [OF 1] 2 that by simp
  then show ?thesis
    unfolding container_build_def Let_def
    by (auto intro!: fst_st_then_inv [where P = "zygote_step w"] zygote_step_trans [OF 1 2])
qed

lemma container_build_slot:
  "container_build w f = (w', Ok z) \<Longrightarrow> z < length (uw_zygotes w') \<and> uw_zygotes w' ! z \<noteq> None"
  by (auto simp: container_build_def run_init_def run_impl_def Let_def res_simps
      split: prod.splits result.splits)

lemma unix_valid_step: "zygote_step w w' \<Longrightarrow> unix_valid w i \<Longrightarrow> unix_valid w' i"
  by (auto simp: zygote_step_def unix_valid_def)

lemma unix_wait_step: "zygote_step w w' \<Longrightarrow> unix_wait w' i = unix_wait w i"
  by (simp add: zygote_step_def unix_wait_def)

section \<open>Cells are written once\<close>

lemma drop_exit_guard_eq:
  "drop_exit_guard env w c = set_exit w c (137, ux_now env (uw_os w))"
  by (simp add: drop_exit_guard_def guard_drop_def set_guard_with_def set_exit_def)

lemma unix_wait_set_exit:
  "unix_wait (set_exit w c v) i =
     (if un_cell i = c \<and> c < length (uw_cells w)
      then (case unix_wait w i of None \<Rightarrow> Some v | Some u \<Rightarrow> Some u) else unix_wait w i)"
  by (auto simp: unix_wait_def set_exit_def wc.get_set)

lemma set_exit_simps [simp]:
  "uw_os (set_exit w c v) = uw_os w" "length (uw_cells (set_exit w c v)) = length (uw_cells w)"
  by (simp_all add: set_exit_def)

lemma unix_wait_tasks [simp]: "unix_wait (w\<lparr>uw_tasks := t\<rparr>) i = unix_wait w i"
  by (simp add: unix_wait_def)

lemma unix_valid_set_exit [simp]: "unix_valid (set_exit w c v) i = unix_valid w i"
  by (simp add: unix_valid_def set_exit_def)

lemma unix_valid_tasks [simp]: "unix_valid (w\<lparr>uw_tasks := t\<rparr>) i = unix_valid w i"
  by (simp add: unix_valid_def)

text \<open>The first part of \<open>start\<close>, up to the point where the guard is moved or dropped.\<close>

definition start_steps ::
  "('y, 'c) unix_env \<Rightarrow> ('y, 'c) unix_world \<Rightarrow> unix_instance \<Rightarrow> ('y, 'c) unix_world \<times> (i32, string) result" where
  "start_steps env w i =
     st_then (container_pid env w (un_zygote i)) (\<lambda>w pid.
     st_then (w, pidfd_new env (uw_os w) pid) (\<lambda>w _.
     st_then (container_start env w (un_zygote i)) (\<lambda>w _. (w, Ok pid))))"

lemma zygote_step_start: "zygote_step w (fst (start_steps env w i))"
proof -
  have 1: "zygote_step w t" if "container_pid env w z = (t, r)" for t r z
    using zygote_step_pid [of w env z] that by simp
  have 2: "zygote_step t u" if "container_start env t z = (u, r)" for t u z r
    using that zygote_step_run_eq by (auto simp: container_start_def)
  have 3: "zygote_step w (fst (container_start env t z))" if "zygote_step w t" for t z
    using zygote_step_trans [OF that] 2 [of t z] by (metis prod.collapse)
  have 4: "zygote_step w u" if "container_pid env w z = (t, r)" "container_start env t z = (u, r')" for t u z r r'
    using zygote_step_trans [OF 1 [OF that(1)] 2 [OF that(2)]] .
  show ?thesis
    unfolding start_steps_def
    by (auto intro!: fst_st_then_inv [where P = "zygote_step w"] zygote_step_pid 3
        intro: 1 4)
qed

lemma unix_start_eq:
  "unix_start env w i =
     (case start_steps env w i of
        (w, Ok pid) \<Rightarrow> (w\<lparr>uw_tasks := uw_tasks w @ [(un_cell i, pid)]\<rparr>, Ok pid)
      | (w, Err e) \<Rightarrow> (set_exit w (un_cell i) (137, ux_now env (uw_os w)), Err (Any e))
      | (w, Panic m) \<Rightarrow> (set_exit w (un_cell i) (137, ux_now env (uw_os w)), Panic m))"
  by (simp add: unix_start_def start_steps_def drop_exit_guard_eq split: prod.splits result.splits)

section \<open>The contract\<close>

lemma unix_new_step:
  assumes "unix_new env w cid cfg = (w', r)"
  shows "\<exists>w1. zygote_step w w1 \<and>
    (w' = w1 \<and> \<not> is_ok r
     \<or> w' = w1\<lparr>uw_cells := uw_cells w1 @ [wc_new]\<rparr> \<and>
       (\<exists>z. r = Ok \<lparr>un_id = cid, un_cell = length (uw_cells w1), un_zygote = z\<rparr>
            \<and> z < length (uw_zygotes w1) \<and> uw_zygotes w1 ! z \<noteq> None))"
proof -
  obtain t x where t: "oci_client env w cfg = (t, x)" by fastforce
  have wt: "zygote_step w t"
    using t by (cases "snd (ux_connect env (uw_os w) (ic_containerd_address cfg) (ic_namespace cfg))")
      (auto simp: oci_client_def split: if_splits prod.splits)
  obtain y m where m: "ux_load_modules env (uw_os t) cid = (y, m)" by fastforce
  have wy: "zygote_step w (t\<lparr>uw_os := y\<rparr>)" using zygote_step_trans [OF wt] by simp
  define ms where "ms = (case m of Ok ms \<Rightarrow> ms | _ \<Rightarrow> [])"
  obtain u b where u: "container_build (t\<lparr>uw_os := y\<rparr>) (build_container env cid cfg ms) = (u, b)" by fastforce
  have wu: "zygote_step w u"
    using zygote_step_trans [OF wy] zygote_step_build [of "t\<lparr>uw_os := y\<rparr>"] u by (metis fst_conv)
  show ?thesis
  proof (cases x)
    case (Ok _)
    show ?thesis
    proof (cases "is_panic m")
      case True
      then show ?thesis
        using assms t m Ok wy by (cases m) (auto simp: unix_new_def)
    next
      case False
      then have r: "(w', r) = st_then (u, map_err Any b) (\<lambda>w z.
          (w\<lparr>uw_cells := uw_cells w @ [wc_new]\<rparr>,
           Ok \<lparr>un_id = cid, un_cell = length (uw_cells w), un_zygote = z\<rparr>))"
        using assms t m Ok u by (cases m) (auto simp: unix_new_def ms_def)
      show ?thesis
      proof (cases b)
        case (Ok z)
        then show ?thesis using r wu container_build_slot [of _ _ u z] u by auto
      qed (use r wu in auto)
    qed
  qed (use assms t wt in \<open>auto simp: unix_new_def\<close>)
qed

lemma unix_wait_new:
  assumes "unix_new env w cid cfg = (w', r)" and "unix_wait w j = Some x"
  shows "unix_wait w' j = Some x"
proof -
  obtain w1 where "zygote_step w w1" and "w' = w1 \<or> w' = w1\<lparr>uw_cells := uw_cells w1 @ [wc_new]\<rparr>"
    using unix_new_step [OF assms(1)] by blast
  then show ?thesis
    using assms(2) unix_wait_step [of w w1 j] by (auto simp: unix_wait_def nth_append split: if_splits)
qed

lemma unix_valid_new_step:
  assumes "unix_new env w cid cfg = (w', r)"
  shows "unix_valid w j \<Longrightarrow> unix_valid w' j" and "r = Ok i \<Longrightarrow> unix_valid w' i"
proof -
  obtain w1 where w1: "zygote_step w w1" and
    c: "w' = w1 \<and> \<not> is_ok r \<or> w' = w1\<lparr>uw_cells := uw_cells w1 @ [wc_new]\<rparr> \<and>
       (\<exists>z. r = Ok \<lparr>un_id = cid, un_cell = length (uw_cells w1), un_zygote = z\<rparr>
            \<and> z < length (uw_zygotes w1) \<and> uw_zygotes w1 ! z \<noteq> None)"
    using unix_new_step [OF assms(1)] by blast
  show "unix_valid w j \<Longrightarrow> unix_valid w' j"
    using unix_valid_step [OF w1, of j] c by (auto simp: unix_valid_def)
  show "r = Ok i \<Longrightarrow> unix_valid w' i"
    using c by (auto simp: unix_valid_def)
qed

lemma unix_wait_start:
  "unix_wait w j = Some x \<Longrightarrow> unix_wait (fst (unix_start env w i)) j = Some x"
  using unix_wait_step [OF zygote_step_start [of w env i], of j]
  by (auto simp: unix_start_eq unix_wait_set_exit split: prod.splits result.splits)

lemma unix_valid_start: "unix_valid w j \<Longrightarrow> unix_valid (fst (unix_start env w i)) j"
  using unix_valid_step [OF zygote_step_start [of w env i], of j]
  by (auto simp: unix_start_eq split: prod.splits result.splits)

lemma unix_start_fails:
  assumes "unix_valid w i" and "unix_start env w i = (w', r)" and "\<not> is_ok r"
  shows "unix_wait w' i =
    (case unix_wait w i of None \<Rightarrow> Some (137, ux_now env (uw_os w')) | Some x \<Rightarrow> Some x)"
proof -
  obtain w1 x where s: "start_steps env w i = (w1, x)" by fastforce
  have "un_cell i < length (uw_cells w1)" and "unix_wait w1 i = unix_wait w i"
    using zygote_step_start [of w env i] s assms(1) unix_wait_step
    by (auto simp: zygote_step_def unix_valid_def unix_wait_def)
  then show ?thesis
    using assms(2,3) s
    by (cases x) (auto simp: unix_start_eq unix_wait_set_exit split: option.splits)
qed

lemma zygote_step_kill_delete:
  "zygote_step w (fst (unix_kill env w i sig))" "zygote_step w (fst (unix_delete env w i))"
  using zygote_step_run
  by (auto simp: unix_kill_def container_kill_def unix_delete_def container_delete_def
      dest: zygote_step_run_eq split: prod.splits)

interpretation unix: instance_contract_exit "unix_ops env" unix_valid for env
proof
  fix w j r cid cfg i sig
  show "i_poll (unix_ops env) w j = Some r \<Longrightarrow> i_poll (unix_ops env) (fst (i_new (unix_ops env) w cid cfg)) j = Some r"
    by (cases "unix_new env w cid cfg") (simp add: unix_ops_def unix_wait_new)
  show "i_poll (unix_ops env) w j = Some r \<Longrightarrow> i_poll (unix_ops env) (fst (i_start (unix_ops env) w i)) j = Some r"
    by (simp add: unix_ops_def unix_wait_start)
  show "i_poll (unix_ops env) w j = Some r \<Longrightarrow> i_poll (unix_ops env) (fst (i_kill (unix_ops env) w i sig)) j = Some r"
    by (simp add: unix_ops_def unix_wait_step [OF zygote_step_kill_delete(1)])
  show "i_poll (unix_ops env) w j = Some r \<Longrightarrow> i_poll (unix_ops env) (fst (i_delete (unix_ops env) w i)) j = Some r"
    by (simp add: unix_ops_def unix_wait_step [OF zygote_step_kill_delete(2)])
  show "unix_valid w j \<Longrightarrow> unix_valid (fst (i_new (unix_ops env) w cid cfg)) j"
    by (cases "unix_new env w cid cfg") (simp add: unix_ops_def unix_valid_new_step)
  show "unix_valid w j \<Longrightarrow> unix_valid (fst (i_start (unix_ops env) w i)) j"
    by (simp add: unix_ops_def unix_valid_start)
  show "unix_valid w j \<Longrightarrow> unix_valid (fst (i_kill (unix_ops env) w i sig)) j"
    by (simp add: unix_ops_def unix_valid_step [OF zygote_step_kill_delete(1)])
  show "unix_valid w j \<Longrightarrow> unix_valid (fst (i_delete (unix_ops env) w i)) j"
    by (simp add: unix_ops_def unix_valid_step [OF zygote_step_kill_delete(2)])
next
  fix w :: "('a, 'b) unix_world" and cid cfg w' i
  show "i_new (unix_ops env) w cid cfg = (w', Ok i) \<Longrightarrow> unix_valid w' i"
    by (auto simp: unix_ops_def dest: unix_valid_new_step(2))
next
  fix w :: "('a, 'b) unix_world" and i w' r
  show "unix_valid w i \<Longrightarrow> i_start (unix_ops env) w i = (w', r) \<Longrightarrow> \<not> is_ok r \<Longrightarrow> i_poll (unix_ops env) w' i \<noteq> None"
    using unix_start_fails [of w i env w' r] by (auto simp: unix_ops_def split: option.splits)
qed

text \<open>C10: Nobody waits forever for an instance that did not start: whatever fails in \<open>start\<close> (the
  pid, the pidfd, youki's start, or a panic), the guard leaves exit status 137 with the current
  time, unless an exit status was there already, which is then kept.\<close>

theorem failed_start_leaves_exit_status:
  assumes "unix_valid w i" and "unix_start env w i = (w', r)" and "\<not> is_ok r"
  shows "unix_wait w' i =
    (case unix_wait w i of None \<Rightarrow> Some (137, ux_now env (uw_os w')) | Some x \<Rightarrow> Some x)"
  using assms by (rule unix_start_fails)

definition broken_env :: "(unit, unit) unix_env" where
  "broken_env =
     \<lparr>ux_name = ''wasmtime'', ux_connect = (\<lambda>y a n. (y, Ok ())), ux_load_modules = (\<lambda>y i. (y, Ok [])),
      ux_load_spec = (\<lambda>y p. Ok ()), ux_fs_open = (\<lambda>p. Err (IoNotFound [])), ux_parse_options = (\<lambda>s. Ok None),
      ux_open_rw = (\<lambda>p. Ok p), ux_build = (\<lambda>y a. (y, Ok ())), ux_pid = (\<lambda>c. Some 100),
      ux_start = (\<lambda>y c. ((y, c), Err ''no memory'')), ux_kill = (\<lambda>y c s. ((y, c), Ok ())),
      ux_delete = (\<lambda>y c. ((y, c), Ok ())), ux_is_signal = (\<lambda>s. s < 65), ux_subscribe = (\<lambda>y. Ok ()),
      ux_pidfd_open = (\<lambda>y p. Ok ()), ux_now = (\<lambda>y. (5, 0))\<rparr>"

lemmas unix_defs =
  unix_start_def container_pid_def container_start_def run_container_def run_impl_def pidfd_new_def
  drop_exit_guard_def guard_drop_def set_guard_with_def unix_wait_def wc_set_def wc_new_def wc_wait_def

theorem failed_start_leaves_exit_status_witness:
  "\<exists>w w' i. unix_start broken_env w i = (w', Err (Any ''no memory'')) \<and> unix_wait w i = None
     \<and> unix_wait w' i = Some (137, (5, 0))"
proof -
  let ?w = "\<lparr>uw_os = (), uw_client = True, uw_zygotes = [Some ()], uw_cells = [wc_new], uw_tasks = []\<rparr>"
  let ?i = "\<lparr>un_id = ''c1'', un_cell = 0, un_zygote = 0\<rparr>"
  obtain w' where w': "unix_start broken_env ?w ?i = (w', Err (Any ''no memory''))"
    by (simp add: unix_defs broken_env_def)
  have "unix_valid ?w ?i" by (simp add: unix_valid_def)
  from failed_start_leaves_exit_status [OF this w'] have "unix_wait w' ?i = Some (137, (5, 0))"
    by (simp add: broken_env_def unix_wait_def wc_wait_def wc_new_def)
  moreover have "unix_wait ?w ?i = None" by (simp add: unix_wait_def wc_wait_def wc_new_def)
  ultimately show ?thesis using w' by blast
qed

text \<open>The exit status of an instance is what its process ended with: the code of \<open>exit\<close>,
  128 plus the signal that killed it, and 137 when the wait failed, returned something else or
  panicked. The first status stays: finishing this or any other exit task later changes
  nothing.\<close>

theorem exit_task_sets_status:
  assumes "unix_valid w i" and "unix_wait w i = None"
    and "k < length (uw_tasks w)" and "fst (uw_tasks w ! k) = un_cell i"
  shows "unix_wait (exit_task env w k res) i = Some (exit_status res, ux_now env (uw_os w))
    \<and> exit_status (Ok (WExited p code)) = code
    \<and> exit_status (Ok (WSignaled p sig core)) = 128 + sig
    \<and> unix_wait (exit_task env (exit_task env w k res) k' res') i
        = unix_wait (exit_task env w k res) i"
proof -
  have keeps: "unix_wait (exit_task env v n x) i = Some y" if "unix_wait v i = Some y" for v n x y
    using that by (auto simp: exit_task_def Let_def drop_exit_guard_eq remove_task_def unix_wait_set_exit)
  have "unix_wait (exit_task env w k res) i = Some (exit_status res, ux_now env (uw_os w))"
    using assms
    by (cases res)
      (simp_all add: exit_task_def Let_def drop_exit_guard_eq remove_task_def unix_wait_set_exit unix_valid_def)
  then show ?thesis using keeps by simp
qed

theorem exit_task_sets_status_witness:
  "\<exists>w i. unix_wait w i = None
     \<and> unix_wait (exit_task broken_env w 0 (Ok (WSignaled 100 9 False))) i = Some (137, (5, 0))"
proof -
  let ?w = "\<lparr>uw_os = (), uw_client = True, uw_zygotes = [Some ()], uw_cells = [wc_new],
     uw_tasks = [(0, 100)]\<rparr> :: (unit, unit) unix_world"
  let ?i = "\<lparr>un_id = ''c1'', un_cell = 0, un_zygote = 0\<rparr>"
  have 1: "unix_valid ?w ?i" and 2: "unix_wait ?w ?i = None"
    by (simp_all add: unix_valid_def unix_wait_def wc_wait_def wc_new_def)
  have "unix_wait (exit_task broken_env ?w 0 (Ok (WSignaled 100 9 False))) ?i = Some (137, (5, 0))"
    using exit_task_sets_status [OF 1 2, of 0 broken_env "Ok (WSignaled 100 9 False)"]
    by (simp add: broken_env_def)
  with 2 show ?thesis by blast
qed

section \<open>Waiting\<close>

lemma pidfd_wait_alive:
  "pidfd_wait pid subs (replicate n (Ok WStillAlive, Ok ()) @ rs) = pidfd_wait pid subs rs"
  by (induction n) auto

lemma try_wait_pid_skip:
  "\<forall>(sub, c) \<in> set pre. sub \<noteq> SubjectPid pid \<Longrightarrow> try_wait_pid pid (pre @ evs) = try_wait_pid pid evs"
  by (induction pid pre rule: try_wait_pid.induct) auto

text \<open>A process that containerd's reaper collected first is not lost: however long it was alive,
  when \<open>waitid\<close> then answers \<open>ECHILD\<close> the status is the one the reaper published for this pid,
  events of other processes notwithstanding; and if the reaper has nothing for this pid, the
  wait fails, so that the instance ends with 137.\<close>

theorem reaped_process_status:
  assumes "\<forall>(sub, c) \<in> set pre. sub \<noteq> SubjectPid pid"
  shows "pidfd_wait pid (pre @ (SubjectPid pid, code) # post)
      (replicate n (Ok WStillAlive, Ok ()) @ (Err ECHILD, x) # rs) = Some (Ok (WExited pid code))
    \<and> map_option exit_status (pidfd_wait pid pre
      (replicate n (Ok WStillAlive, Ok ()) @ (Err ECHILD, x) # rs)) = Some 137"
  using try_wait_pid_skip [OF assms, of "(SubjectPid pid, code) # post"] try_wait_pid_skip [OF assms, of "[]"]
  by (simp add: pidfd_wait_alive)

theorem reaped_process_status_witness:
  "pidfd_wait 7 ([(SubjectPid 3, 1), (SubjectExec, 2)] @ (SubjectPid 7, 42) # [])
     (replicate 3 (Ok WStillAlive, Ok ()) @ (Err ECHILD, Ok ()) # []) = Some (Ok (WExited 7 42))"
  using reaped_process_status [of "[(SubjectPid 3, 1), (SubjectExec, 2)]" 7 42 "[]" 3 "Ok ()" "[]"] by simp

end
