(* ===== verification/Unix_Service.thy ===== *)
theory Unix_Service
  imports Unix_Instance Local_Replies
begin

text \<open>
  The task service over the unix instance: \<open>Shim\<close> (\<open>containerd-shimkit/src/sandbox/shim/shim.rs\<close>),
  which creates the service, and what the contract of the instance gives the clients of the service.
\<close>

section \<open>Shim\<close>

record shim_flags =
  fl_namespace :: string
  fl_address :: string
  fl_id :: string

record shim =
  sh_namespace :: string
  sh_address :: string
  sh_exit :: "unit waitable_cell"
  sh_id :: string

definition shim_new :: "shim_flags \<Rightarrow> shim" where
  "shim_new opts =
     \<lparr>sh_namespace = fl_namespace opts, sh_address = fl_address opts, sh_exit = wc_new, sh_id = fl_id opts\<rparr>"

text \<open>The shims of one pod share a process: the group is the sandbox id of the pod, or the
  container's own id.\<close>

definition grouping :: "oci_spec \<Rightarrow> string \<Rightarrow> string" where
  "grouping spec cid =
     (case Option.bind (sp_annotations spec) (\<lambda>a. map_of a ''io.kubernetes.cri.sandbox-id'') of
        Some g \<Rightarrow> g | None \<Rightarrow> cid)"

definition start_shim ::
  "(path, string) result \<Rightarrow> (path \<Rightarrow> (oci_spec, string) result) \<Rightarrow>
   (string \<Rightarrow> string \<Rightarrow> (string, shim_error) result) \<Rightarrow> (string \<Rightarrow> (unit, shim_error) result) \<Rightarrow> string \<Rightarrow>
   (string, shim_error) result" where
  "start_shim current_dir load_spec spawn_shim write_address opts_id =
     and_then (map_err ShimOther current_dir) (\<lambda>dir.
     and_then (map_err (\<lambda>err. ShimInvalidArgument (''error loading runtime spec: '' @ err))
                (load_spec (path_join dir ''config.json''))) (\<lambda>spec.
     and_then (spawn_shim opts_id (grouping spec opts_id)) (\<lambda>address.
     and_then (write_address address) (\<lambda>_. Ok address))))"

text \<open>The service shares the exit cell with the shim (the clone of a \<open>WaitableCell\<close> is the same
  cell), so \<open>Shim::wait\<close> returns when the cell of the service is set.\<close>

definition create_task_service :: "shim \<Rightarrow> 'w \<Rightarrow> ('w, 'i) local" where
  "create_task_service sh w = local_new w (sh_exit sh) (sh_namespace sh) (sh_address sh)"

definition shim_wait :: "('w, 'i) local \<Rightarrow> unit option" where
  "shim_wait s = wc_wait (l_exit s)"

definition delete_shim :: "datetime \<Rightarrow> delete_response" where
  "delete_shim now = \<lparr>dr_pid = 0, dr_exit_status = 137, dr_exited_at = Some (to_timestamp now)\<rparr>"

section \<open>Waiting for a task whose start failed\<close>

text \<open>A task whose start failed can be waited for: with the unix instance, after \<open>task_start\<close> on a
  created task returned an error (or panicked), every poll of a \<open>task_wait\<close> is answered, with exit status 137 when the
  instance had none before.\<close>

theorem wait_after_failed_start:
  assumes "e_ops env = unix_ops uenv" and "svc_inv s" and "map_of (l_instances s) cid = Some r"
    and "tstate (l_heap s ! r) = Created" and "unix_valid (l_world s) (inst (l_heap s ! r))"
    and "unix_wait (l_world s) (inst (l_heap s ! r)) = None"
    and "task_start env s cid [] = (t, res)" and "\<not> is_ok res"
  shows "\<exists>u resp. wait_poll env t r = (u, Some resp) \<and> wr_exit_status resp = 137
    \<and> tstate (l_heap u ! r) = Exited"
proof -
  let ?d = "l_heap s ! r"
  from assms(2) have r: "r < length (l_heap s)" using registry_heap [OF _ assms(3)] by (simp add: svc_inv_def)
  obtain w' d' x where st: "id_start (unix_ops uenv) (l_world s) ?d = ((w', d'), x)" by (metis prod.exhaust)
  have t: "t = s\<lparr>l_world := w', l_heap := (l_heap s)[r := d']\<rparr>" and x: "\<not> is_ok x"
    using assms(1,3,7,8) st by (cases x; auto simp: task_start_def get_instance_def on_inst_def)+
  have us: "unix_start uenv (l_world s) (inst ?d) = (w', x)" and d': "inst d' = inst ?d"
    using st assms(4) by (auto simp: id_start_cases unix_ops_def split: prod.splits result.splits)
  have w: "unix_wait w' (inst d') = Some (137, ux_now uenv (uw_os w'))"
    using unix_start_fails [OF assms(5) us x] assms(6) d' by simp
  have "snd (id_wait (unix_ops uenv) w' d') = Some (137, ux_now uenv (uw_os w'))"
    and "tstate (fst (id_wait (unix_ops uenv) w' d')) = Exited"
    using unix.failed_start_wait [OF assms(5,4) st x] w by (auto simp: id_wait_def unix_ops_def)
  then show ?thesis
    using assms(1) r by (cases "ux_now uenv (uw_os w')") (auto simp: wait_poll_def wait_now_def t split: prod.splits)
qed

theorem wait_after_failed_start_witness:
  "\<exists>s t u resp. task_start (demo_env (unix_ops broken_env)) s ''c1'' [] = (t, Err (Any ''no memory''))
     \<and> wait_poll (demo_env (unix_ops broken_env)) t 0 = (u, Some resp) \<and> wr_exit_status resp = 137"
proof -
  let ?env = "demo_env (unix_ops broken_env)"
  let ?w = "\<lparr>uw_os = (), uw_client = True, uw_zygotes = [], uw_cells = [], uw_tasks = []\<rparr>"
  let ?s0 = "local_new ?w wc_new ''ns'' ''a'' :: ((unit, unit) unix_world, unix_instance) local"
  define s where "s = \<lparr>l_world = \<lparr>uw_os = (), uw_client = True, uw_zygotes = [Some ()], uw_cells = [wc_new], uw_tasks = []\<rparr>,
       l_heap = [\<lparr>inst = \<lparr>un_id = ''c1'', un_cell = 0, un_zygote = 0\<rparr>,
         id_config = instance_config_of ?s0 demo_request default_config,
         pid_cell = None, tstate = Created\<rparr>], l_instances = [(''c1'', 0)],
       l_events = [TaskCreate ''c1'' ''/b'' [] [] [] []], l_exit = wc_new, l_namespace = ''ns'', l_address = ''a'',
       l_watchers = []\<rparr>"
  have "fst (task_create ?env ?s0 demo_request) = s"
    by (simp add: s_def demo_defs handler_defs unix_ops_def unix_new_def oci_client_def broken_env_def container_build_def
        run_init_def run_impl_def build_container_def determine_rootdir_def path_join_def is_absolute_def
        DEFAULT_CONTAINER_ROOT_DIR_def Let_def)
  moreover have "svc_inv (fst (task_create ?env ?s0 demo_request))" by (intro inv_create inv_new)
  ultimately have inv: "svc_inv s" by simp
  obtain t where t: "task_start ?env s ''c1'' [] = (t, Err (Any ''no memory''))"
    by (simp add: s_def task_start_def get_instance_def on_inst_def id_start_cases unix_ops_def demo_env_def
        unix_defs broken_env_def)
  from wait_after_failed_start [OF _ inv _ _ _ _ t, of broken_env 0]
  have "\<exists>u resp. wait_poll ?env t 0 = (u, Some resp) \<and> wr_exit_status resp = 137"
    by (auto simp: s_def demo_env_def unix_valid_def unix_wait_def wc_wait_def wc_new_def)
  with t show ?thesis by blast
qed

end
