(* ===== verification/Stress_Mock.thy ===== *)
theory Stress_Mock
  imports Stress_Client Unix_Service Shim_Main
begin

text \<open>
  The load generator without containerd (\<open>crates/stress-test/src/mocks\<close>): it starts the shim itself
  (\<open>shim.rs\<close>), finds out which version of the task service the shim speaks (\<open>task_client.rs\<close>), runs tasks
  over that service (\<open>task.rs\<close>) and at the end kills the processes that are left (\<open>utils.rs\<close>). The shim
  under test is the task service of \<open>Local_Service\<close>, so the two programs are composed here.
\<close>

section \<open>Starting the shim\<close>

definition shim_args :: "u32 \<Rightarrow> string list" where
  "shim_args pid =
     (let nm = ''shim-benchmark-'' @ show_nat (unat pid)
      in [''-namespace'', nm, ''-id'', nm, ''-address'', ''/run/containerd/containerd.sock'', ''start''])"

text \<open>What a run of the shim prints, its status, and \<open>serde_json\<close> reading \<open>Address\<close> as the address and the
  protocol.\<close>

record cmd_output =
  out_success :: bool
  out_stdout :: "(string, string) result"

definition shim_address ::
  "(string \<Rightarrow> (string \<times> string, string) result) \<Rightarrow> cmd_output \<Rightarrow> (string, string) result" where
  "shim_address parse_address out =
     (if \<not> out_success out then Err ''failed to start shim''
      else and_then (out_stdout out) (\<lambda>text.
        let address = trim text
        in if starts_with ''{'' address
           then and_then (parse_address address) (\<lambda>(addr, protocol).
                  if protocol = ''ttrpc'' then Ok addr else Err ''Condition failed: parsed.protocol == ttrpc'')
           else Ok address))"

text \<open>\<open>Shim::new\<close>: a directory with a default spec and a log, then the shim is started; \<open>first\<close> is the outcome of the
  faster of two concurrent starts, of which only a failure to run it counts, and \<open>third\<close> that of the start whose
  output is used.\<close>

definition mshim_new ::
  "(path, string) result \<Rightarrow> (path \<Rightarrow> (unit, string) result) \<Rightarrow> bool \<Rightarrow> (path, string) result \<Rightarrow>
   (path \<Rightarrow> path \<Rightarrow> (unit, string) result) \<Rightarrow> (cmd_output, string) result \<Rightarrow> (cmd_output, string) result \<Rightarrow>
   (string \<Rightarrow> (string \<times> string, string) result) \<Rightarrow> (path \<times> string, string) result" where
  "mshim_new tmp save_spec verbose stderr symlink first third parse_address =
     and_then tmp (\<lambda>dir.
     and_then (save_spec (path_join dir ''config.json'')) (\<lambda>_.
     and_then (if verbose then and_then stderr (\<lambda>e. symlink e (path_join dir ''log''))
               else symlink ''/dev/null'' (path_join dir ''log'')) (\<lambda>_.
     and_then first (\<lambda>_.
     and_then third (\<lambda>out.
     and_then (shim_address parse_address out) (\<lambda>address. Ok (dir, address)))))))"

text \<open>\<open>Shim::new\<close> of the variant with containerd: the runtime's name, and the link containerd finds its binary
  by.\<close>

definition shim_link :: "u32 \<Rightarrow> string \<times> path" where
  "shim_link pid =
     (''io.containerd.runwasi'' @ show_nat (unat pid) @ ''.v1'',
      ''/usr/local/bin/containerd-shim-runwasi'' @ show_nat (unat pid) @ ''-v1'')"

section \<open>The task client\<close>

datatype task_version = V2 | V3

datatype rpc_code = Unimplemented | OtherCode "code option"

text \<open>The methods of a shim's endpoint: the version of the service, the state of the shim, and the arguments.\<close>

record 's endpoint =
  ep_create :: "task_version \<Rightarrow> 's \<Rightarrow> create_request \<Rightarrow> 's \<times> (u32, rpc_code \<times> string) result"
  ep_start :: "task_version \<Rightarrow> 's \<Rightarrow> string \<Rightarrow> 's \<times> (u32, rpc_code \<times> string) result"
  ep_wait :: "task_version \<Rightarrow> 's \<Rightarrow> string \<Rightarrow> 's \<times> (u32, rpc_code \<times> string) result"
  ep_delete :: "task_version \<Rightarrow> 's \<Rightarrow> string \<Rightarrow> 's \<times> (u32, rpc_code \<times> string) result"
  ep_shutdown :: "task_version \<Rightarrow> 's \<Rightarrow> 's"

text \<open>\<open>TaskClient::connect\<close>: a delete of the empty id is expected to fail, and \<open>Unimplemented\<close> tells that the
  version is not served.\<close>

definition probe :: "'s endpoint \<Rightarrow> task_version \<Rightarrow> 's \<Rightarrow> 's \<times> (bool, string) result" where
  "probe ep v s =
     (case ep_delete ep v s [] of
        (s, Ok _) \<Rightarrow> (s, Err ''unexpected shim response'')
      | (s, Err (code, _)) \<Rightarrow> (s, Ok (code \<noteq> Unimplemented))
      | (s, Panic m) \<Rightarrow> (s, Panic m))"

definition client_version :: "'s endpoint \<Rightarrow> 's \<Rightarrow> 's \<times> (task_version, string) result" where
  "client_version ep s =
     st_then (probe ep V2 s) (\<lambda>s served.
       if served then (s, Ok V2)
       else st_then (probe ep V3 s) (\<lambda>s served.
              if served then (s, Ok V3) else (s, Err ''unknown task service version'')))"

section \<open>Tasks\<close>

record mtask =
  mt_id :: string
  mt_dir :: path
  mt_mounts :: "mount_info list"

definition map_mount :: "mount_info \<Rightarrow> mount" where
  "map_mount m = \<lparr>m_type = mi_type m, m_source = mi_source m, m_target = mi_target m, m_options = mi_options m\<rparr>"

text \<open>\<open>Task::new\<close>: as with containerd, and the bundle: its root directory, its options and its spec. \<open>put\<close> makes a
  directory or a file.\<close>

definition mtask_new ::
  "(string \<Rightarrow> string) \<Rightarrow> containerd \<Rightarrow> string option \<Rightarrow> u32 \<Rightarrow> (path, string) result \<Rightarrow>
   (path \<Rightarrow> string option \<Rightarrow> (unit, string) result) \<Rightarrow> (task_spec \<Rightarrow> string) \<Rightarrow> client \<Rightarrow> string \<Rightarrow> string list \<Rightarrow>
   u64 \<times> wire \<Rightarrow> (u64 \<times> wire) \<times> (mtask, string) result" where
  "mtask_new sha256 sv host pid tmp put spec_json c img as s =
     (case s of (n, w) \<Rightarrow>
       (case make_task_id pid n of (n, tid) \<Rightarrow>
         (case get_mounts sha256 sv host c tid img w of (w, r) \<Rightarrow>
           ((n, w),
            and_then r (\<lambda>mounts.
            and_then tmp (\<lambda>dir.
            and_then (put (path_join dir ''rootfs'') None) (\<lambda>_.
            and_then (put (path_join dir ''options.json'') (Some (''{\"root\":\"rootfs\"}''))) (\<lambda>_.
            and_then (put (path_join dir ''config.json'') (Some (spec_json (ctask_spec pid (Some False) as)))) (\<lambda>_.
              Ok \<lparr>mt_id = tid, mt_dir = dir, mt_mounts = mounts\<rparr>)))))))))"

definition mtask_request :: "mtask \<Rightarrow> create_request" where
  "mtask_request t =
     \<lparr>cr_id = mt_id t, cr_bundle = mt_dir t, cr_rootfs = map map_mount (mt_mounts t), cr_terminal = False,
      cr_stdin = [], cr_stdout = path_join (mt_dir t) ''stdout'', cr_stderr = path_join (mt_dir t) ''stderr'',
      cr_checkpoint = [], cr_parent_checkpoint = [], cr_options = None\<rparr>"

definition rpc :: "'s \<times> ('a, rpc_code \<times> string) result \<Rightarrow> 's \<times> ('a, string) result" where
  "rpc p = (fst p, map_err snd (snd p))"

definition mtask_create :: "'s endpoint \<Rightarrow> task_version \<Rightarrow> mtask \<Rightarrow> 's \<Rightarrow> 's \<times> (unit, string) result" where
  "mtask_create ep v t s = st_then (rpc (ep_create ep v s (mtask_request t))) (\<lambda>s _. (s, Ok ()))"

definition mtask_start :: "'s endpoint \<Rightarrow> task_version \<Rightarrow> mtask \<Rightarrow> 's \<Rightarrow> 's \<times> (unit, string) result" where
  "mtask_start ep v t s = st_then (rpc (ep_start ep v s (mt_id t))) (\<lambda>s _. (s, Ok ()))"

definition mtask_wait ::
  "'s endpoint \<Rightarrow> (path \<Rightarrow> string) \<Rightarrow> task_version \<Rightarrow> mtask \<Rightarrow> 's \<Rightarrow> 's \<times> (unit, string) result" where
  "mtask_wait ep outs v t s =
     st_then (rpc (ep_wait ep v s (mt_id t))) (\<lambda>s status.
       (s, if status = 0 then Ok ()
           else Err (''Exit status '' @ show_nat (unat status) @ outs (mt_dir t))))"

text \<open>The body of the first \<open>RunOnce\<close> of \<open>delete\<close>; the second one, which unmounts, succeeds at once because the
  unmounting itself is handed to another thread whose result is dropped.\<close>

definition mtask_delete_rpc :: "'s endpoint \<Rightarrow> task_version \<Rightarrow> mtask \<Rightarrow> 's \<Rightarrow> 's \<times> (unit, string) result" where
  "mtask_delete_rpc ep v t s = st_then (rpc (ep_delete ep v s (mt_id t))) (\<lambda>s _. (s, Ok ()))"

definition mtask_delete ::
  "'s endpoint \<Rightarrow> task_version \<Rightarrow> mtask \<Rightarrow> 's \<times> bool \<times> bool \<Rightarrow> ('s \<times> bool \<times> bool) \<times> (unit, string) result" where
  "mtask_delete ep v t s = task_delete_both (mtask_delete_rpc ep v t) (\<lambda>s. (s, Ok ())) s"

definition mtask_drop :: "'s endpoint \<Rightarrow> task_version \<Rightarrow> mtask \<Rightarrow> 's \<times> bool \<times> bool \<Rightarrow> 's" where
  "mtask_drop ep v t s = fst (fst (mtask_delete ep v t s))"

definition mshim_drop :: "'s endpoint \<Rightarrow> task_version \<Rightarrow> 's \<Rightarrow> 's" where
  "mshim_drop ep v s = ep_shutdown ep v s"

interpretation mtask: deletable_task "mtask_delete ep v t" for ep v t
  by unfold_locales (auto simp: mtask_delete_def intro: task_delete_both_again)

text \<open>A task that was deleted is not asked for again, however often it is dropped.\<close>

lemma mtask_deleted_for_good:
  "mtask_delete ep v t s = (s', Ok ()) \<Longrightarrow> ((fst \<circ> mtask_delete ep v t) ^^ n) s' = s'"
  by (rule mtask.deleted_for_good)

section \<open>Unmounting and reaping\<close>

function split_whitespace :: "string \<Rightarrow> string list" where
  "split_whitespace [] = []"
| "split_whitespace (c # s) =
     (if is_ws c then split_whitespace s
      else (c # takeWhile (\<lambda>x. \<not> is_ws x) s) # split_whitespace (dropWhile (\<lambda>x. \<not> is_ws x) s))"
  by pat_completeness auto

termination
  by (relation "measure length") (auto simp: le_imp_less_Suc length_dropWhile_le)

text \<open>The mount points of \<open>/proc/mounts\<close> below the root (by components), the longest path first.\<close>

definition mount_points :: "string \<Rightarrow> path list" where
  "mount_points mounts =
     List.map_filter (\<lambda>l. case split_whitespace l of _ # p # _ \<Rightarrow> Some p | _ \<Rightarrow> None) (lines mounts)"

definition unmount_order :: "string \<Rightarrow> path \<Rightarrow> path list" where
  "unmount_order mounts root =
     rev (sort_key length (filter (\<lambda>m. prefix (components root) (components m)) (mount_points mounts)))"

fun umount_all :: "('w \<Rightarrow> path \<Rightarrow> 'w \<times> (unit, string) result) \<Rightarrow> path list \<Rightarrow> 'w \<Rightarrow> 'w \<times> (unit, string) result" where
  "umount_all umount [] w = (w, Ok ())"
| "umount_all umount (m # ms) w = st_then (umount w m) (\<lambda>w _. umount_all umount ms w)"

text \<open>What the blocking task of \<open>unmount_recursive\<close> does; the function itself returns at once and successfully.\<close>

definition unmount_task ::
  "('w \<Rightarrow> (string, string) result) \<Rightarrow> ('w \<Rightarrow> path \<Rightarrow> 'w \<times> (unit, string) result) \<Rightarrow> path \<Rightarrow> 'w \<Rightarrow>
   'w \<times> (unit, string) result" where
  "unmount_task read_mounts umount root w =
     st_then (w, read_mounts w) (\<lambda>w text. umount_all umount (unmount_order text root) w)"

definition children_pids :: "string \<Rightarrow> u32 list" where
  "children_pids text = map of_nat (List.map_filter (parse_uint 32) (split_whitespace text))"

text \<open>\<open>reap_children\<close> runs until there are no children: \<open>read_children\<close> reads the list of the kernel,
  \<open>kill_wait\<close> is the \<open>SIGKILL\<close> and the \<open>waitpid\<close> that does not hang, whose results are ignored.\<close>

partial_function (option) reap_children ::
  "('w \<Rightarrow> (string, string) result) \<Rightarrow> (u32 \<Rightarrow> 'w \<Rightarrow> 'w) \<Rightarrow> 'w \<Rightarrow> ('w \<times> (unit, string) result) option" where
  "reap_children read_children kill_wait w =
     (case read_children w of
        Err e \<Rightarrow> Some (w, Err e)
      | Panic m \<Rightarrow> Some (w, Panic m)
      | Ok text \<Rightarrow>
          (if children_pids text = [] then Some (w, Ok ())
           else reap_children read_children kill_wait (fold kill_wait (children_pids text) w)))"

section \<open>The shim under test\<close>

text \<open>The task service as an endpoint: version 2 is served by the handlers of \<open>Local\<close>, with the error codes the
  service translates to. Waiting and whatever answers for version 3 are left open.\<close>

definition local_status ::
  "(shim_error \<Rightarrow> string) \<Rightarrow> 's \<times> 'a sandbox_result \<Rightarrow> 's \<times> ('a, rpc_code \<times> string) result" where
  "local_status disp p =
     (fst p, map_err (\<lambda>e. (OtherCode (ttrpc_code e), ttrpc_message e)) (snd (ttrpc disp p)))"

definition local_endpoint ::
  "('w, 'i, 'm) shim_env \<Rightarrow> (shim_error \<Rightarrow> string) \<Rightarrow> bool \<Rightarrow> ('w, 'i) local endpoint \<Rightarrow> ('w, 'i) local endpoint" where
  "local_endpoint env disp free v3 =
     v3\<lparr>ep_create := \<lambda>v s req. if v = V2 then local_status disp (task_create env s req) else ep_create v3 v s req,
        ep_start := \<lambda>v s cid. if v = V2 then local_status disp (task_start env s cid []) else ep_start v3 v s cid,
        ep_delete := \<lambda>v s cid.
          if v = V2 then (case task_delete env s cid [] free of (s, r) \<Rightarrow>
            local_status disp (s, and_then r (\<lambda>d. Ok (dr_exit_status d))))
          else ep_delete v3 v s cid,
        ep_shutdown := \<lambda>v s. if v = V2 then shutdown s else ep_shutdown v3 v s\<rparr>"

lemmas endpoint_defs = local_endpoint_def local_status_def ttrpc_def

text \<open>The load generator finds out that the shim speaks version 2: the delete of the empty id is answered with
  \<open>NotFound\<close>, which is not \<open>Unimplemented\<close>, and changes nothing in the shim.\<close>

theorem client_speaks_v2:
  assumes "map_of (l_instances s) [] = None"
  shows "client_version (local_endpoint env disp free v3) s = (s, Ok V2)"
  using assms by (simp add: client_version_def probe_def endpoint_defs task_delete_def get_instance_def)

text \<open>An endpoint that serves nothing.\<close>

definition no_service :: "'s endpoint" where
  "no_service =
     \<lparr>ep_create = \<lambda>v s req. (s, Err (Unimplemented, [])), ep_start = \<lambda>v s cid. (s, Err (Unimplemented, [])),
      ep_wait = \<lambda>v s cid. (s, Err (Unimplemented, [])), ep_delete = \<lambda>v s cid. (s, Err (Unimplemented, [])),
      ep_shutdown = \<lambda>v s. s\<rparr>"

definition demo_service :: "(exit_info option, unit) local" where
  "demo_service = fst (task_create (demo_env (demo_ops (Ok 7))) (local_new None wc_new [] []) demo_request)"

theorem client_speaks_v2_witness:
  "client_version (local_endpoint (demo_env (demo_ops (Ok 7))) (\<lambda>_. []) True no_service) demo_service
   = (demo_service, Ok V2)"
proof -
  have "map_of (l_instances demo_service) [] = None" by (simp add: demo_service_def demo_defs handler_defs)
  then show ?thesis by (rule client_speaks_v2)
qed

lemma mtask_drop_local:
  assumes "task_delete env s (mt_id t) [] free = (s', r)"
  shows "mtask_drop (local_endpoint env disp free v3) V2 t (s, False, False) = s'"
  using assms
  by (cases r) (simp_all add: mtask_drop_def mtask_delete_def task_delete_both_def try_run_def mtask_delete_rpc_def
      rpc_def endpoint_defs)

lemma shutdown_registered: "map_of (l_instances s) cid = Some r \<Longrightarrow> shutdown s = s"
  by (auto simp: shutdown_def is_empty_def)

text \<open>What dropping a task and then the shim does, by the state of the task in the service: a task that is running is
  not deleted, because the deletion is not preceded by a kill and the service refuses it, and the shutdown request
  that follows is without effect, so that the shim process stays; a task that was only created, or has exited, is
  removed when its instance can be deleted, and when it was the last one the shutdown makes the shim exit.\<close>

theorem dropped_task_and_shim:
  assumes "map_of (l_instances s) (mt_id t) = Some r"
  shows "(tstate (l_heap s ! r) = Started \<longrightarrow>
      (let s' = mtask_drop (local_endpoint env disp free v3) V2 t (s, False, False)
       in l_instances s' = l_instances s
          \<and> l_exit (mshim_drop (local_endpoint env disp free v3) V2 s') = l_exit s))
    \<and> (tstate (l_heap s ! r) \<in> {Created, Exited} \<and> snd (i_delete (e_ops env) (l_world s) (inst (l_heap s ! r))) = Ok () \<longrightarrow>
      (let s' = mtask_drop (local_endpoint env disp free v3) V2 t (s, False, False)
       in l_instances s' = AList.delete (mt_id t) (l_instances s)
          \<and> (l_instances s' = [] \<longrightarrow>
               wc_wait (l_exit (mshim_drop (local_endpoint env disp free v3) V2 s')) \<noteq> None)))"
proof -
  obtain s' x where d: "task_delete env s (mt_id t) [] free = (s', x)" by (metis prod.exhaust)
  have shut: "mshim_drop (local_endpoint env disp free v3) V2 u = shutdown u" for u
    by (simp add: mshim_drop_def local_endpoint_def)
  have exit_s': "l_exit s' = l_exit s" using exit_handlers(4) [of env s "mt_id t" "[]" free] d by simp
  have running: "l_instances s' = l_instances s" if "tstate (l_heap s ! r) = Started"
    using d that assms
    by (auto simp: task_delete_def get_instance_def on_inst_def id_delete_cases state_transition_error_def)
  have gone: "l_instances s' = AList.delete (mt_id t) (l_instances s)"
    if "tstate (l_heap s ! r) \<in> {Created, Exited}"
      "snd (i_delete (e_ops env) (l_world s) (inst (l_heap s ! r))) = Ok ()"
    using d that assms wait_now_instances
    by (cases "i_delete (e_ops env) (l_world s) (inst (l_heap s ! r))")
      (auto simp: task_delete_def get_instance_def on_inst_def id_delete_cases delete_finish_def send_def Let_def
        split: prod.splits dest!: wait_now_instances)
  have last: "wc_wait (l_exit (shutdown s')) \<noteq> None" if "l_instances s' = []"
    using that wc.get_set [of "l_exit s'" "()"] by (auto simp: shutdown_def is_empty_def split: option.splits)
  have stay: "shutdown s' = s'" if "tstate (l_heap s ! r) = Started"
    using running [OF that] assms by (intro shutdown_registered) simp
  show ?thesis
    unfolding mtask_drop_local [OF d] shut Let_def using running gone last stay exit_s' by simp
qed

definition demo_mtask :: mtask where
  "demo_mtask = \<lparr>mt_id = ''c1'', mt_dir = ''/b'', mt_mounts = []\<rparr>"

theorem dropped_task_and_shim_witness:
  "(let env = demo_env (demo_ops (Ok 7)); ep = local_endpoint env (\<lambda>_. []) True no_service;
        running = fst (task_start env demo_service ''c1'' [])
    in l_exit (mshim_drop ep V2 (mtask_drop ep V2 demo_mtask (running, False, False))) = wc_new
       \<and> wc_wait (l_exit (mshim_drop ep V2 (mtask_drop ep V2 demo_mtask (demo_service, False, False)))) \<noteq> None)"
proof -
  let ?env = "demo_env (demo_ops (Ok 7))"
  let ?ep = "local_endpoint ?env (\<lambda>_. []) True no_service"
  let ?run = "fst (task_start ?env demo_service ''c1'' [])"
  have c: "map_of (l_instances demo_service) (mt_id demo_mtask) = Some 0" "l_instances demo_service = [(''c1'', 0)]"
    "tstate (l_heap demo_service ! 0) = Created"
    "snd (i_delete (e_ops ?env) (l_world demo_service) (inst (l_heap demo_service ! 0))) = Ok ()"
    by (simp_all add: demo_service_def demo_mtask_def demo_defs handler_defs)
  have r: "map_of (l_instances ?run) (mt_id demo_mtask) = Some 0" "tstate (l_heap ?run ! 0) = Started" "l_exit ?run = wc_new"
    by (simp_all add: demo_service_def demo_mtask_def demo_defs handler_defs)
  show ?thesis
    using dropped_task_and_shim [OF r(1), of ?env "\<lambda>_. []" True no_service]
      dropped_task_and_shim [OF c(1), of ?env "\<lambda>_. []" True no_service] c r
    by (simp add: Let_def demo_mtask_def)
qed

section \<open>Unmounting and reaping end\<close>

lemma rev_sort_key_desc: "sorted_wrt (\<lambda>a b. length b \<le> length a) (rev (sort_key length xs))"
  unfolding sorted_wrt_rev using sorted_sort_key [of length xs] by (simp add: sorted_map)

text \<open>The mounts are taken down from the inside: exactly the mount points below the root are unmounted, and whenever one
  of them lies below another, its turn is the earlier one.\<close>

theorem nested_mounts_first:
  "set (unmount_order mounts root) = {m \<in> set (mount_points mounts). prefix (components root) (components m)}
   \<and> sorted_wrt (\<lambda>a b. \<not> (\<exists>x. b = a @ ''/'' @ x)) (unmount_order mounts root)"
proof
  show "sorted_wrt (\<lambda>a b. \<not> (\<exists>x. b = a @ ''/'' @ x)) (unmount_order mounts root)"
    unfolding unmount_order_def by (rule sorted_wrt_mono_rel [OF _ rev_sort_key_desc]) auto
qed (auto simp: unmount_order_def)

lemma fold_kill_wait_lives:
  assumes mono: "\<And>p q w. lives (kill_wait p w) q \<le> lives w q"
  shows "lives (fold kill_wait ps w) q \<le> (lives w q :: nat)"
  by (induction ps arbitrary: w) (auto intro: order_trans [OF _ mono])

lemma fold_kill_wait_less:
  assumes mono: "\<And>p q w. lives (kill_wait p w) q \<le> lives w q"
    and less: "\<And>p w. 0 < lives w p \<Longrightarrow> lives (kill_wait p w) p < lives w p"
    and p: "p \<in> set ps" "0 < (lives w p :: nat)"
  shows "lives (fold kill_wait ps w) p < lives w p"
  using p
proof (induction ps arbitrary: w)
  case (Cons q ps)
  show ?case
  proof (cases "q = p")
    case True
    then show ?thesis
      using fold_kill_wait_lives [of lives kill_wait ps "kill_wait p w" p, OF mono] less [OF Cons.prems(2)] by simp
  next
    case False
    then have ps: "p \<in> set ps" using Cons.prems by simp
    show ?thesis
    proof (cases "0 < lives (kill_wait q w) p")
      case True
      then show ?thesis
        using Cons.IH [OF ps, of "kill_wait q w"] mono [of q w p] by (simp add: order_less_le_trans)
    next
      case no: False
      then show ?thesis
        using fold_kill_wait_lives [of lives kill_wait ps "kill_wait q w" p, OF mono] Cons.prems(2) by simp
    qed
  qed
qed simp

text \<open>Each round brings the children nearer to their end.\<close>

lemma reap_children_returns:
  fixes lives :: "'w \<Rightarrow> u32 \<Rightarrow> nat"
  assumes listed: "\<And>w. \<exists>text. read_children w = Ok text \<and> (\<forall>p \<in> set (children_pids text). 0 < lives w p)"
    and mono: "\<And>p q w. lives (kill_wait p w) q \<le> lives w q"
    and less: "\<And>p w. 0 < lives w p \<Longrightarrow> lives (kill_wait p w) p < lives w p"
  shows "\<exists>w' text. reap_children read_children kill_wait w = Some (w', Ok ())
    \<and> read_children w' = Ok text \<and> children_pids text = []"
proof (induction "\<Sum>p \<in> UNIV. lives w p" arbitrary: w rule: less_induct)
  case less_sum: less
  obtain listing where t: "read_children w = Ok listing" "\<forall>p \<in> set (children_pids listing). 0 < lives w p"
    using listed by blast
  show ?case
  proof (cases "children_pids listing")
    case Nil
    then show ?thesis using t by (auto simp: reap_children.simps)
  next
    case (Cons p ps)
    let ?w = "fold kill_wait (children_pids listing) w"
    have "p \<in> set (children_pids listing)" "0 < lives w p" using Cons t by auto
    then have "lives ?w p < lives w p" using fold_kill_wait_less [of lives kill_wait, OF mono less] by blast
    then have "(\<Sum>p \<in> UNIV. lives ?w p) < (\<Sum>p \<in> UNIV. lives w p)"
      using fold_kill_wait_lives [of lives kill_wait, OF mono] by (intro sum_strict_mono_ex1) auto
    from less_sum [OF this] show ?thesis
      using t Cons by (subst reap_children.simps) simp
  qed
qed

text \<open>\<open>reap_children\<close> returns, and returns only when there are no children left, of any number of children that survive
  any number of signals: all that is asked of the kernel is that it lists live children, that a \<open>SIGKILL\<close> and
  \<open>waitpid\<close> never give a process more rounds to live than it had, and that they bring the process they are for nearer
  to its end.\<close>

theorem reap_children_ends:
  fixes lives :: "'w \<Rightarrow> u32 \<Rightarrow> nat"
  assumes listed: "\<And>w. \<exists>text. read_children w = Ok text \<and> (\<forall>p \<in> set (children_pids text). 0 < lives w p)"
    and mono: "\<And>p q w. lives (kill_wait p w) q \<le> lives w q"
    and less: "\<And>p w. 0 < lives w p \<Longrightarrow> lives (kill_wait p w) p < lives w p"
  shows "\<exists>w' text. reap_children read_children kill_wait w = Some (w', Ok ())
    \<and> read_children w' = Ok text \<and> children_pids text = []"
  using reap_children_returns [of read_children lives kill_wait w] assms by blast

text \<open>One child that survives two rounds.\<close>

theorem reap_children_ends_witness:
  "\<exists>w' text. reap_children (\<lambda>n. Ok (if n = 0 then [] else ''42 '')) (\<lambda>p n. if p = 42 then n - 1 else n) (2 :: nat)
      = Some (w', Ok ()) \<and> Ok (if w' = 0 then [] else ''42 '') = (Ok text :: (string, string) result)
      \<and> children_pids text = []"
proof -
  have pids: "children_pids ''42 '' = [42]" "children_pids [] = []"
    by (simp_all add: children_pids_def map_filter_def is_ws_def parse_uint_def char_digit_def)
  show ?thesis
    by (rule reap_children_ends [where lives = "\<lambda>n p. if p = 42 then n else 0"]) (auto simp: pids split: if_splits)
qed

text \<open>The link of the variant with containerd carries a name that \<open>get_runtime\<close> reads back.\<close>

lemma runtime_of_link: "get_runtime (snd (shim_link pid)) = Some (''runwasi'' @ show_nat (unat pid))"
proof -
  have no: "c \<in> set (show_nat n) \<Longrightarrow> c \<noteq> CHR ''/'' \<and> c \<noteq> CHR ''-''" for c n
    using show_nat_digits [of "CHR ''/''" n] show_nat_digits [of "CHR ''-''" n] by (auto simp: char_digit_def)
  let ?f = "''containerd-shim-runwasi'' @ show_nat (unat pid) @ ''-v1''"
  have "CHR ''/'' \<notin> set ?f" using no by auto
  then have "file_name (''/usr/local/bin'' @ ''/'' @ ?f) = Some ?f" by (intro file_name_join) auto
  moreover have "split_once CHR ''-'' (''runwasi'' @ show_nat (unat pid) @ ''-v1'') = Some (''runwasi'' @ show_nat (unat pid), ''v1'')"
    using no by (subst split_once_Some) auto
  ultimately show ?thesis by (simp add: get_runtime_def shim_link_def)
qed

end
