(* ===== verification/Stress_Main.thy ===== *)
theory Stress_Main
  imports Stress_Mock
begin

text \<open>
  The main program of the load generator (\<open>crates/stress-test/src/main.rs\<close>) around the scheduler of \<open>Stress_Test\<close>: the
  command line, the choice between containerd and the mock of it (\<open>src/containerd\<close>, \<open>src/mocks\<close>, the traits of
  \<open>src/traits.rs\<close>), the container that keeps the shim running, the report, and what is cleaned up on which way out.

  Time, \<open>clap\<close> and the files of the system are outside: durations and the throughput are the texts that are printed.
\<close>

section \<open>Command line and report\<close>

record cli =
  cl_containerd :: bool
  cl_verbose :: bool
  cl_parallel :: nat
  cl_count :: nat
  cl_timeout :: string
  cl_image :: string
  cl_json_output :: "path option"
  cl_shim :: path
  cl_args :: "string list"

text \<open>The defaults of the options, of which only the binary has none.\<close>

definition cli_defaults :: "path \<Rightarrow> cli" where
  "cli_defaults shim =
     \<lparr>cl_containerd = False, cl_verbose = False, cl_parallel = 1, cl_count = 10, cl_timeout = ''2s'',
      cl_image = ''ghcr.io/containerd/runwasi/wasi-demo-app:latest'', cl_json_output = None, cl_shim = shim, cl_args = []\<rparr>"

record benchmark_result =
  br_name :: string
  br_unit :: string
  br_value :: string
  br_extra :: "string option"

definition image_kind :: "string \<Rightarrow> string" where
  "image_kind img =
     (if img = ''ghcr.io/containerd/runwasi/wasi-demo-oci:latest'' then ''oci''
      else if img = ''ghcr.io/containerd/runwasi/wasi-demo-app:latest'' then ''app''
      else if img = ''ghcr.io/containerd/runwasi/wasi-demo-oci-artifact:latest'' then ''oci-artifact''
      else img)"

definition benchmark_of :: "cli \<Rightarrow> string \<Rightarrow> string \<Rightarrow> benchmark_result" where
  "benchmark_of c throughput duration =
     (let shim = (case get_runtime (cl_shim c) of Some r \<Rightarrow> r | None \<Rightarrow> ''unknown'');
          service = (if cl_containerd c then ''containerd'' else ''mock'');
          img = image_kind (cl_image c)
      in \<lparr>br_name = ''Stress Test Throughput with '' @ service @ '' service - '' @ shim @ '' ('' @ img @ '')'',
          br_unit = ''tasks/s'', br_value = throughput,
          br_extra = Some (''Image: '' @ img @ CHR 0x0A # ''Tasks: '' @ show_nat (cl_count c) @ CHR 0x0A # ''Parallel: ''
            @ show_nat (cl_parallel c) @ CHR 0x0A # ''Duration: '' @ duration)\<rparr>)"

text \<open>With \<open>--json-output\<close> the results go to a file; \<open>write_json\<close> creates and writes it.\<close>

definition report_results ::
  "(path \<Rightarrow> benchmark_result list \<Rightarrow> 'w \<Rightarrow> 'w \<times> (unit, string) result) \<Rightarrow> cli \<Rightarrow> string \<Rightarrow> string \<Rightarrow> 'w \<Rightarrow>
   'w \<times> (unit, string) result" where
  "report_results write_json c throughput duration w =
     (case cl_json_output c of None \<Rightarrow> (w, Ok ()) | Some p \<Rightarrow> write_json p [benchmark_of c throughput duration] w)"

section \<open>Containerd and its mock\<close>

text \<open>The traits \<open>Containerd\<close>, \<open>Shim\<close> and \<open>Task\<close>, as far as \<open>run_stress_test\<close> itself uses them, and the three destructors.\<close>

record ('w, 'sh, 't) orchestrator =
  or_start_shim :: "path \<Rightarrow> 'w \<Rightarrow> 'w \<times> ('sh, string) result"
  or_task :: "'sh \<Rightarrow> string \<Rightarrow> string list \<Rightarrow> 'w \<Rightarrow> 'w \<times> ('t, string) result"
  or_create :: "'t \<Rightarrow> 'w \<Rightarrow> 'w \<times> (unit, string) result"
  or_drop_task :: "'t \<Rightarrow> 'w \<Rightarrow> 'w"
  or_drop_shim :: "'sh \<Rightarrow> 'w \<Rightarrow> 'w"
  or_drop :: "'w \<Rightarrow> 'w"

text \<open>The mock has a directory with the socket of its event service, which accepts every event.\<close>

definition forward :: "string \<Rightarrow> (unit, string) result" where
  "forward request = Ok ()"

definition mock_containerd_new ::
  "(path, string) result \<Rightarrow> (string \<Rightarrow> (unit, string) result) \<Rightarrow> (path, string) result" where
  "mock_containerd_new tmp bind =
     and_then tmp (\<lambda>dir.
     and_then (bind (''unix://'' @ path_join dir ''containerd.sock.ttrpc'')) (\<lambda>_. Ok dir))"

text \<open>The shim of the variant with containerd is a link in the directory where containerd looks for it; the links are the
  state.\<close>

type_synonym links = "path \<Rightarrow> path option"

definition symlink :: "path \<Rightarrow> path \<Rightarrow> links \<Rightarrow> links \<times> (unit, string) result" where
  "symlink target link fs = (case fs link of None \<Rightarrow> (fs(link := Some target), Ok ()) | Some _ \<Rightarrow> (fs, Err ''File exists''))"

definition cshim_new ::
  "u32 \<Rightarrow> (path \<Rightarrow> (path, string) result) \<Rightarrow> path \<Rightarrow> links \<Rightarrow> links \<times> (string \<times> path, string) result" where
  "cshim_new pid canonicalize binary fs =
     st_then (fs, canonicalize binary) (\<lambda>fs target.
     st_then (symlink target (snd (shim_link pid)) fs) (\<lambda>fs _. (fs, Ok (shim_link pid))))"

definition cshim_drop :: "string \<times> path \<Rightarrow> links \<Rightarrow> links" where
  "cshim_drop sh fs = fs(snd sh := None)"

section \<open>The run\<close>

text \<open>A scope with a value whose destructor is \<open>d\<close>: it runs on every way out.\<close>

definition scope :: "('w \<Rightarrow> 'w) \<Rightarrow> 'w \<times> ('a, 'e) result \<Rightarrow> 'w \<times> ('a, 'e) result" where
  "scope d p = (case p of (w, r) \<Rightarrow> (d w, r))"

lemma scope_eq: "scope d p = (w, r) \<longleftrightarrow> (\<exists>v. p = (v, r) \<and> w = d v)"
  by (cases p) (auto simp: scope_def)

lemma fst_scope: "fst (scope d p) = d (fst p)"
  by (cases p) (simp add: scope_def)

text \<open>\<open>run_stress_test\<close>: the shim, the pause container, the loop, the result and the report. \<open>loop\<close> is what the workers do
  to the world while the main loop goes through the schedule \<open>ls\<close>. The locals are dropped in reverse order on every way out, the
  orchestrator at the end.\<close>

definition run_stress_test ::
  "(path \<Rightarrow> benchmark_result list \<Rightarrow> 'w \<Rightarrow> 'w \<times> (unit, string) result) \<Rightarrow> ('sh \<Rightarrow> 'w \<Rightarrow> 'w) \<Rightarrow> stress_label list \<Rightarrow> string \<Rightarrow>
   string \<Rightarrow> bool \<Rightarrow> cli \<Rightarrow> ('w, 'sh, 't) orchestrator \<Rightarrow> 'w \<Rightarrow> 'w \<times> (unit, string) result" where
  "run_stress_test write_json loop ls throughput duration no_timeout c ops w =
     scope (or_drop ops) (st_then (or_start_shim ops (cl_shim c) w) (\<lambda>w sh.
     scope (or_drop_shim ops sh) (st_then (or_task ops sh (cl_image c) (cl_args c) w) (\<lambda>w pause.
     scope (or_drop_task ops pause) (st_then (or_create ops pause w) (\<lambda>w _.
     st_then (loop sh w, stress_result (cl_count c) (stress_run no_timeout (stress_init (cl_parallel c) (cl_count c)) ls)) (\<lambda>w _.
       report_results write_json c throughput duration w)))))))"

text \<open>\<open>main_impl\<close>: the logger, the client, the arguments, and one of the two orchestrators.\<close>

definition main_impl ::
  "(unit, string) result \<Rightarrow> ('w \<Rightarrow> 'w \<times> ('c, string) result) \<Rightarrow> ('c \<Rightarrow> 'w \<Rightarrow> string \<Rightarrow> (string list, string) result) \<Rightarrow>
   ('c \<Rightarrow> 'w \<Rightarrow> 'w \<times> ('o1, string) result) \<Rightarrow> ('c \<Rightarrow> bool \<Rightarrow> 'w \<Rightarrow> 'w \<times> ('o2, string) result) \<Rightarrow>
   (cli \<Rightarrow> 'o1 \<Rightarrow> 'w \<Rightarrow> 'w \<times> (unit, string) result) \<Rightarrow> (cli \<Rightarrow> 'o2 \<Rightarrow> 'w \<Rightarrow> 'w \<times> (unit, string) result) \<Rightarrow>
   cli \<Rightarrow> 'w \<Rightarrow> 'w \<times> (unit, string) result" where
  "main_impl logger dial entrypoint containerd_new mock_new run1 run2 c w =
     st_then (w, logger) (\<lambda>w _.
     st_then (dial w) (\<lambda>w cl.
     st_then (if cl_args c = [] then (w, default_entrypoint (entrypoint cl w) (cl_image c)) else (w, Ok (cl_args c))) (\<lambda>w as.
       let c = c\<lparr>cl_args := as\<rparr> in
       if cl_containerd c then st_then (containerd_new cl w) (\<lambda>w c8d. run1 c c8d w)
       else st_then (mock_new cl (cl_verbose c) w) (\<lambda>w c8d. run2 c c8d w))))"

text \<open>\<open>main\<close>: a panic of the run leaves without reaping.\<close>

definition stress_main ::
  "('w \<Rightarrow> 'w \<times> (unit, string) result) \<Rightarrow> ('w \<Rightarrow> 'w \<times> (unit, string) result) \<Rightarrow> ('w \<Rightarrow> (string, string) result) \<Rightarrow>
   (u32 \<Rightarrow> 'w \<Rightarrow> 'w) \<Rightarrow> 'w \<Rightarrow> ('w \<times> (unit, string) result) option" where
  "stress_main set_child_subreaper impl read_children kill_wait w =
     (case set_child_subreaper w of
        (w, Ok _) \<Rightarrow>
          (case impl w of
             (w, Panic m) \<Rightarrow> Some (w, Panic m)
           | (w, res1) \<Rightarrow> map_option (\<lambda>(w, res2). (w, res_and res1 res2)) (reap_children read_children kill_wait w))
      | (w, r) \<Rightarrow> Some (w, r))"

section \<open>Cleaning up\<close>

text \<open>Whatever ends the run (all done, timeout, cancelled, an error of the pause container or of the report, a panic), the pause container
  is deleted and then the shim is shut down, in this order and as the last but one thing.\<close>

lemma shim_dropped:
  assumes "or_start_shim ops (cl_shim c) w = (w1, Ok sh)"
  shows "\<exists>v. fst (run_stress_test wj loop ls th d nt c ops w) = or_drop ops (or_drop_shim ops sh v)
    \<and> (\<forall>w2 t. or_task ops sh (cl_image c) (cl_args c) w1 = (w2, Ok t) \<longrightarrow> (\<exists>u. v = or_drop_task ops t u))"
proof (cases "or_task ops sh (cl_image c) (cl_args c) w1")
  case (Pair w2 r)
  with assms show ?thesis
    by (cases r) (auto simp: run_stress_test_def fst_scope)
qed

lemma run_result:
  assumes "run_stress_test wj loop ls th d nt c ops w = (w', Ok ())"
  shows "st_success (stress_run nt (stress_init (cl_parallel c) (cl_count c)) ls) = cl_count c"
proof -
  have "stress_result (cl_count c) (stress_run nt (stress_init (cl_parallel c) (cl_count c)) ls) = Ok ()"
    using assms unfolding run_stress_test_def by (auto simp: scope_eq res_simps)
  then show ?thesis by (simp add: stress_result_def split: if_splits)
qed

lemma main_impl_result:
  assumes "main_impl logger dial ep cnew mnew (run_stress_test wj lp1 ls th d nt) (run_stress_test wj lp2 ls th d nt) c w = (w', Ok ())"
  shows "st_success (stress_run nt (stress_init (cl_parallel c) (cl_count c)) ls) = cl_count c"
  using assms unfolding main_impl_def Let_def by (auto simp: res_simps split: if_splits dest!: run_result)

text \<open>The link is taken away again.\<close>

lemma link_removed:
  assumes "cshim_new pid canon binary fs = (fs', Ok sh)"
  shows "fs' (snd sh) \<noteq> None \<and> cshim_drop sh fs' = fs"
proof -
  have "sh = shim_link pid \<and> fs (snd sh) = None \<and> (\<exists>b. fs' = fs(snd sh := Some b))"
    using assms by (auto simp: cshim_new_def symlink_def res_simps split: option.splits)
  then show ?thesis by (auto simp: cshim_drop_def fun_eq_iff)
qed

text \<open>A leftover link of an earlier process with the same id makes the start fail and stays.\<close>

lemma stale_link:
  "fs (snd (shim_link pid)) = Some x \<Longrightarrow> canon binary = Ok b \<Longrightarrow> cshim_new pid canon binary fs = (fs, Err ''File exists'')"
  by (simp add: cshim_new_def symlink_def)

text \<open>C38: The load generator cleans up: unless the run panics, the program ends, and when it ends none of its children is left,
  shim processes that ignored the shutdown included. It succeeds exactly when the run does, and a run that succeeds has seen every one of
  its tasks succeed. All that is asked of the kernel is that it lists live children, that a \<open>SIGKILL\<close> and \<open>waitpid\<close>
  never give a process more rounds to live than it had, and that they bring the process they are for nearer to its end.\<close>

theorem stress_main_cleans_up:
  fixes lives :: "'w \<Rightarrow> u32 \<Rightarrow> nat"
  assumes "impl = main_impl logger dial entrypoint containerd_new mock_new (run_stress_test write_json loop1 ls throughput duration no_timeout)
      (run_stress_test write_json loop2 ls throughput duration no_timeout) c"
    and "set_child_subreaper w = (w1, Ok ())" and "impl w1 = (w2, r)" and "\<not> is_panic r"
    and "\<And>w. \<exists>text. read_children w = Ok text \<and> (\<forall>p \<in> set (children_pids text). 0 < lives w p)"
    and "\<And>p q w. lives (kill_wait p w) q \<le> lives w q"
    and "\<And>p w. 0 < lives w p \<Longrightarrow> lives (kill_wait p w) p < lives w p"
  shows "\<exists>w' text. stress_main set_child_subreaper impl read_children kill_wait w = Some (w', r)
    \<and> read_children w' = Ok text \<and> children_pids text = []
    \<and> (r = Ok () \<longrightarrow> st_success (stress_run no_timeout (stress_init (cl_parallel c) (cl_count c)) ls) = cl_count c)"
proof -
  obtain w' listing where "reap_children read_children kill_wait w2 = Some (w', Ok ())"
    "read_children w' = Ok listing" "children_pids listing = []"
    using reap_children_returns [of read_children lives kill_wait w2] assms(5-7) by blast
  then show ?thesis
    using assms(1-4) main_impl_result by (cases r) (auto simp: stress_main_def)
qed

text \<open>A shim that ignores the shutdown and survives two rounds, and one task.\<close>

definition demo_orchestrator :: "(nat, unit, unit) orchestrator" where
  "demo_orchestrator =
     \<lparr>or_start_shim = (\<lambda>p n. (n + 2, Ok ())), or_task = (\<lambda>_ img as n. (n, Ok ())), or_create = (\<lambda>_ n. (n, Ok ())),
      or_drop_task = (\<lambda>_ n. n), or_drop_shim = (\<lambda>_ n. n), or_drop = (\<lambda>n. n)\<rparr>"

definition demo_cli :: cli where
  "demo_cli = (cli_defaults ''containerd-shim-wasmtime-v1'')\<lparr>cl_count := 1, cl_args := [''/app.wasm'']\<rparr>"

definition demo_schedule :: "stress_label list" where
  "demo_schedule = [Work 0 True, MainArrives, Work 0 True, Work 0 True, Work 0 True, Work 0 True, Work 0 True, Work 0 True, Next 0, NoMore]"

definition demo_impl :: "nat \<Rightarrow> nat \<times> (unit, string) result" where
  "demo_impl =
     main_impl (Ok ()) (\<lambda>n. (n, Ok ())) (\<lambda>_ n img. Ok []) (\<lambda>_ n. (n, Ok demo_orchestrator)) (\<lambda>_ v n. (n, Ok demo_orchestrator))
       (run_stress_test (\<lambda>p rs n. (n, Ok ())) (\<lambda>_ n. n) demo_schedule [] [] False)
       (run_stress_test (\<lambda>p rs n. (n, Ok ())) (\<lambda>_ n. n) demo_schedule [] [] False) demo_cli"

theorem stress_main_cleans_up_witness:
  "\<exists>w' text. stress_main (\<lambda>n. (n, Ok ())) demo_impl (\<lambda>n. Ok (if n = 0 then [] else ''42 '')) (\<lambda>p n. if p = 42 then n - 1 else n) 0
      = Some (w', Ok ()) \<and> Ok (if w' = 0 then [] else ''42 '') = (Ok text :: (string, string) result) \<and> children_pids text = []"
proof -
  have pids: "children_pids ''42 '' = [42]" "children_pids [] = []"
    by (simp_all add: children_pids_def map_filter_def is_ws_def parse_uint_def char_digit_def)
  have "stress_result 1 (stress_run False (stress_init 1 1) demo_schedule) = Ok ()"
    by (simp add: stress_result_def demo_schedule_def stress_step_def stress_init_def permits_of_def set_worker_def
        barrier_open_def release_permit_def is_reported_def)
  then have run: "demo_impl 0 = (2, Ok ())"
    by (simp add: demo_impl_def main_impl_def demo_cli_def cli_defaults_def run_stress_test_def demo_orchestrator_def scope_def
        report_results_def Let_def)
  let ?read = "\<lambda>n :: nat. Ok (if n = 0 then [] else ''42 '') :: (string, string) result"
  let ?kill = "\<lambda>p :: u32. \<lambda>n :: nat. if p = 42 then n - 1 else n" and ?lives = "\<lambda>n :: nat. \<lambda>p :: u32. if p = 42 then n else 0"
  have k: "\<exists>text. ?read n = Ok text \<and> (\<forall>p \<in> set (children_pids text). 0 < ?lives n p)" for n
    by (simp add: pids)
  have m: "?lives (?kill p n) q \<le> ?lives n q" "0 < ?lives n p \<Longrightarrow> ?lives (?kill p n) p < ?lives n p" for p q n
    by (simp_all split: if_splits)
  have np: "\<not> is_panic (Ok () :: (unit, string) result)" by simp
  show ?thesis
    using stress_main_cleans_up [where set_child_subreaper = "\<lambda>n. (n, Ok ())" and w = 0 and read_children = ?read
        and lives = ?lives and kill_wait = ?kill, OF demo_impl_def refl run np k m]
    by blast
qed

end
