(* ===== verification/Unix_Node.thy ===== *)
theory Unix_Node
  imports Unix_Service
begin

text \<open>
  The whole shim process of a wasm container on unix: the task service of \<open>Local_Service\<close> over the youki instance of
  \<open>Unix_Instance\<close>, with the tasks that \<open>start\<close> spawns to wait for a process. A step is a request, a poll of a
  background task, the end of a wait for a process, or a change of the operating system. A ghost list records what every wait
  returned; it links the events that containerd sees to the processes of the containers.
\<close>

section \<open>The composition\<close>

text \<open>Directories, mounts and the processes of hooks are the business of the operating system, of which the world of the
  unix instance has one.\<close>

definition lift_os :: "('y \<Rightarrow> 'y \<times> 'a) \<Rightarrow> ('y, 'c) unix_world \<Rightarrow> ('y, 'c) unix_world \<times> 'a" where
  "lift_os f w = (case f (uw_os w) of (y, r) \<Rightarrow> (w\<lparr>uw_os := y\<rparr>, r))"

definition unix_proc :: "'y process_ops \<Rightarrow> ('y, 'c) unix_world process_ops" where
  "unix_proc ops =
     \<lparr>spawn = (\<lambda>w c. lift_os (\<lambda>y. spawn ops y c) w),
      write_stdin = (\<lambda>w p s. lift_os (\<lambda>y. write_stdin ops y p s) w),
      kill_process = (\<lambda>w p. w\<lparr>uw_os := kill_process ops (uw_os w) p\<rparr>),
      wait_process = (\<lambda>w p. lift_os (\<lambda>y. wait_process ops y p) w)\<rparr>"

definition unix_shim_env ::
  "('y, 'c) unix_env \<Rightarrow> ('y, 'z, 'm) shim_env \<Rightarrow> (('y, 'c) unix_world, unix_instance, 'm) shim_env" where
  "unix_shim_env uenv host =
     \<lparr>e_ops = unix_ops uenv, e_proc = unix_proc (e_proc host), e_decode = e_decode host, e_toml = e_toml host,
      e_load_spec = (\<lambda>w. e_load_spec host (uw_os w)),
      e_canonicalize_rootfs = (\<lambda>w. e_canonicalize_rootfs host (uw_os w)),
      e_create_dir_all = (\<lambda>w p. lift_os (\<lambda>y. e_create_dir_all host y p) w),
      e_mount_rootfs = (\<lambda>w t s os p. lift_os (\<lambda>y. e_mount_rootfs host y t s os p) w),
      e_get_metrics = (\<lambda>w. e_get_metrics host (uw_os w)), e_pid = e_pid host\<rparr>"

record ('y, 'c) node =
  nd_local :: "(('y, 'c) unix_world, unix_instance) local"
  nd_waited :: "(i32 \<times> u32) list"

datatype 'y node_label = Svc "'y label" | Waited nat "(wait_status, errno) result"

definition node_new :: "'y \<Rightarrow> string \<Rightarrow> string \<Rightarrow> ('y, 'c) node" where
  "node_new y ns address =
     \<lparr>nd_local = local_new \<lparr>uw_os = y, uw_client = False, uw_zygotes = [], uw_cells = [], uw_tasks = []\<rparr>
        wc_new ns address, nd_waited = []\<rparr>"

fun node_step ::
  "('y, 'c) unix_env \<Rightarrow> ('y, 'z, 'm) shim_env \<Rightarrow> ('y, 'c) node \<Rightarrow> 'y node_label \<Rightarrow> ('y, 'c) node" where
  "node_step uenv host n (Svc l) =
     n\<lparr>nd_local := svc_step (unix_shim_env uenv host) (nd_local n)
         (map_label (\<lambda>y. (l_world (nd_local n))\<lparr>uw_os := y\<rparr>) l)\<rparr>"
| "node_step uenv host n (Waited k res) =
     (let s = nd_local n; w = l_world s
      in if k < length (uw_tasks w)
         then n\<lparr>nd_local := s\<lparr>l_world := exit_task uenv w k res\<rparr>,
                nd_waited := nd_waited n @ [(snd (uw_tasks w ! k), exit_status res)]\<rparr>
         else n)"

interpretation node: machine "node_new y ns address" "node_step uenv host" for y ns address uenv host .

abbreviation node_run ::
  "('y, 'c) unix_env \<Rightarrow> ('y, 'z, 'm) shim_env \<Rightarrow> ('y, 'c) node \<Rightarrow> 'y node_label list \<Rightarrow> ('y, 'c) node" where
  "node_run uenv host \<equiv> machine.run (node_step uenv host)"

section \<open>Processes, cells and instances\<close>

text \<open>No two instances share a cell; a wait that is still running is for the pid of the instance whose cell it will write;
  an instance with a pid has either such a wait, or the status that a wait for its pid returned.\<close>

definition accounted :: "(i32 \<times> u32) list \<Rightarrow> ('y, 'c) unix_world \<Rightarrow> unix_instance instance_data \<Rightarrow> bool" where
  "accounted hist w d \<longleftrightarrow>
     unix_valid w (inst d) \<and> data_ok d \<and>
     (tstate d = Created \<longrightarrow> unix_wait w (inst d) = None) \<and>
     (\<forall>p. pid_cell d = Some p \<longrightarrow> unix_wait w (inst d) = None \<longrightarrow> (un_cell (inst d), p) \<in> set (uw_tasks w)) \<and>
     (\<forall>p code t. pid_cell d = Some p \<longrightarrow> unix_wait w (inst d) = Some (code, t) \<longrightarrow> (p, code) \<in> set hist)"

definition tracked ::
  "(i32 \<times> u32) list \<Rightarrow> ('y, 'c) unix_world \<Rightarrow> unix_instance instance_data list \<Rightarrow> bool" where
  "tracked hist w h \<longleftrightarrow>
     (\<forall>i j. i < length h \<longrightarrow> j < length h \<longrightarrow> un_cell (inst (h ! i)) = un_cell (inst (h ! j)) \<longrightarrow> i = j) \<and>
     (\<forall>c p. (c, p) \<in> set (uw_tasks w) \<longrightarrow>
        (\<exists>i. i < length h \<and> un_cell (inst (h ! i)) = c \<and> pid_cell (h ! i) = Some p)) \<and>
     (\<forall>i. i < length h \<longrightarrow> accounted hist w (h ! i))"

lemma trackedI:
  assumes "\<And>i j. i < length h \<Longrightarrow> j < length h \<Longrightarrow> un_cell (inst (h ! i)) = un_cell (inst (h ! j)) \<Longrightarrow> i = j"
    and "\<And>c p. (c, p) \<in> set (uw_tasks w) \<Longrightarrow> \<exists>i. i < length h \<and> un_cell (inst (h ! i)) = c \<and> pid_cell (h ! i) = Some p"
    and "\<And>i. i < length h \<Longrightarrow> accounted hist w (h ! i)"
  shows "tracked hist w h"
  using assms by (simp add: tracked_def)

lemma trackedD:
  assumes "tracked hist w h"
  shows "i < length h \<Longrightarrow> j < length h \<Longrightarrow> un_cell (inst (h ! i)) = un_cell (inst (h ! j)) \<Longrightarrow> i = j"
    and "(c, p) \<in> set (uw_tasks w) \<Longrightarrow> \<exists>i. i < length h \<and> un_cell (inst (h ! i)) = c \<and> pid_cell (h ! i) = Some p"
    and "i < length h \<Longrightarrow> accounted hist w (h ! i)"
  using assms unfolding tracked_def by blast+

text \<open>Replacing an instance by one with the same handle, in a world with the same tasks or one more for it.\<close>

lemma tracked_update:
  assumes t: "tracked hist w h" and r: "r < length h" and i: "inst d = inst (h ! r)"
    and p: "\<And>q. pid_cell (h ! r) = Some q \<Longrightarrow> pid_cell d = Some q"
    and tasks: "\<And>c q. (c, q) \<in> set (uw_tasks w') \<Longrightarrow>
      (c, q) \<in> set (uw_tasks w) \<or> (c = un_cell (inst d) \<and> pid_cell d = Some q)"
    and "accounted hist' w' d" and "\<And>j. j < length h \<Longrightarrow> j \<noteq> r \<Longrightarrow> accounted hist' w' (h ! j)"
  shows "tracked hist' w' (h[r := d])"
proof (rule trackedI)
  fix j k
  assume "j < length (h[r := d])" and "k < length (h[r := d])"
    and "un_cell (inst (h[r := d] ! j)) = un_cell (inst (h[r := d] ! k))"
  then show "j = k" using trackedD(1) [OF t, of j k] i r by (auto simp: nth_list_update split: if_splits)
next
  fix c q
  assume "(c, q) \<in> set (uw_tasks w')"
  from tasks [OF this] show "\<exists>j. j < length (h[r := d]) \<and> un_cell (inst (h[r := d] ! j)) = c \<and> pid_cell (h[r := d] ! j) = Some q"
  proof
    assume "(c, q) \<in> set (uw_tasks w)"
    then obtain j where j: "j < length h" "un_cell (inst (h ! j)) = c" "pid_cell (h ! j) = Some q"
      using trackedD(2) [OF t] by blast
    then show ?thesis using i p r by (cases "j = r") (auto intro: exI [of _ j])
  qed (use r in \<open>auto intro: exI [of _ r]\<close>)
next
  fix j
  assume "j < length (h[r := d])"
  then show "accounted hist' w' (h[r := d] ! j)" using assms(6,7) by (cases "j = r") auto
qed

lemma zygote_step_tasks: "zygote_step w w' \<Longrightarrow> uw_tasks w' = uw_tasks w"
  by (simp add: zygote_step_def)

lemma accounted_zygote:
  assumes "accounted hist w d" and "zygote_step w w'"
  shows "accounted hist w' d"
  using assms(1) unix_valid_step [OF assms(2)] unix_wait_step [OF assms(2), of "inst d"]
  by (simp add: accounted_def zygote_step_tasks [OF assms(2)])

lemma tracked_zygote: "tracked hist w h \<Longrightarrow> zygote_step w w' \<Longrightarrow> tracked hist w' h"
  by (rule trackedI) (auto dest: trackedD accounted_zygote simp: zygote_step_tasks)

text \<open>An operation that keeps the handle and the pid of an instance, and does not make it \<open>Created\<close> again.\<close>

lemma tracked_inst:
  assumes t: "tracked hist w h" and r: "r < length h" and i: "inst d = inst (h ! r)"
    and p: "pid_cell d = pid_cell (h ! r)" and s: "tstate d = Created \<Longrightarrow> tstate (h ! r) = Created" and "data_ok d"
  shows "tracked hist w (h[r := d])"
proof -
  have "accounted hist w d"
    using trackedD(3) [OF t r] i p s \<open>data_ok d\<close> unfolding accounted_def by metis
  then show ?thesis using tracked_update [OF t r i] p trackedD(3) [OF t] by auto
qed

lemma tracked_wait:
  "tracked hist w h \<Longrightarrow> r < length h \<Longrightarrow> id_wait ops w' (h ! r) = (d, x) \<Longrightarrow> tracked hist w (h[r := d])"
  using trackedD(3) [of hist w h r]
  by (intro tracked_inst) (auto simp: id_wait_def accounted_def data_ok_def split: option.splits)

lemma tracked_kill:
  assumes "tracked hist w h" and "r < length h" and "id_kill (unix_ops env) w (h ! r) sig = ((w', d), x)"
  shows "tracked hist w' (h[r := d])"
proof -
  have "d = h ! r" and "zygote_step w w'"
    using assms(3) zygote_step_kill_delete(1) [of w env "inst (h ! r)" sig]
    by (auto simp: id_kill_cases unix_ops_def split: prod.splits if_splits)
  then show ?thesis using tracked_zygote [OF assms(1)] by simp
qed

lemma tracked_delete:
  assumes "tracked hist w h" and "r < length h" and "id_delete (unix_ops env) w (h ! r) = ((w', d), x)"
  shows "tracked hist w' (h[r := d])"
proof -
  have d: "data_ok d" using trackedD(3) [OF assms(1,2)] data_ok_delete [OF _ assms(3)] by (simp add: accounted_def)
  have "zygote_step w w'" and "inst d = inst (h ! r)" and "pid_cell d = pid_cell (h ! r)"
    and "tstate d = Created \<Longrightarrow> tstate (h ! r) = Created"
    using assms(3) zygote_step_kill_delete(2) [of w env "inst (h ! r)"]
    by (auto simp: id_delete_cases unix_ops_def split: prod.splits result.splits if_splits)
  then show ?thesis using tracked_inst [OF tracked_zygote [OF assms(1)]] assms(2) d by blast
qed

text \<open>A start: on success the wait for the new pid is there, on failure the cell of this instance has its status, and the
  instance has no pid.\<close>

lemma set_exit_tasks [simp]: "uw_tasks (set_exit w c v) = uw_tasks w"
  by (simp add: set_exit_def)

lemma accounted_set_exit: "accounted hist w d \<Longrightarrow> un_cell (inst d) \<noteq> c \<Longrightarrow> accounted hist (set_exit w c v) d"
  by (simp add: accounted_def unix_wait_set_exit)

lemma tracked_failed_start:
  assumes t: "tracked hist w h" and r: "r < length h" and "pid_cell (h ! r) = None" and i: "inst d = inst (h ! r)"
    and "pid_cell d = None" and "tstate d \<noteq> Created" and "data_ok d"
  shows "tracked hist (set_exit w (un_cell (inst (h ! r))) v) (h[r := d])"
proof (rule tracked_update [OF t r i])
  show "accounted hist (set_exit w (un_cell (inst (h ! r))) v) d"
    using trackedD(3) [OF t r] assms(5-7) i by (simp add: accounted_def)
  show "accounted hist (set_exit w (un_cell (inst (h ! r))) v) (h ! j)" if "j < length h" "j \<noteq> r" for j
    using trackedD(3) [OF t that(1)] trackedD(1) [OF t that(1) r] that(2) by (auto intro!: accounted_set_exit)
qed (use assms(3) in auto)

lemma tracked_start:
  assumes t: "tracked hist w h" and r: "r < length h" and st: "id_start (unix_ops env) w (h ! r) = ((w', d), x)"
  shows "tracked hist w' (h[r := d])"
proof (cases "tstate (h ! r) = Created")
  case True
  note acc = trackedD(3) [OF t r]
  then have new: "pid_cell (h ! r) = None" "unix_wait w (inst (h ! r)) = None" "unix_valid w (inst (h ! r))"
    using True by (auto simp: accounted_def data_ok_def)
  have d: "data_ok d" using acc data_ok_start [OF _ st] by (simp add: accounted_def)
  obtain w1 y where s: "start_steps env w (inst (h ! r)) = (w1, y)" by fastforce
  have z: "zygote_step w w1" using zygote_step_start [of w env "inst (h ! r)"] s by simp
  note t1 = tracked_zygote [OF t z]
  have w1: "unix_wait w1 (inst (h ! r)) = None" "unix_valid w1 (inst (h ! r))"
    using new unix_wait_step [OF z] unix_valid_step [OF z] by simp_all
  have i: "inst d = inst (h ! r)" using st True
    by (auto simp: id_start_cases split: prod.splits result.splits)
  show ?thesis
  proof (cases y)
    case (Ok pid)
    then have w': "w' = w1\<lparr>uw_tasks := uw_tasks w1 @ [(un_cell (inst (h ! r)), pid)]\<rparr>" and p: "pid_cell d = Some pid"
      and sd: "tstate d = Started"
      using st s True new(1) by (auto simp: id_start_cases unix_ops_def unix_start_eq)
    show ?thesis
    proof (rule tracked_update [OF t1 r i])
      show "accounted hist w' d" using d w1 i p sd by (simp add: accounted_def w')
      show "accounted hist w' (h ! j)" if "j < length h" "j \<noteq> r" for j
        using trackedD(3) [OF t1 that(1)] by (auto simp: accounted_def w')
    qed (use new(1) i p in \<open>auto simp: w'\<close>)
  next
    case (Err e)
    then have w': "w' = set_exit w1 (un_cell (inst (h ! r))) (137, ux_now env (uw_os w1))" and p: "pid_cell d = None"
      and sd: "tstate d = Exited"
      using st s True new(1) by (auto simp: id_start_cases unix_ops_def unix_start_eq)
    show ?thesis using tracked_failed_start [OF t1 r _ i p _ d] new(1) sd by (simp add: w')
  next
    case (Panic m)
    then have w': "w' = set_exit w1 (un_cell (inst (h ! r))) (137, ux_now env (uw_os w1))" and p: "pid_cell d = None"
      and sd: "tstate d = Starting"
      using st s True new(1) by (auto simp: id_start_cases unix_ops_def unix_start_eq)
    show ?thesis using tracked_failed_start [OF t1 r _ i p _ d] new(1) sd by (simp add: w')
  qed
next
  case False
  then have "w' = w" "d = h ! r" using st by (auto simp: id_start_cases)
  then show ?thesis using t by simp
qed

text \<open>A new instance has a fresh cell.\<close>

lemma tracked_new:
  assumes t: "tracked hist w h" and new: "unix_new env w cid cfg = (w', x)"
  shows "tracked hist w' h"
    and "x = Ok i \<Longrightarrow> tracked hist w' (h @ [\<lparr>inst = i, id_config = cfg', pid_cell = None, tstate = Created\<rparr>])"
proof -
  obtain w1 where z: "zygote_step w w1" and
    c: "w' = w1 \<and> \<not> is_ok x \<or> w' = w1\<lparr>uw_cells := uw_cells w1 @ [wc_new]\<rparr> \<and>
       (\<exists>z. x = Ok \<lparr>un_id = cid, un_cell = length (uw_cells w1), un_zygote = z\<rparr>
            \<and> z < length (uw_zygotes w1) \<and> uw_zygotes w1 ! z \<noteq> None)"
    using unix_new_step [OF new] by blast
  note t1 = tracked_zygote [OF t z]
  let ?w = "w1\<lparr>uw_cells := uw_cells w1 @ [wc_new]\<rparr>"
  have keep: "accounted hist ?w d" if "accounted hist w1 d" for d
    using that by (auto simp: accounted_def unix_valid_def unix_wait_def nth_append)
  then have t2: "tracked hist ?w h" by (intro trackedI) (auto dest: trackedD [OF t1])
  then show "tracked hist w' h" using c t1 by auto
  let ?d = "\<lparr>inst = i, id_config = cfg', pid_cell = None, tstate = Created\<rparr>"
  assume "x = Ok i"
  with c have w': "w' = ?w" and i: "un_cell i = length (uw_cells w1)" and valid: "unix_valid ?w i"
    by (auto simp: unix_valid_def)
  have fresh: "un_cell (inst (h ! j)) < length (uw_cells w1)" if "j < length h" for j
    using trackedD(3) [OF t1 that] by (simp add: accounted_def unix_valid_def)
  have "accounted hist ?w ?d"
    using valid i by (simp add: accounted_def data_ok_def unix_wait_def wc_new_def wc_wait_def)
  show "tracked hist w' (h @ [?d])"
    unfolding w'
  proof (rule trackedI)
    fix j k
    assume "j < length (h @ [?d])" and "k < length (h @ [?d])"
      and "un_cell (inst ((h @ [?d]) ! j)) = un_cell (inst ((h @ [?d]) ! k))"
    then show "j = k"
      using trackedD(1) [OF t2, of j k] fresh [of j] fresh [of k] i by (auto simp: nth_append less_Suc_eq split: if_splits)
  next
    fix c p
    assume "(c, p) \<in> set (uw_tasks ?w)"
    then obtain j where "j < length h \<and> un_cell (inst (h ! j)) = c \<and> pid_cell (h ! j) = Some p"
      using trackedD(2) [OF t2] by blast
    then show "\<exists>j. j < length (h @ [?d]) \<and> un_cell (inst ((h @ [?d]) ! j)) = c \<and> pid_cell ((h @ [?d]) ! j) = Some p"
      by (intro exI [of _ j]) (simp add: nth_append)
  next
    fix j
    assume "j < length (h @ [?d])"
    then show "accounted hist ?w ((h @ [?d]) ! j)"
      using \<open>accounted hist ?w ?d\<close> trackedD(3) [OF t2, of j] by (auto simp: nth_append less_Suc_eq)
  qed
qed

text \<open>The end of a wait: the cell of its instance has the status, and the ghost list has the pid with the same status.\<close>

lemma exit_task_effect:
  assumes "k < length (uw_tasks w)" and "uw_tasks w ! k = (c, p)"
  shows "unix_wait (exit_task env w k res) i =
      (if un_cell i = c \<and> c < length (uw_cells w) \<and> unix_wait w i = None
       then Some (exit_status res, ux_now env (uw_os w)) else unix_wait w i)"
    and "unix_valid (exit_task env w k res) i = unix_valid w i"
    and "uw_tasks (exit_task env w k res) = take k (uw_tasks w) @ drop (Suc k) (uw_tasks w)"
  using assms
  by (cases res;
      auto simp: exit_task_def Let_def drop_exit_guard_eq remove_task_def unix_wait_set_exit split: option.splits)+

lemma set_remove_nth: "k < length xs \<Longrightarrow> set xs = insert (xs ! k) (set (take k xs @ drop (Suc k) xs))"
  using mset_remove_nth [of k xs] by (metis add_mset_add_single set_mset_add_mset_insert set_mset_mset)

lemma tracked_waited:
  assumes t: "tracked hist w h" and k: "k < length (uw_tasks w)" "uw_tasks w ! k = (c, p)"
  shows "tracked (hist @ [(p, exit_status res)]) (exit_task env w k res) h"
proof (rule trackedI)
  let ?w = "exit_task env w k res"
  note eff = exit_task_effect [OF k, of env res]
  have tasks: "set (uw_tasks w) = insert (c, p) (set (uw_tasks ?w))"
    using set_remove_nth [OF k(1)] k(2) by (simp add: eff(3))
  obtain o' where o': "o' < length h" "un_cell (inst (h ! o')) = c" "pid_cell (h ! o') = Some p"
    using trackedD(2) [OF t, of c p] tasks by blast
  fix j
  assume j: "j < length h"
  note acc = trackedD(3) [OF t j]
  show "accounted (hist @ [(p, exit_status res)]) ?w (h ! j)"
  proof (cases "un_cell (inst (h ! j)) = c")
    case True
    then have "j = o'" using trackedD(1) [OF t j o'(1)] o'(2) by simp
    moreover have "c < length (uw_cells w)" using acc True by (simp add: accounted_def unix_valid_def)
    ultimately show ?thesis
      using acc o' eff(1,2) [of "inst (h ! o')"] by (auto simp: accounted_def data_ok_def split: if_splits)
  next
    case False
    with acc eff(1,2) [of "inst (h ! j)"] tasks show ?thesis by (auto simp: accounted_def)
  qed
next
  fix c' q
  assume "(c', q) \<in> set (uw_tasks (exit_task env w k res))"
  then have "(c', q) \<in> set (uw_tasks w)"
    using set_remove_nth [OF k(1)] exit_task_effect(3) [OF k] by auto
  then show "\<exists>i. i < length h \<and> un_cell (inst (h ! i)) = c' \<and> pid_cell (h ! i) = Some q"
    by (rule trackedD(2) [OF t])
qed (use trackedD(1) [OF t] in blast)

section \<open>Every step keeps the account\<close>

lemma lift_os_step: "lift_os f w = (w', r) \<Longrightarrow> zygote_step w w'"
  by (auto simp: lift_os_def split: prod.splits)

lemma mount_all_step: "zygote_step w (fst (mount_all (unix_shim_env uenv host) rootfs ms w))"
proof (induction ms arbitrary: w)
  case (Cons m ms)
  show ?case
  proof (cases "lift_os (\<lambda>y. e_mount_rootfs host y (none_if_empty (m_type m)) (none_if_empty (m_source m)) (m_options m) rootfs) w")
    case (Pair w1 r)
    then show ?thesis
      using Cons.IH [of w1] lift_os_step [OF Pair] zygote_step_trans
      by (cases r) (auto simp: unix_shim_env_def)
  qed
qed simp

lemma run_hook_step: "zygote_step w (fst (run_hook (unix_proc ops) pid w hk))"
  by (auto simp: run_hook_def unix_proc_def lift_os_def Let_def split: prod.splits result.splits pipe_error.splits)

lemma hooks_step: "zygote_step w (fst (setup_prestart_hooks (unix_proc ops) pid w hs))"
proof -
  have "zygote_step w (fst (run_hooks (unix_proc ops) pid w l))" for l
  proof (induction l arbitrary: w)
    case (Cons hk l)
    have "zygote_step w (fst (run_hooks (unix_proc ops) pid v l))" if "run_hook (unix_proc ops) pid w hk = (v, r)" for v r
      using zygote_step_trans [OF _ Cons.IH [of v]] run_hook_step [of w ops pid hk] that by simp
    then show ?case
      by (auto intro!: fst_st_then_inv [where P = "zygote_step w"] run_hook_step)
  qed simp
  then show ?thesis by (simp add: setup_prestart_hooks_def split: option.splits)
qed

text \<open>The exits that were announced are statuses that a wait for the announced pid returned.\<close>

fun ev_status :: "event \<Rightarrow> (u32 \<times> u32) list" where
  "ev_status (TaskExit _ _ p code _) = [(p, code)]"
| "ev_status _ = []"

definition statuses :: "event list \<Rightarrow> (u32 \<times> u32) list" where
  "statuses es = concat (map ev_status es)"

lemma statuses_snoc [simp]: "statuses (es @ [e]) = statuses es @ ev_status e"
  by (simp add: statuses_def)

definition held :: "(i32 \<times> u32) list \<Rightarrow> (('y, 'c) unix_world, unix_instance) local \<Rightarrow> bool" where
  "held hist s \<longleftrightarrow> tracked hist (l_world s) (l_heap s) \<and> set (statuses (l_events s)) \<subseteq> set hist"

lemma heldD: "held hist s \<Longrightarrow> tracked hist (l_world s) (l_heap s)"
  by (simp add: held_def)

lemma held_fields:
  "held hist s \<Longrightarrow> l_world t = l_world s \<Longrightarrow> l_heap t = l_heap s \<Longrightarrow> statuses (l_events t) = statuses (l_events s) \<Longrightarrow>
   held hist t"
  by (simp add: held_def)

lemma held_on_inst:
  assumes "held hist s" and "r < length (l_heap s)"
    and "\<And>w d x. f (l_world s) (l_heap s ! r) = ((w, d), x) \<Longrightarrow> tracked hist w ((l_heap s)[r := d])"
  shows "held hist (fst (on_inst s r f))"
proof -
  obtain w d x where f: "f (l_world s) (l_heap s ! r) = ((w, d), x)" by (metis prod.exhaust)
  then show ?thesis using assms(1) assms(3) [OF f] by (simp add: on_inst_def held_def)
qed

lemma held_wait_now:
  assumes "held hist s" and "r < length (l_heap s)"
  shows "held hist (fst (wait_now env s r free))"
proof -
  obtain d x where d: "id_wait (e_ops env) (l_world s) (l_heap s ! r) = (d, x)" by (metis prod.exhaust)
  show ?thesis
    using assms(1) tracked_wait [OF heldD [OF assms(1)] assms(2) d] d by (simp add: wait_now_def held_def)
qed

lemma unix_shim_env_simps [simp]:
  "e_ops (unix_shim_env uenv host) = unix_ops uenv"
  "e_proc (unix_shim_env uenv host) = unix_proc (e_proc host)"
  "e_create_dir_all (unix_shim_env uenv host) w p = lift_os (\<lambda>y. e_create_dir_all host y p) w"
  by (simp_all add: unix_shim_env_def)

lemma mounts_step:
  "zygote_step w (fst (mount_all (unix_shim_env uenv host) rootfs ms (fst (e_create_dir_all (unix_shim_env uenv host) w rootfs))))"
  using zygote_step_trans [OF lift_os_step mount_all_step] by (metis prod.collapse unix_shim_env_simps(3))

lemma create_instance_tracked:
  assumes "tracked hist (l_world s) (l_heap s)"
    and "create_instance (unix_shim_env uenv host) s req = (u, x)"
  shows "tracked hist (l_world u) (l_heap s)" and "x = Ok (spec, d) \<Longrightarrow> tracked hist (l_world u) (l_heap s @ [d])"
proof -
  let ?env = "unix_shim_env uenv host"
  have t1: "tracked hist (l_world t) (l_heap s)"
    if "on_world s (\<lambda>w. mount_all ?env rootfs ms (fst (e_create_dir_all ?env w rootfs))) = (t, y)" for t y rootfs ms
    using that tracked_zygote [OF assms(1) mounts_step [of "l_world s" uenv host rootfs ms]] by (auto simp: on_world_def split: prod.splits)
  have t2: "tracked hist w' (l_heap s) \<and> (\<forall>d. y = Ok d \<longrightarrow> tracked hist w' (l_heap s @ [d]))"
    if "tracked hist w (l_heap s)" "id_new (unix_ops uenv) w cid cfg = (w', y)" for w w' y cid cfg
  proof -
    obtain v z where v: "unix_new uenv w cid cfg = (v, z)" by fastforce
    then show ?thesis
      using that tracked_new [OF that(1) v] by (cases z) (auto simp: id_new_def unix_ops_def)
  qed
  have t3: "tracked hist (l_world (fst (on_world t (\<lambda>w. id_new (unix_ops uenv) w cid cfg)))) (l_heap s)"
    if "tracked hist (l_world t) (l_heap s)" for t cid cfg
    using t2 [OF that] by (cases "id_new (unix_ops uenv) (l_world t) cid cfg") (simp add: on_world_def)
  have "tracked hist (l_world (fst (create_instance ?env s req))) (l_heap s)"
  proof (cases "create_check ?env s req")
    case config: (Ok config)
    show ?thesis
    proof (cases "create_spec ?env (l_world s) req")
      case (Ok sr)
      obtain spec rootfs where sr: "sr = (spec, rootfs)" by (cases sr)
      obtain t y where t: "on_world s (\<lambda>w. mount_all ?env rootfs (cr_rootfs req) (fst (e_create_dir_all ?env w rootfs))) = (t, y)"
        by fastforce
      then show ?thesis
        using config Ok sr t1 [OF t] t3 [OF t1 [OF t], of "cr_id req"]
        by (cases y; auto simp: create_instance_def intro!: fst_st_then_inv [where P = "\<lambda>t. tracked hist (l_world t) (l_heap s)"])
          (metis fst_conv)
    qed (use assms(1) config in \<open>simp_all add: create_instance_def\<close>)
  qed (use assms(1) in \<open>simp_all add: create_instance_def\<close>)
  then show "tracked hist (l_world u) (l_heap s)" using assms(2) by simp
  assume "x = Ok (spec, d)"
  then obtain t rootfs cfg where
    t: "on_world s (\<lambda>w. mount_all ?env rootfs (cr_rootfs req) (fst (e_create_dir_all ?env w rootfs))) = (t, Ok ())"
    and u: "on_world t (\<lambda>w. id_new (unix_ops uenv) w (cr_id req) cfg) = (u, Ok d)"
    using assms(2) unfolding create_instance_def by (auto simp: res_simps case_prod_eq)
  show "tracked hist (l_world u) (l_heap s @ [d])"
    using t2 [OF t1 [OF t]] on_world_Ok [OF u] by blast
qed

lemma held_create:
  assumes "held hist s"
  shows "held hist (fst (task_create (unix_shim_env uenv host) s req))"
proof -
  let ?env = "unix_shim_env uenv host"
  obtain u x where u: "create_instance ?env s req = (u, x)" by fastforce
  obtain t res where t: "task_create ?env s req = (t, res)" by fastforce
  note tr = create_instance_tracked [OF heldD [OF assms] u]
  show ?thesis
  proof (cases "\<exists>spec d. x = Ok (spec, d)")
    case True
    then obtain spec d where x: "x = Ok (spec, d)" by blast
    have "l_heap t = l_heap s @ [d]" and "zygote_step (l_world u) (l_world t)"
      and "statuses (l_events t) = statuses (l_events s)"
      using task_create_shape [of ?env s req] hooks_step [of "l_world u" "e_proc host" "e_pid ?env" "sp_hooks spec"] t u x
      by (auto simp: Let_def split: prod.splits)
    then show ?thesis
      using assms tracked_zygote [OF tr(2) [OF x]] t by (simp add: held_def)
  next
    case False
    then have "t = s\<lparr>l_world := l_world u\<rparr>"
      using u t create_instance_world [of s ?env req]
      by (cases x) (auto simp: task_create_def same_service_def)
    then show ?thesis using assms tr(1) t by (simp add: held_def)
  qed
qed

lemma held_start:
  assumes "held hist s" and "svc_inv s"
  shows "held hist (fst (task_start (unix_shim_env uenv host) s cid exec_id))"
proof (cases "get_instance s cid")
  case (Ok r)
  then have r: "r < length (l_heap s)" using inv_registered [OF assms(2)] by blast
  have "held hist (fst (on_inst s r (id_start (unix_ops uenv))))"
    by (rule held_on_inst [OF assms(1) r]) (rule tracked_start [OF heldD [OF assms(1)] r])
  moreover have "held hist (start_finish t r cid pid)" if "held hist t" for t pid
    using that by (rule held_fields) (simp_all add: start_finish_def send_def)
  ultimately show ?thesis
    using assms(1) Ok
    by (cases "on_inst s r (id_start (unix_ops uenv))"; cases "snd (on_inst s r (id_start (unix_ops uenv)))")
      (auto simp: task_start_def)
qed (use assms(1) in \<open>simp_all add: task_start_def\<close>)

lemma held_kill:
  assumes "held hist s" and "svc_inv s"
  shows "held hist (fst (task_kill (unix_shim_env uenv host) s cid exec_id sig))"
proof (cases "get_instance s cid")
  case (Ok r)
  then have r: "r < length (l_heap s)" using inv_registered [OF assms(2)] by blast
  have "held hist (fst (on_inst s r (\<lambda>w d. id_kill (unix_ops uenv) w d sig)))"
    by (rule held_on_inst [OF assms(1) r]) (rule tracked_kill [OF heldD [OF assms(1)] r])
  then show ?thesis using assms(1) Ok by (simp add: task_kill_def)
qed (use assms(1) in \<open>simp_all add: task_kill_def\<close>)

lemma held_delete:
  assumes "held hist s" and "svc_inv s"
  shows "held hist (fst (task_delete (unix_shim_env uenv host) s cid exec_id free))"
proof (cases "get_instance s cid")
  case (Ok r)
  then have r: "r < length (l_heap s)" using inv_registered [OF assms(2)] by blast
  obtain t x where t: "on_inst s r (id_delete (unix_ops uenv)) = (t, x)" by fastforce
  have "held hist (fst (on_inst s r (id_delete (unix_ops uenv))))"
    by (rule held_on_inst [OF assms(1) r]) (rule tracked_delete [OF heldD [OF assms(1)] r])
  then have ht: "held hist t" using t by simp
  obtain u y where u: "wait_now (unix_shim_env uenv host) t r free = (u, y)" by fastforce
  have "held hist u"
    using held_wait_now [OF ht, of r "unix_shim_env uenv host" free] u r on_inst_instances [OF t] by simp
  then have "held hist (fst (delete_finish u cid pid y))" for pid
    by (rule held_fields) (simp_all add: delete_finish_def send_def Let_def)
  then show ?thesis using assms(1) Ok t u ht by (cases x) (auto simp: task_delete_def)
qed (use assms(1) in \<open>simp_all add: task_delete_def\<close>)

lemma held_state:
  assumes "held hist s" and "svc_inv s"
  shows "held hist (fst (task_state env s cid exec_id free))"
proof (cases "get_instance s cid")
  case (Ok r)
  then show ?thesis
    using assms(1) held_wait_now [OF assms(1) inv_registered [OF assms(2) Ok], of env free]
    by (auto simp: task_state_def Let_def split: prod.splits)
qed (use assms(1) in \<open>simp_all add: task_state_def\<close>)

lemma held_watch:
  assumes "held hist s" and "svc_inv s"
  shows "held hist (watcher_poll (unix_shim_env uenv host) s k)"
proof (cases "k < length (l_watchers s)")
  case True
  obtain r cid pid where w: "l_watchers s ! k = (r, cid, pid)" by (metis prod.exhaust)
  have r: "r < length (l_heap s)" and p: "pid_cell (l_heap s ! r) = Some pid"
    using assms(2) registry_watcher [of s r cid pid] nth_mem [OF True] w by (auto simp: svc_inv_def)
  obtain d x where d: "id_wait (unix_ops uenv) (l_world s) (l_heap s ! r) = (d, x)" by fastforce
  have "(pid, code) \<in> set hist" if "x = Some (code, t)" for code t
    using d that p trackedD(3) [OF heldD [OF assms(1)] r]
    by (auto simp: id_wait_def accounted_def unix_ops_def split: option.splits)
  then show ?thesis
    using assms(1) True w d tracked_wait [OF heldD [OF assms(1)] r d]
    by (auto simp: watcher_poll_def send_def held_def split: option.splits)
qed (use assms(1) in \<open>simp add: watcher_poll_def\<close>)

lemma held_svc_step:
  assumes "held hist s" and "svc_inv s"
  shows "held hist (svc_step (unix_shim_env uenv host) s (map_label (\<lambda>y. (l_world s)\<lparr>uw_os := y\<rparr>) l))"
proof (cases l)
  case (WaitPoll r)
  then show ?thesis
    using assms(1) held_wait_now [OF assms(1), of r "unix_shim_env uenv host" True]
    by (auto simp: wait_poll_def split: prod.splits)
next
  case (World y)
  then show ?thesis
    using assms(1) tracked_zygote [OF heldD [OF assms(1)] zygote_step_os(1), of y] by (simp add: held_def)
next
  case Shutdown
  then show ?thesis using assms(1) by (simp add: held_def shutdown_def)
qed (simp_all add: assms held_create held_start held_kill held_delete held_state held_watch)

definition node_inv :: "('y, 'c) node \<Rightarrow> bool" where
  "node_inv n \<longleftrightarrow> svc_inv (nd_local n) \<and> held (nd_waited n) (nd_local n)"

lemma node_inv_step:
  assumes "node_inv n"
  shows "node_inv (node_step uenv host n l)"
proof (cases l)
  case (Svc m)
  then show ?thesis using assms held_svc_step inv_step by (auto simp: node_inv_def)
next
  case (Waited k res)
  obtain c p where "k < length (uw_tasks (l_world (nd_local n))) \<Longrightarrow> uw_tasks (l_world (nd_local n)) ! k = (c, p)"
    by (metis prod.exhaust)
  then show ?thesis
    using assms tracked_waited [of "nd_waited n" "l_world (nd_local n)" "l_heap (nd_local n)" k c p res uenv] Waited
    by (auto simp: node_inv_def held_def Let_def)
qed

lemma node_inv_new: "node_inv (node_new y ns address)"
  by (simp add: node_inv_def node_new_def inv_new) (simp add: held_def tracked_def local_new_def statuses_def)

lemma node_inv_run: "node_inv (node_run uenv host (node_new y ns address) ls)"
  by (rule node.run_invariant [where I = node_inv]) (auto intro: node_inv_new node_inv_step)

text \<open>C4: The exit status that containerd is told is that of the container's own process. In every state the shim can
  reach, by any requests and whatever the waits for processes return in whatever order: every \<open>TaskExit\<close> event has the
  pid and the exit status of a wait for that pid that has returned; and an instance that was started either has a status that a wait for
  its pid returned, or the wait for its pid is still running and will write into the cell of this instance.\<close>

theorem reported_status_is_of_own_process:
  "let n = node_run uenv host (node_new y ns address) ls; s = nd_local n
   in set (statuses (l_events s)) \<subseteq> set (nd_waited n)
      \<and> list_all (\<lambda>d. case pid_cell d of None \<Rightarrow> True
          | Some p \<Rightarrow>
              (case unix_wait (l_world s) (inst d) of
                 None \<Rightarrow> (un_cell (inst d), p) \<in> set (uw_tasks (l_world s))
               | Some (code, _) \<Rightarrow> (p, code) \<in> set (nd_waited n))) (l_heap s)"
  using node_inv_run [of uenv host y ns address ls]
  by (auto simp: Let_def node_inv_def held_def tracked_def list_all_length accounted_def split: option.splits)

section \<open>Every start is followed by an exit\<close>

text \<open>With no wait outstanding, the first watcher has something to announce.\<close>

lemma watch_when_idle:
  assumes inv: "node_inv n" and idle: "uw_tasks (l_world (nd_local n)) = []" and ne: "l_watchers (nd_local n) \<noteq> []"
  shows "let m = node_step uenv host n (Svc (Watch 0))
    in l_watchers (nd_local m) = tl (l_watchers (nd_local n)) \<and> uw_tasks (l_world (nd_local m)) = []"
proof -
  let ?s = "nd_local n"
  obtain r cid pid ws where w: "l_watchers ?s = (r, cid, pid) # ws" using ne by (cases "l_watchers ?s") auto
  have "r < length (l_heap ?s)" and "pid_cell (l_heap ?s ! r) = Some pid"
    using inv registry_watcher [of ?s r cid pid] w by (auto simp: node_inv_def svc_inv_def)
  then have "unix_wait (l_world ?s) (inst (l_heap ?s ! r)) \<noteq> None"
    using inv idle trackedD(3) [OF heldD, of "nd_waited n" ?s r] by (auto simp: node_inv_def accounted_def)
  then show ?thesis
    using w idle by (auto simp: watcher_poll_def id_wait_def unix_ops_def send_def)
qed

lemma watch_all_when_idle:
  assumes "node_inv n" and "uw_tasks (l_world (nd_local n)) = []"
  shows "l_watchers (nd_local (node_run uenv host n (replicate (length (l_watchers (nd_local n))) (Svc (Watch 0))))) = []"
  using assms
proof (induction "length (l_watchers (nd_local n))" arbitrary: n)
  case (Suc k)
  let ?m = "node_step uenv host n (Svc (Watch 0))"
  have m: "l_watchers (nd_local ?m) = tl (l_watchers (nd_local n))" "uw_tasks (l_world (nd_local ?m)) = []"
    using watch_when_idle [OF Suc.prems, of uenv host] Suc.hyps(2) by (metis Zero_not_Suc list.size(3))+
  then have "k = length (l_watchers (nd_local ?m))" using Suc.hyps(2) by (metis diff_Suc_1 length_tl)
  from Suc.hyps(1) [OF this node_inv_step [OF Suc.prems(1)] m(2)] this show ?case
    by (simp flip: Suc.hyps(2) del: node_step.simps)
qed simp

lemma waits_end:
  "uw_tasks (l_world (nd_local (node_run uenv host n
     (map (\<lambda>k. Waited 0 (f k)) [i ..< i + length (uw_tasks (l_world (nd_local n)))])))) = []
   \<and> l_watchers (nd_local (node_run uenv host n
     (map (\<lambda>k. Waited 0 (f k)) [i ..< i + length (uw_tasks (l_world (nd_local n)))]))) = l_watchers (nd_local n)"
proof (induction "length (uw_tasks (l_world (nd_local n)))" arbitrary: n i)
  case (Suc m)
  let ?n = "node_step uenv host n (Waited 0 (f i))"
  obtain c p ts where t: "uw_tasks (l_world (nd_local n)) = (c, p) # ts"
    using Suc.hyps(2) by (cases "uw_tasks (l_world (nd_local n))") auto
  then have n: "uw_tasks (l_world (nd_local ?n)) = ts" "l_watchers (nd_local ?n) = l_watchers (nd_local n)"
    using exit_task_effect(3) [of 0 "l_world (nd_local n)" c p uenv "f i"] by (simp_all add: Let_def)
  then have "m = length (uw_tasks (l_world (nd_local ?n)))" using Suc.hyps(2) t by simp
  from Suc.hyps(1) [OF this, of "Suc i"] show ?case
    using n t by (simp add: upt_conv_Cons del: upt_Suc node_step.simps)
qed simp

text \<open>C6: Nothing that was started is forgotten: from every state the shim can reach, when the processes that are waited for
  end, whatever their waits return (an error, a panic of the task included), and the background tasks of the service
  are polled once each, then every \<open>TaskStart\<close> that was ever sent has been followed by its \<open>TaskExit\<close>.\<close>

theorem every_start_is_followed_by_exit:
  "let n = node_run uenv host (node_new y ns address) ls; s = nd_local n;
       m = node_run uenv host n (map (\<lambda>k. Waited 0 (f k)) [0 ..< length (uw_tasks (l_world s))]
             @ replicate (length (l_watchers s)) (Svc (Watch 0)))
   in l_watchers (nd_local m) = [] \<and> starts (l_events (nd_local m)) = exits (l_events (nd_local m))"
proof -
  let ?n = "node_run uenv host (node_new y ns address) ls"
  let ?w = "node_run uenv host ?n (map (\<lambda>k. Waited 0 (f k)) [0 ..< length (uw_tasks (l_world (nd_local ?n)))])"
  let ?m = "node_run uenv host ?w (replicate (length (l_watchers (nd_local ?w))) (Svc (Watch 0)))"
  have inv: "node_inv ?w"
    by (rule node.run_invariant [where I = node_inv]) (auto intro: node_inv_run node_inv_step simp del: node_step.simps)
  have w: "uw_tasks (l_world (nd_local ?w)) = []" "l_watchers (nd_local ?w) = l_watchers (nd_local ?n)"
    using waits_end [of uenv host ?n f 0] by simp_all
  have "l_watchers (nd_local ?m) = []" using watch_all_when_idle [OF inv w(1)] .
  moreover have "node_inv ?m"
    by (rule node.run_invariant [where I = node_inv]) (auto intro: inv node_inv_step simp del: node_step.simps)
  ultimately show ?thesis
    by (simp add: Let_def node.run_append node_inv_def svc_inv_def w(2))
qed

end
