(* ===== verification/Guest_Status.thy ===== *)
theory Guest_Status
  imports Unix_Node Engines
begin

text \<open>
  The way of an exit code from the guest to containerd, through every layer: the engine (\<open>run_wasi\<close>), the executor inside the
  container (\<open>executor.rs\<close>), the kernel, the wait for the process (\<open>pid_fd.rs\<close>), the task that stores the status
  (\<open>instance.rs\<close>), and the replies of the task service (\<open>local.rs\<close>).
\<close>

section \<open>After the wait has returned\<close>

lemma started_has_wait:
  assumes "node_inv n" and "r < length (l_heap (nd_local n))" and "pid_cell (l_heap (nd_local n) ! r) = Some p"
    and "unix_wait (l_world (nd_local n)) (inst (l_heap (nd_local n) ! r)) = None"
  obtains k where "k < length (uw_tasks (l_world (nd_local n)))"
    and "uw_tasks (l_world (nd_local n)) ! k = (un_cell (inst (l_heap (nd_local n) ! r)), p)"
  using assms trackedD(3) [OF heldD, of "nd_waited n" "nd_local n" r]
  by (auto simp: node_inv_def accounted_def in_set_conv_nth)

lemma waited_status:
  assumes "node_inv n" and "s = nd_local n" and "r < length (l_heap s)" and "unix_wait (l_world s) (inst (l_heap s ! r)) = None"
    and "k < length (uw_tasks (l_world s))" and "uw_tasks (l_world s) ! k = (un_cell (inst (l_heap s ! r)), p)"
  shows "unix_wait (exit_task uenv (l_world s) k res) (inst (l_heap s ! r)) =
     Some (exit_status res, ux_now uenv (uw_os (l_world s)))"
  using exit_task_effect(1) [OF assms(5,6)] assms trackedD(3) [OF heldD, of "nd_waited n" s r]
  by (simp add: node_inv_def accounted_def unix_valid_def)

text \<open>The replies to \<open>wait\<close> and to \<open>state\<close> when the instance has a status.\<close>

lemma replies_with_status:
  assumes "map_of (l_instances s) cid = Some r" and "r < length (l_heap s)" and "pid_cell (l_heap s ! r) = Some p"
    and "i_poll (e_ops env) (l_world s) (inst (l_heap s ! r)) = Some (code, t)"
  shows "snd (wait_poll env s r) = Some \<lparr>wr_exit_status = code, wr_exited_at = Some (to_timestamp t)\<rparr>"
    and "\<exists>resp. snd (task_state env s cid [] True) = Ok resp \<and> sr_status resp = STOPPED \<and> sr_pid resp = p
      \<and> sr_exit_status resp = code \<and> sr_exited_at resp = Some (to_timestamp t)"
  using assms
  by (simp_all add: wait_poll_def wait_now_def id_wait_def task_state_def get_instance_def Let_def id_pid_def
      status_of_def unwrap_or_default_def)

section \<open>From the guest to containerd\<close>

text \<open>From the end of the process on: what the wait returns is what the replies say.\<close>

lemma process_status_reported:
  assumes "s = nd_local (node_run uenv host (node_new y ns address) ls)"
    and "map_of (l_instances s) cid = Some r" and "pid_cell (l_heap s ! r) = Some p"
    and "unix_wait (l_world s) (inst (l_heap s ! r)) = None" and "exit_status res = code"
  shows "\<exists>k t. k < length (uw_tasks (l_world s)) \<and> snd (uw_tasks (l_world s) ! k) = p \<and>
     (let env = unix_shim_env uenv host; s' = s\<lparr>l_world := exit_task uenv (l_world s) k res\<rparr>
      in snd (wait_poll env s' r) = Some \<lparr>wr_exit_status = code, wr_exited_at = Some t\<rparr>
         \<and> (\<exists>resp. snd (task_state env s' cid [] True) = Ok resp \<and> sr_status resp = STOPPED \<and> sr_pid resp = p
              \<and> sr_exit_status resp = code \<and> sr_exited_at resp = Some t))"
proof -
  let ?n = "node_run uenv host (node_new y ns address) ls"
  have inv: "node_inv ?n" by (rule node_inv_run)
  then have r: "r < length (l_heap s)" using assms(1,2) registry_heap by (auto simp: node_inv_def svc_inv_def)
  obtain k where k: "k < length (uw_tasks (l_world s))" "uw_tasks (l_world s) ! k = (un_cell (inst (l_heap s ! r)), p)"
    using started_has_wait [OF inv] r assms(1,3,4) by blast
  let ?s = "s\<lparr>l_world := exit_task uenv (l_world s) k res\<rparr>"
  have "i_poll (e_ops (unix_shim_env uenv host)) (l_world ?s) (inst (l_heap ?s ! r)) =
      Some (code, ux_now uenv (uw_os (l_world s)))"
    using waited_status [OF inv assms(1) r assms(4) k, of uenv res] assms(5) by (simp add: unix_ops_def)
  from replies_with_status [OF _ _ _ this] assms(2,3) r k show ?thesis
    by (intro exI [of _ k] exI [of _ "to_timestamp (ux_now uenv (uw_os (l_world s)))"]) (simp add: Let_def)
qed

text \<open>C8: The exit code of a guest arrives at containerd. In every state the shim can reach, for a started container without
  an exit status: when the engine returns a code in the container's process, or fails, the executor ends the
  process; the kernel reports the low eight bits of the status; the wait, however often it found the process alive before, returns it;
  and then a \<open>wait\<close> request is answered with it, and a \<open>state\<close> request says \<open>STOPPED\<close> with it and with the pid of the process. A guest
  that could not be run or trapped is reported as 137; a code above 255 is cut to its low eight bits.\<close>

theorem guest_status_reaches_containerd:
  fixes kernel :: "exec_outcome \<Rightarrow> wait_status"
  assumes "s = nd_local (node_run uenv host (node_new y ns address) ls)"
    and "map_of (l_instances s) cid = Some r" and "pid_cell (l_heap s ! r) = Some p"
    and "unix_wait (l_world s) (inst (l_heap s ! r)) = None"
    and "ex_ty ex = Some Wasm" and "\<not> is_panic (guest (executor_ctx ex spec))"
    and "\<And>c. kernel (ProcessExit c) = WExited p (take_bit 8 c)"
    and "pidfd_wait p subs (replicate j (Ok WStillAlive, Ok ())
           @ [(Ok (kernel (snd (exec f handles guest shim ex spec))), x)]) = Some res"
  shows "\<exists>k t. k < length (uw_tasks (l_world s)) \<and> snd (uw_tasks (l_world s) ! k) = p \<and>
     (let env = unix_shim_env uenv host; s' = s\<lparr>l_world := exit_task uenv (l_world s) k res\<rparr>;
          code = (case guest (executor_ctx ex spec) of Ok c \<Rightarrow> take_bit 8 c | _ \<Rightarrow> 137)
      in snd (wait_poll env s' r) = Some \<lparr>wr_exit_status = code, wr_exited_at = Some t\<rparr>
         \<and> (\<exists>resp. snd (task_state env s' cid [] True) = Ok resp \<and> sr_status resp = STOPPED \<and> sr_pid resp = p
              \<and> sr_exit_status resp = code \<and> sr_exited_at resp = Some t))"
proof -
  have "take_bit 8 (137 :: i32) = 137" by (simp add: take_bit_eq_mod)
  then have "kernel (snd (exec f handles guest shim ex spec))
      = WExited p (case guest (executor_ctx ex spec) of Ok c \<Rightarrow> take_bit 8 c | _ \<Rightarrow> 137)"
    using assms(5,6,7) by (cases "guest (executor_ctx ex spec)") (simp_all add: exec_def executor_ty_def)
  then have "exit_status res = (case guest (executor_ctx ex spec) of Ok c \<Rightarrow> take_bit 8 c | _ \<Rightarrow> 137)"
    using assms(8) by (auto simp: pidfd_wait_alive)
  from process_status_reported [OF assms(1-4) this] show ?thesis unfolding Let_def .
qed

text \<open>A container that runs: the start of \<open>broken_env\<close> replaced by one that succeeds, on a host without files.\<close>

definition working_env :: "(unit, unit) unix_env" where
  "working_env = broken_env\<lparr>ux_start := (\<lambda>y c. ((y, c), Ok ()))\<rparr>"

definition demo_host :: "(unit, unit, unit) shim_env" where
  "demo_host = demo_env
     \<lparr>i_new = (\<lambda>w c cfg. (w, Ok ())), i_start = (\<lambda>w i. (w, Ok 1)), i_kill = (\<lambda>w i sig. (w, Ok ())),
      i_delete = (\<lambda>w i. (w, Ok ())), i_poll = (\<lambda>w i. None)\<rparr>"

definition demo_started :: "((unit, unit) unix_world, unix_instance) local" where
  "demo_started = nd_local (node_run working_env demo_host (node_new () ''ns'' ''a'')
     [Svc (Create demo_request), Svc (Start ''c1'' [])])"

lemma demo_started_facts:
  "map_of (l_instances demo_started) ''c1'' = Some 0" "pid_cell (l_heap demo_started ! 0) = Some 100"
  "unix_wait (l_world demo_started) (inst (l_heap demo_started ! 0)) = None"
  by (simp_all add: demo_started_def demo_host_def working_env_def broken_env_def node_new_def demo_defs handler_defs
      unix_shim_env_def unix_ops_def unix_new_def oci_client_def container_build_def run_init_def run_impl_def
      build_container_def determine_rootdir_def path_join_def is_absolute_def DEFAULT_CONTAINER_ROOT_DIR_def Let_def
      unix_start_def container_pid_def container_start_def run_container_def pidfd_new_def lift_os_def unix_wait_def
      wc_new_def wc_wait_def)

theorem guest_status_reaches_containerd_witness:
  "\<exists>s k t. snd (uw_tasks (l_world s) ! k) = 100
     \<and> snd (wait_poll (unix_shim_env working_env demo_host)
            (s\<lparr>l_world := exit_task working_env (l_world s) k (Ok (WExited 100 42))\<rparr>) 0)
        = Some \<lparr>wr_exit_status = 42, wr_exited_at = Some t\<rparr>"
proof -
  let ?ex = "\<lparr>ex_ty = Some Wasm, ex_layers = [demo_wasm_layer]\<rparr>"
  define kernel where "kernel = (\<lambda>out. case out of ProcessExit c \<Rightarrow> WExited 100 (take_bit 8 c) | _ \<Rightarrow> WOther)"
  have k: "kernel (ProcessExit c) = WExited 100 (take_bit 8 c)" for c by (simp add: kernel_def)
  have e: "snd (exec demo_fs (\<lambda>_. Ok ()) (\<lambda>_. Ok 298) ''wasmtime'' ?ex None) = ProcessExit 298"
    by (simp add: exec_def executor_ty_def)
  have p: "pidfd_wait 100 [] (replicate 2 (Ok WStillAlive, Ok ()) @ [(Ok (kernel (snd
      (exec demo_fs (\<lambda>_. Ok ()) (\<lambda>_. Ok 298) ''wasmtime'' ?ex None))), Ok ())]) = Some (Ok (WExited 100 42))"
    by (simp add: pidfd_wait_alive e k take_bit_eq_mod)
  show ?thesis
    using guest_status_reaches_containerd [OF demo_started_def demo_started_facts _ _ k p]
    by (simp add: take_bit_eq_mod Let_def) blast
qed

end
