(* ===== verification/Container_Isolation.thy ===== *)
theory Container_Isolation
  imports Guest_Status
begin

text \<open>
  Containers of one shim process do not disturb each other. A shim serves all containers of a pod with one task service, one list of instances,
  one list of exit cells and one set of background tasks (\<open>Unix_Node\<close>). The view of a container is what the reply to
  \<open>State\<close> depends on; every step that is not a create, start or delete of the container itself, or the end of its own process, keeps
  it. One lemma per operation, then the theorem for every step and every run.
\<close>

section \<open>The view of a container\<close>

type_synonym ('y, 'c) unix_local = "(('y, 'c) unix_world, unix_instance) local"

definition look :: "('y, 'c) unix_local \<Rightarrow> nat \<Rightarrow> unix_instance \<times> instance_config \<times> u32 option \<times> exit_info option" where
  "look s r = (let d = l_heap s ! r in (inst d, id_config d, pid_cell d, unix_wait (l_world s) (inst d)))"

definition view ::
  "('y, 'c) unix_local \<Rightarrow> string \<Rightarrow> (unix_instance \<times> instance_config \<times> u32 option \<times> exit_info option) option" where
  "view s cid = map_option (look s) (map_of (l_instances s) cid)"

text \<open>Same view, same reply.\<close>

lemma wait_now_unix: "snd (wait_now (unix_shim_env uenv host) s r free) = (if free then unix_wait (l_world s) (inst (l_heap s ! r)) else None)"
  by (auto simp: wait_now_def id_wait_def unix_ops_def split: option.splits)

lemma state_of_view:
  assumes "view s cid = view t cid"
  shows "snd (task_state (unix_shim_env uenv host) s cid exec_id free) = snd (task_state (unix_shim_env uenv host) t cid exec_id free)"
proof (cases "map_of (l_instances s) cid")
  case None
  then show ?thesis using assms by (simp add: view_def Local_Service.task_state_def get_instance_def)
next
  case (Some r)
  then obtain q where q: "map_of (l_instances t) cid = Some q" and same: "look s r = look t q"
    using assms by (cases "map_of (l_instances t) cid") (auto simp: view_def)
  then show ?thesis
    using Some wait_now_unix [of uenv host s r free] wait_now_unix [of uenv host t q free]
    by (auto simp: Local_Service.task_state_def get_instance_def look_def id_pid_def Let_def split: prod.splits)
qed

text \<open>The other requests that only ask: \<open>Connect\<close> and \<open>Wait\<close>.\<close>

definition wait_reply :: "(('y, 'c) unix_world, unix_instance, 'm) shim_env \<Rightarrow> ('y, 'c) unix_local \<Rightarrow> string \<Rightarrow> wait_response option sandbox_result" where
  "wait_reply env s cid = and_then (task_wait s cid []) (\<lambda>r. Ok (snd (wait_poll env s r)))"

lemma queries_of_view:
  assumes "view s cid = view t cid"
  shows "Local_Service.connect (unix_shim_env uenv host) s cid = Local_Service.connect (unix_shim_env uenv host) t cid"
    and "wait_reply (unix_shim_env uenv host) s cid = wait_reply (unix_shim_env uenv host) t cid"
proof -
  have wait: "snd (wait_poll (unix_shim_env uenv host) u r) = map_option (\<lambda>(code, at). \<lparr>wr_exit_status = code,
      wr_exited_at = Some (to_timestamp at)\<rparr>) (unix_wait (l_world u) (inst (l_heap u ! r)))" for u r
    using wait_now_unix [of uenv host u r True] by (cases "wait_now (unix_shim_env uenv host) u r True") (simp add: wait_poll_def)
  have "Local_Service.connect (unix_shim_env uenv host) s cid = Local_Service.connect (unix_shim_env uenv host) t cid
    \<and> wait_reply (unix_shim_env uenv host) s cid = wait_reply (unix_shim_env uenv host) t cid"
    using assms
    by (cases "map_of (l_instances s) cid"; cases "map_of (l_instances t) cid")
      (simp_all add: view_def look_def Let_def Local_Service.connect_def wait_reply_def task_wait_def get_instance_def id_pid_def wait)
  then show "Local_Service.connect (unix_shim_env uenv host) s cid = Local_Service.connect (unix_shim_env uenv host) t cid"
    and "wait_reply (unix_shim_env uenv host) s cid = wait_reply (unix_shim_env uenv host) t cid" by blast+
qed

section \<open>Worlds that agree on the cells in use\<close>

definition keeps :: "('y, 'c) unix_world \<Rightarrow> ('y, 'c) unix_world \<Rightarrow> bool" where
  "keeps w w' \<longleftrightarrow> (\<forall>i. unix_valid w i \<longrightarrow> unix_valid w' i \<and> unix_wait w' i = unix_wait w i)"

lemma keeps_trans: "keeps a b \<Longrightarrow> keeps b c \<Longrightarrow> keeps a c"
  by (simp add: keeps_def)

lemma keeps_step: "zygote_step w w' \<Longrightarrow> keeps w w'"
  by (simp add: keeps_def unix_valid_step unix_wait_step)

lemma keeps_new: "unix_new env w cid cfg = (w', x) \<Longrightarrow> keeps w w'"
proof -
  assume new: "unix_new env w cid cfg = (w', x)"
  obtain w1 where z: "zygote_step w w1" and c: "w' = w1 \<or> w' = w1\<lparr>uw_cells := uw_cells w1 @ [wc_new]\<rparr>"
    using unix_new_step [OF new] by blast
  have "keeps w1 w'" using c by (auto simp: keeps_def unix_valid_def unix_wait_def nth_append)
  then show ?thesis using keeps_trans keeps_step [OF z] by blast
qed

lemma keeps_id_new: "keeps w (fst (id_new (unix_ops uenv) w cid cfg))"
proof -
  obtain v x where "unix_new uenv w cid cfg = (v, x)" by fastforce
  then show ?thesis using keeps_new [of uenv w cid cfg v x] by (cases x) (auto simp: id_new_def unix_ops_def)
qed

lemma on_world_world: "l_world (fst (on_world t f)) = fst (f (l_world t))"
  by (simp add: on_world_def split: prod.splits)

lemma keeps_create_instance: "keeps (l_world s) (l_world (fst (create_instance (unix_shim_env uenv host) s req)))"
proof -
  let ?env = "unix_shim_env uenv host" and ?P = "\<lambda>t. keeps (l_world s) (l_world t)"
  have refl: "?P s" by (simp add: keeps_def)
  have mounted: "?P (fst (on_world s (\<lambda>w. mount_all ?env rootfs ms (fst (e_create_dir_all ?env w rootfs)))))" for rootfs ms
    by (simp only: on_world_world keeps_step [OF mounts_step])
  have new: "?P (fst (on_world t (\<lambda>w. id_new (e_ops ?env) w cid cfg)))" if "?P t" for t cid cfg
    using keeps_trans [OF that keeps_id_new] by (simp only: on_world_world unix_shim_env_simps)
  have built: "?P (fst (st_then (on_world t (\<lambda>w. id_new (e_ops ?env) w cid cfg)) (\<lambda>s d. (s, Ok (spec, d)))))" if "?P t" for t cid cfg spec
    by (rule fst_st_then_keep [where P = ?P]) (use new [OF that] in simp_all)
  have "?P (fst (st_then (on_world s (\<lambda>w. mount_all ?env rootfs ms (fst (e_create_dir_all ?env w rootfs))))
      (\<lambda>s _. st_then (on_world s (\<lambda>w. id_new (e_ops ?env) w cid (instance_config_of s req config))) (\<lambda>s d. (s, Ok (spec, d))))))"
    for rootfs ms cid config spec
    by (rule fst_st_then_keep [where P = ?P, OF mounted]) (rule built)
  then show ?thesis
    unfolding create_instance_def
    by (cases "create_check ?env s req"; cases "create_spec ?env (l_world s) req") (auto simp: refl)
qed

section \<open>Every operation keeps the views of the others\<close>

lemma view_frame:
  assumes "map_of (l_instances t) cid = map_of (l_instances s) cid"
    and "\<And>r. map_of (l_instances s) cid = Some r \<Longrightarrow> look t r = look s r"
  shows "view t cid = view s cid"
  using assms by (cases "map_of (l_instances s) cid") (auto simp: view_def)

text \<open>What the invariant says of a registered container.\<close>

definition own_cells :: "('y, 'c) unix_local \<Rightarrow> bool" where
  "own_cells s \<longleftrightarrow> svc_inv s \<and> (\<exists>hist. tracked hist (l_world s) (l_heap s))"

lemma own_cellsD:
  assumes "own_cells s" and "map_of (l_instances s) cid = Some r"
  shows "r < length (l_heap s)" and "unix_valid (l_world s) (inst (l_heap s ! r))"
    and "map_of (l_instances s) c = Some q \<Longrightarrow> c \<noteq> cid \<Longrightarrow> q \<noteq> r"
    and "q < length (l_heap s) \<Longrightarrow> q \<noteq> r \<Longrightarrow> un_cell (inst (l_heap s ! q)) \<noteq> un_cell (inst (l_heap s ! r))"
proof -
  show r: "r < length (l_heap s)"
    using assms by (auto simp: own_cells_def svc_inv_def intro: registry_heap)
  show "unix_valid (l_world s) (inst (l_heap s ! r))"
    using assms r trackedD(3) by (force simp: own_cells_def accounted_def)
  show "map_of (l_instances s) c = Some q \<Longrightarrow> c \<noteq> cid \<Longrightarrow> q \<noteq> r"
    using assms registry_inj by (auto simp: own_cells_def svc_inv_def)
  show "q < length (l_heap s) \<Longrightarrow> q \<noteq> r \<Longrightarrow> un_cell (inst (l_heap s ! q)) \<noteq> un_cell (inst (l_heap s ! r))"
    using assms(1) r trackedD(1) unfolding own_cells_def by blast
qed

lemma look_world:
  assumes "own_cells s" and "map_of (l_instances s) cid = Some r" and "keeps (l_world s) (l_world t)" and "l_heap t ! r = l_heap s ! r"
  shows "look t r = look s r"
  using own_cellsD(2) [OF assms(1,2)] assms(3,4) by (simp add: look_def keeps_def Let_def)

text \<open>A poll changes the state of the task at most.\<close>

lemma look_wait_now: "look (fst (wait_now (unix_shim_env uenv host) s q free)) r = look s r"
  by (cases "q < length (l_heap s)"; cases "q = r")
    (auto simp: wait_now_def look_def Let_def id_wait_def nth_list_update not_less list_update_beyond split: option.splits)

lemma view_wait_now: "view (fst (wait_now (unix_shim_env uenv host) s q free)) cid = view s cid"
proof (rule view_frame)
  show "map_of (l_instances (fst (wait_now (unix_shim_env uenv host) s q free))) cid = map_of (l_instances s) cid"
    using wait_now_instances by (metis prod.collapse)
qed (rule look_wait_now)

lemma view_state: "view (fst (task_state (unix_shim_env uenv host) s c exec_id free)) cid = view s cid"
proof (cases "get_instance s c")
  case (Ok q)
  then show ?thesis using view_wait_now [of uenv host s q free cid] by (auto simp: Local_Service.task_state_def Let_def split: prod.splits)
qed (simp_all add: Local_Service.task_state_def)

lemma view_watch: "view (watcher_poll (unix_shim_env uenv host) s k) cid = view s cid"
proof (cases "k < length (l_watchers s)")
  case True
  obtain q c pid where w: "l_watchers s ! k = (q, c, pid)" by (metis prod.exhaust)
  obtain d x where d: "id_wait (unix_ops uenv) (l_world s) (l_heap s ! q) = (d, x)" by fastforce
  have "view (s\<lparr>l_heap := (l_heap s)[q := d]\<rparr>) cid = view s cid"
    using view_wait_now [of uenv host s q True cid] d by (simp add: wait_now_def)
  then show ?thesis
    using True w d by (cases x) (auto simp: watcher_poll_def send_def view_def look_def [abs_def])
qed (simp add: watcher_poll_def)

text \<open>A signal does not change the view of any container, not even of its own.\<close>

lemma view_kill:
  assumes "own_cells s"
  shows "view (fst (task_kill (unix_shim_env uenv host) s c exec_id sig)) cid = view s cid"
proof (cases "get_instance s c")
  case (Ok q)
  obtain w d x where k: "id_kill (unix_ops uenv) (l_world s) (l_heap s ! q) sig = ((w, d), x)" by (metis prod.exhaust)
  then have "d = l_heap s ! q" and "zygote_step (l_world s) w"
    using zygote_step_kill_delete(1) [of "l_world s" uenv "inst (l_heap s ! q)" sig]
    by (auto simp: id_kill_cases unix_ops_def split: prod.splits if_splits)
  then have "view (s\<lparr>l_world := w, l_heap := (l_heap s)[q := d]\<rparr>) cid = view s cid"
    by (intro view_frame look_world [OF assms]) (auto intro: keeps_step)
  then show ?thesis using Ok k by (simp add: task_kill_def on_inst_def)
qed (simp_all add: task_kill_def)

lemma start_other:
  assumes "id_start (unix_ops env) w d = ((w', d'), x)" and "un_cell i \<noteq> un_cell (inst d)" and "unix_valid w i"
  shows "unix_wait w' i = unix_wait w i"
proof -
  obtain w1 y where s: "start_steps env w (inst d) = (w1, y)" by fastforce
  have "unix_wait (w1\<lparr>uw_tasks := ts\<rparr>) i = unix_wait w1 i" for ts by (simp add: unix_wait_def)
  moreover have "unix_wait w1 i = unix_wait w i" using unix_wait_step [of w w1 i] zygote_step_start [of w env "inst d"] s by simp
  ultimately show ?thesis
    using assms s by (cases y) (auto simp: id_start_cases unix_ops_def unix_start_eq unix_wait_set_exit split: if_splits)
qed

lemma view_start:
  assumes "own_cells s" and "c \<noteq> cid"
  shows "view (fst (task_start (unix_shim_env uenv host) s c exec_id)) cid = view s cid"
proof (cases "get_instance s c")
  case (Ok q)
  obtain w d x where k: "id_start (unix_ops uenv) (l_world s) (l_heap s ! q) = ((w, d), x)" by (metis prod.exhaust)
  have q: "map_of (l_instances s) c = Some q" using Ok by (simp add: get_instance_Ok)
  let ?t = "s\<lparr>l_world := w, l_heap := (l_heap s)[q := d]\<rparr>"
  have "view ?t cid = view s cid"
  proof (rule view_frame)
    fix r
    assume r: "map_of (l_instances s) cid = Some r"
    have "q \<noteq> r" using own_cellsD(3) [OF assms(1) r q assms(2)] .
    then show "look ?t r = look s r"
      using start_other [OF k] own_cellsD(2) [OF assms(1) r] own_cellsD(4) [OF assms(1) r own_cellsD(1) [OF assms(1) q]]
      by (auto simp: look_def Let_def)
  qed simp
  then show ?thesis
    using Ok k by (cases x) (auto simp: task_start_def on_inst_def start_finish_def send_def view_def look_def [abs_def])
qed (simp_all add: task_start_def)

lemma view_delete:
  assumes "own_cells s" and "c \<noteq> cid"
  shows "view (fst (task_delete (unix_shim_env uenv host) s c exec_id free)) cid = view s cid"
proof (cases "get_instance s c")
  case (Ok q)
  obtain w d x where k: "id_delete (unix_ops uenv) (l_world s) (l_heap s ! q) = ((w, d), x)" by (metis prod.exhaust)
  have q: "map_of (l_instances s) c = Some q" using Ok by (simp add: get_instance_Ok)
  let ?t = "s\<lparr>l_world := w, l_heap := (l_heap s)[q := d]\<rparr>"
  have z: "zygote_step (l_world s) w"
    using k zygote_step_kill_delete(2) [of "l_world s" uenv "inst (l_heap s ! q)"]
    by (auto simp: id_delete_cases unix_ops_def split: prod.splits result.splits if_splits)
  have t: "view ?t cid = view s cid"
    using own_cellsD(3) [OF assms(1) _ q assms(2)] z by (intro view_frame look_world [OF assms(1)]) (auto intro: keeps_step)
  obtain u y where u: "wait_now (unix_shim_env uenv host) ?t q free = (u, y)" by fastforce
  have "view u cid = view s cid" using view_wait_now [of uenv host ?t q free cid] t u by simp
  then have "view (fst (delete_finish u c pid y)) cid = view s cid" for pid
    using assms(2) by (auto simp: delete_finish_def send_def Let_def view_def look_def [abs_def] AList.delete_conv)
  then show ?thesis using Ok k t u by (cases x) (auto simp: task_delete_def on_inst_def)
qed (simp_all add: task_delete_def)

lemma view_create:
  assumes "own_cells s" and "cr_id req \<noteq> cid"
  shows "view (fst (task_create (unix_shim_env uenv host) s req)) cid = view s cid"
proof -
  let ?env = "unix_shim_env uenv host"
  obtain u x where u: "create_instance ?env s req = (u, x)" by fastforce
  obtain t res where t: "task_create ?env s req = (t, res)" by fastforce
  have ku: "keeps (l_world s) (l_world u)" using keeps_create_instance [of s uenv host req] u by simp
  show ?thesis
  proof (cases "\<exists>spec d. x = Ok (spec, d)")
    case True
    then obtain spec d where x: "x = Ok (spec, d)" by blast
    have heap: "l_heap t = l_heap s @ [d]" and z: "zygote_step (l_world u) (l_world t)"
      and ins: "map_of (l_instances t) = (map_of (l_instances s))(cr_id req \<mapsto> length (l_heap s))"
      using task_create_shape [of ?env s req] hooks_step [of "l_world u" "e_proc host" "e_pid ?env" "sp_hooks spec"] t u x
      by (auto simp: Let_def split: prod.splits)
    have "view t cid = view s cid"
    proof (rule view_frame)
      fix r
      assume r: "map_of (l_instances s) cid = Some r"
      show "look t r = look s r"
        using own_cellsD(1) [OF assms(1) r] keeps_trans [OF ku keeps_step [OF z]]
        by (intro look_world [OF assms(1) r]) (auto simp: heap nth_append)
    qed (use ins assms(2) in simp)
    then show ?thesis using t by simp
  next
    case False
    then have "t = s\<lparr>l_world := l_world u\<rparr>"
      using u t create_instance_world [of s ?env req]
      by (cases x) (auto simp: task_create_def same_service_def)
    then show ?thesis using t ku by (auto intro!: view_frame look_world [OF assms(1)])
  qed
qed

section \<open>Isolation\<close>

text \<open>The steps that are about a container: its own requests to create, start and delete it, and the end of its own process. Signals,
  queries, polls and changes of the operating system are not among them.\<close>

fun concerns :: "('y, 'c) node \<Rightarrow> string \<Rightarrow> 'y node_label \<Rightarrow> bool" where
  "concerns n cid (Svc (Create req)) = (cr_id req = cid)"
| "concerns n cid (Svc (Start c exec_id)) = (c = cid)"
| "concerns n cid (Svc (Delete c exec_id free)) = (c = cid)"
| "concerns n cid (Svc _) = False"
| "concerns n cid (Waited k res) =
     (case map_of (l_instances (nd_local n)) cid of
        None \<Rightarrow> False
      | Some r \<Rightarrow> k < length (uw_tasks (l_world (nd_local n)))
          \<and> fst (uw_tasks (l_world (nd_local n)) ! k) = un_cell (inst (l_heap (nd_local n) ! r)))"

fun unconcerned ::
  "('y, 'c) unix_env \<Rightarrow> ('y, 'z, 'm) shim_env \<Rightarrow> string \<Rightarrow> ('y, 'c) node \<Rightarrow> 'y node_label list \<Rightarrow> bool" where
  "unconcerned uenv host cid n [] = True"
| "unconcerned uenv host cid n (l # ls) = (\<not> concerns n cid l \<and> unconcerned uenv host cid (node_step uenv host n l) ls)"

lemma node_own_cells: "node_inv n \<Longrightarrow> own_cells (nd_local n)"
  by (auto simp: node_inv_def own_cells_def held_def)

lemma view_svc_step:
  assumes "own_cells (nd_local n)" and "\<not> concerns n cid (Svc l)"
  shows "view (svc_step (unix_shim_env uenv host) (nd_local n) (map_label (\<lambda>y. (l_world (nd_local n))\<lparr>uw_os := y\<rparr>) l)) cid
    = view (nd_local n) cid"
proof (cases l)
  case (WaitPoll r)
  then show ?thesis
    using view_wait_now [of uenv host "nd_local n" r True cid] by (auto simp: wait_poll_def split: prod.splits)
next
  case (World y)
  then show ?thesis by (auto intro!: view_frame look_world [OF assms(1)] keeps_step)
next
  case Shutdown
  then show ?thesis by (simp add: shutdown_def view_def look_def [abs_def])
qed (use assms in \<open>simp_all add: view_create view_start view_kill view_delete view_state view_watch\<close>)

lemma view_waited:
  assumes "own_cells (nd_local n)" and "\<not> concerns n cid (Waited k res)"
  shows "view (nd_local (node_step uenv host n (Waited k res))) cid = view (nd_local n) cid"
proof (cases "k < length (uw_tasks (l_world (nd_local n)))")
  case True
  obtain c p where t: "uw_tasks (l_world (nd_local n)) ! k = (c, p)" by fastforce
  show ?thesis
  proof (rule view_frame)
    fix r
    assume r: "map_of (l_instances (nd_local n)) cid = Some r"
    then have "un_cell (inst (l_heap (nd_local n) ! r)) \<noteq> c" using assms(2) True t by auto
    then show "look (nd_local (node_step uenv host n (Waited k res))) r = look (nd_local n) r"
      using True exit_task_effect(1) [OF True t, of uenv res] by (simp add: look_def Let_def)
  qed (simp add: Let_def)
qed simp

lemma view_node_step:
  assumes "node_inv n" and "\<not> concerns n cid l"
  shows "view (nd_local (node_step uenv host n l)) cid = view (nd_local n) cid"
  using assms node_own_cells [OF assms(1)] view_svc_step view_waited by (cases l) (auto simp del: concerns.simps)

lemma view_node_run:
  "node_inv n \<Longrightarrow> unconcerned uenv host cid n ls \<Longrightarrow> view (nd_local (node_run uenv host n ls)) cid = view (nd_local n) cid"
proof (induction ls arbitrary: n)
  case (Cons l ls)
  then show ?case
    using Cons.IH [OF node_inv_step [OF Cons.prems(1), of uenv host l]] view_node_step [of n cid l uenv host]
    by (simp del: node_step.simps)
qed simp

text \<open>C7: Containers of one shim do not disturb each other. From every state that the shim can reach, whatever happens next to
  other containers (they are created, started, signalled and deleted, their starts fail, their processes end, background tasks and queries are
  polled, the operating system changes), the replies to \<open>State\<close>, \<open>Connect\<close> and \<open>Wait\<close> requests for a container stay the same: bundle, standard
  streams, pid, status, exit status and time of exit, that a wait is not answered yet, or that there is no such container. Only its own create, start and delete, and
  the end of its own process, change it; a signal to it does so only by ending the process.\<close>

theorem containers_are_isolated:
  assumes "n = node_run uenv host (node_new y ns address) before" and "unconcerned uenv host cid n ls"
  shows "let env = unix_shim_env uenv host; s = nd_local n; t = nd_local (node_run uenv host n ls)
    in snd (Local_Service.task_state env t cid exec_id free) = snd (Local_Service.task_state env s cid exec_id free)
       \<and> Local_Service.connect env t cid = Local_Service.connect env s cid \<and> wait_reply env t cid = wait_reply env s cid"
proof -
  have "node_inv n" unfolding assms(1) by (rule node_inv_run)
  from view_node_run [OF this assms(2)] show ?thesis unfolding Let_def by (intro conjI state_of_view queries_of_view)
qed

theorem containers_are_isolated_witness:
  "let env = unix_shim_env working_env demo_host;
       n = node_run working_env demo_host (node_new () ''ns'' ''a'') [Svc (Create demo_request), Svc (Start ''c1'' [])];
       m = node_run working_env demo_host n [Svc (Create (demo_request\<lparr>cr_id := ''c2''\<rparr>)), Svc (Start ''c2'' []),
             Waited 1 (Ok (WExited 100 1)), Svc (Kill ''c1'' [] 9), Svc (Delete ''c2'' [] True)]
   in snd (Local_Service.task_state env (nd_local m) ''c1'' [] True) = snd (Local_Service.task_state env (nd_local n) ''c1'' [] True)
      \<and> wait_reply env (nd_local m) ''c1'' = wait_reply env (nd_local n) ''c1''"
proof -
  let ?n = "node_run working_env demo_host (node_new () ''ns'' ''a'') [Svc (Create demo_request), Svc (Start ''c1'' [])]"
  have "unconcerned working_env demo_host ''c1'' ?n [Svc (Create (demo_request\<lparr>cr_id := ''c2''\<rparr>)), Svc (Start ''c2'' []),
             Waited 1 (Ok (WExited 100 1)), Svc (Kill ''c1'' [] 9), Svc (Delete ''c2'' [] True)]"
    by (simp add: demo_host_def working_env_def broken_env_def node_new_def demo_defs handler_defs
      unix_shim_env_def unix_ops_def unix_new_def oci_client_def container_build_def run_init_def run_impl_def
      build_container_def determine_rootdir_def path_join_def is_absolute_def DEFAULT_CONTAINER_ROOT_DIR_def Let_def
      unix_start_def container_pid_def container_start_def run_container_def pidfd_new_def lift_os_def unix_wait_def
      wc_new_def wc_wait_def)
  from containers_are_isolated [OF refl this, of "[]" True] show ?thesis unfolding Let_def by blast
qed

end
