(* ===== verification/Task_Rpc.thy ===== *)
theory Task_Rpc
  imports Unix_Node
begin

text \<open>
  The methods of the ttrpc service as containerd calls them (\<open>impl Task for Local\<close> in
  \<open>containerd-shimkit/src/sandbox/shim/local.rs\<close>): the handlers of \<open>Local_Service\<close> with their errors translated to status codes.
  The locale \<open>internal_errors\<close> says which errors the instance may return, and the codes are shown to tell exactly why a
  request was refused; the unix instance fulfils it.
\<close>

section \<open>The methods\<close>

definition rpc_create ::
  "(shim_error \<Rightarrow> string) \<Rightarrow> ('w, 'i, 'm) shim_env \<Rightarrow> ('w, 'i) local \<Rightarrow> create_request \<Rightarrow> ('w, 'i) local \<times> (u32, ttrpc_error) result" where
  "rpc_create disp env s req = ttrpc disp (task_create env s req)"

definition rpc_start ::
  "(shim_error \<Rightarrow> string) \<Rightarrow> ('w, 'i, 'm) shim_env \<Rightarrow> ('w, 'i) local \<Rightarrow> string \<Rightarrow> string \<Rightarrow> ('w, 'i) local \<times> (u32, ttrpc_error) result" where
  "rpc_start disp env s cid exec_id = ttrpc disp (task_start env s cid exec_id)"

definition rpc_kill ::
  "(shim_error \<Rightarrow> string) \<Rightarrow> ('w, 'i, 'm) shim_env \<Rightarrow> ('w, 'i) local \<Rightarrow> string \<Rightarrow> string \<Rightarrow> u32 \<Rightarrow>
   ('w, 'i) local \<times> (unit, ttrpc_error) result" where
  "rpc_kill disp env s cid exec_id signal = ttrpc disp (task_kill env s cid exec_id signal)"

definition rpc_delete ::
  "(shim_error \<Rightarrow> string) \<Rightarrow> ('w, 'i, 'm) shim_env \<Rightarrow> ('w, 'i) local \<Rightarrow> string \<Rightarrow> string \<Rightarrow> bool \<Rightarrow>
   ('w, 'i) local \<times> (delete_response, ttrpc_error) result" where
  "rpc_delete disp env s cid exec_id free = ttrpc disp (task_delete env s cid exec_id free)"

text \<open>\<open>wait\<close> races the handler with a future that exports a span every minute and never ends: only the handler can win. Here the call up
  to the instance it waits for; its polls are \<open>wait_poll\<close>.\<close>

definition rpc_wait ::
  "(shim_error \<Rightarrow> string) \<Rightarrow> ('w, 'i) local \<Rightarrow> string \<Rightarrow> string \<Rightarrow> ('w, 'i) local \<times> (nat, ttrpc_error) result" where
  "rpc_wait disp s cid exec_id = ttrpc disp (s, task_wait s cid exec_id)"

definition rpc_connect ::
  "(shim_error \<Rightarrow> string) \<Rightarrow> ('w, 'i, 'm) shim_env \<Rightarrow> ('w, 'i) local \<Rightarrow> string \<Rightarrow> ('w, 'i) local \<times> (u32 \<times> u32, ttrpc_error) result" where
  "rpc_connect disp env s cid = ttrpc disp (s, connect env s cid)"

definition rpc_state ::
  "(shim_error \<Rightarrow> string) \<Rightarrow> ('w, 'i, 'm) shim_env \<Rightarrow> ('w, 'i) local \<Rightarrow> string \<Rightarrow> string \<Rightarrow> bool \<Rightarrow>
   ('w, 'i) local \<times> (state_response, ttrpc_error) result" where
  "rpc_state disp env s cid exec_id free = ttrpc disp (Local_Service.task_state env s cid exec_id free)"

definition rpc_shutdown :: "('w, 'i) local \<Rightarrow> ('w, 'i) local \<times> (unit, ttrpc_error) result" where
  "rpc_shutdown s = (shutdown s, Ok ())"

definition rpc_stats ::
  "(shim_error \<Rightarrow> string) \<Rightarrow> ('w, 'i, 'm) shim_env \<Rightarrow> ('w, 'i) local \<Rightarrow> string \<Rightarrow> ('w, 'i) local \<times> ('m, ttrpc_error) result" where
  "rpc_stats disp env s cid = ttrpc disp (s, task_stats env s cid)"

lemmas rpc_defs = rpc_create_def rpc_start_def rpc_kill_def rpc_delete_def rpc_wait_def rpc_connect_def rpc_state_def rpc_stats_def ttrpc_def

section \<open>Status codes\<close>

text \<open>The code of a reply, if it is an error with one.\<close>

fun reply_code :: "('a, ttrpc_error) result \<Rightarrow> code option" where
  "reply_code (Err e) = ttrpc_code e"
| "reply_code _ = None"

text \<open>Errors of the instance itself, which carry no reason that the codes know.\<close>

fun internal :: "sandbox_error \<Rightarrow> bool" where
  "internal (Any m) = True"
| "internal (Containerd m) = True"
| "internal (Stdio m) = True"
| "internal _ = False"

definition in_state :: "('w, 'i) local \<Rightarrow> string \<Rightarrow> Task_State.task_state set \<Rightarrow> bool" where
  "in_state s cid ts \<longleftrightarrow> (case map_of (l_instances s) cid of None \<Rightarrow> False | Some r \<Rightarrow> tstate (l_heap s ! r) \<in> ts)"

lemma internal_code:
  "internal e \<Longrightarrow> ttrpc_code (to_ttrpc disp e) \<in> {None, Some UNKNOWN}"
  by (cases e) auto

lemma hooks_internal: "setup_prestart_hooks ops pid w hs = (w', Err e) \<Longrightarrow> internal e"
proof -
  have hook: "run_hook ops pid w h = (w', Err e) \<Longrightarrow> internal e" for w h w'
    by (auto simp: run_hook_def Let_def split: prod.splits result.splits)
  have "run_hooks ops pid w l = (w', Err e) \<Longrightarrow> internal e" for l w
  proof (induction l arbitrary: w)
    case (Cons h hs)
    then show ?case by (cases "run_hook ops pid w h"; cases "snd (run_hook ops pid w h)") (auto dest: hook)
  qed simp
  then show "setup_prestart_hooks ops pid w hs = (w', Err e) \<Longrightarrow> internal e"
    by (auto simp: setup_prestart_hooks_def split: option.splits)
qed

lemma mount_all_error: "mount_all env p ms w = (w', Err e) \<Longrightarrow> \<exists>x. e = Shim x"
proof (induction ms arbitrary: w)
  case (Cons m ms)
  obtain v r where "e_mount_rootfs env w (none_if_empty (m_type m)) (none_if_empty (m_source m)) (m_options m) p = (v, r)"
    by (metis prod.exhaust)
  with Cons show ?case by (cases r) auto
qed simp

lemma st_then_eq_Err:
  "st_then p f = (t, Err e) \<longleftrightarrow> p = (t, Err e) \<or> (\<exists>s a. p = (s, Ok a) \<and> f s a = (t, Err e))"
  by (cases p; cases "snd p") auto

lemma on_world_eq: "on_world s f = (t, r) \<longleftrightarrow> (\<exists>w. f (l_world s) = (w, r) \<and> t = s\<lparr>l_world := w\<rparr>)"
  by (auto simp: on_world_def split: prod.splits)

lemma map_err_eq_Err: "map_err f r = Err e \<longleftrightarrow> (\<exists>x. r = Err x \<and> e = f x)"
  by (cases r) auto

lemma ok_or_eq_Err: "ok_or x v = Err e \<longleftrightarrow> v = None \<and> e = x"
  by (cases v) auto

text \<open>The replies of the three handlers that call the instance: a refusal, or what the instance returns.\<close>

lemma task_start_result:
  "snd (task_start env s cid []) =
     (case map_of (l_instances s) cid of
        None \<Rightarrow> Err (NotFound cid)
      | Some r \<Rightarrow> if tstate (l_heap s ! r) = Created then snd (i_start (e_ops env) (l_world s) (inst (l_heap s ! r)))
                  else state_transition_error (task_state_debug (tstate (l_heap s ! r))) ''Starting'')"
  by (auto simp: task_start_def get_instance_def on_inst_def id_start_cases state_transition_error_def
      split: option.splits prod.splits result.splits)

lemma task_kill_result:
  "snd (task_kill env s cid [] sig) =
     (case map_of (l_instances s) cid of
        None \<Rightarrow> Err (NotFound cid)
      | Some r \<Rightarrow> if tstate (l_heap s ! r) = Started then snd (i_kill (e_ops env) (l_world s) (inst (l_heap s ! r)) sig)
                  else state_transition_error (task_state_debug (tstate (l_heap s ! r))) (CHR 0x22 # ''Killing'' @ [CHR 0x22]))"
  by (auto simp: task_kill_def get_instance_def on_inst_def id_kill_cases state_transition_error_def
      split: option.splits prod.splits)

lemma task_delete_result:
  "and_then (snd (task_delete env s cid [] free)) (\<lambda>_. Ok ()) =
     (case map_of (l_instances s) cid of
        None \<Rightarrow> Err (NotFound cid)
      | Some r \<Rightarrow> if tstate (l_heap s ! r) \<in> {Created, Exited} then snd (i_delete (e_ops env) (l_world s) (inst (l_heap s ! r)))
                  else state_transition_error (task_state_debug (tstate (l_heap s ! r))) ''Deleting'')"
  by (auto simp: task_delete_def get_instance_def on_inst_def id_delete_cases state_transition_error_def delete_finish_def Let_def
      split: option.splits prod.splits result.splits)

lemma instance_code:
  "(\<And>e. r = Err e \<Longrightarrow> internal e) \<Longrightarrow> reply_code (map_err (to_ttrpc disp) r) \<in> {None, Some UNKNOWN}"
  using internal_code by (cases r) auto

lemma reply_code_and_then:
  "reply_code (map_err f (and_then r (\<lambda>_. Ok ()))) = reply_code (map_err f r)"
  by (cases r) auto

text \<open>Of a reply of that shape the code tells the reason of the refusal.\<close>

lemma refusal_codes:
  assumes "R = (case map_of (l_instances s) cid of None \<Rightarrow> Err (NotFound cid)
      | Some r \<Rightarrow> if tstate (l_heap s ! r) \<in> A then X r else state_transition_error (f r) g)"
    and "\<And>r e. X r = Err e \<Longrightarrow> internal e"
  shows "(reply_code (map_err (to_ttrpc disp) R) = Some NOT_FOUND \<longleftrightarrow> \<not> has_instance s cid)
    \<and> (reply_code (map_err (to_ttrpc disp) R) = Some FAILED_PRECONDITION \<longleftrightarrow> in_state s cid (- A))"
proof (cases "map_of (l_instances s) cid")
  case (Some r)
  then show ?thesis
    using instance_code [of "X r" disp, OF assms(2)]
    by (auto simp: assms(1) has_instance_def in_state_def state_transition_error_def)
qed (simp add: assms(1) has_instance_def in_state_def)

locale internal_errors =
  fixes ops :: "('w, 'i) instance_ops"
  assumes new_error: "i_new ops w cid cfg = (w', Err e) \<Longrightarrow> internal e"
    and start_error: "i_start ops w i = (w', Err e) \<Longrightarrow> internal e"
    and kill_error: "i_kill ops w i sig = (w', Err e) \<Longrightarrow> internal e"
    and delete_error: "i_delete ops w i = (w', Err e) \<Longrightarrow> internal e"
begin

lemma instance_errors:
  "snd (i_new ops w cid cfg) = Err e \<Longrightarrow> internal e" "snd (i_start ops w i) = Err e \<Longrightarrow> internal e"
  "snd (i_kill ops w i sig) = Err e \<Longrightarrow> internal e" "snd (i_delete ops w i) = Err e \<Longrightarrow> internal e"
  by (metis new_error prod.collapse, metis start_error prod.collapse, metis kill_error prod.collapse, metis delete_error prod.collapse)

lemma start_codes:
  assumes "e_ops env = ops"
  shows "(reply_code (snd (rpc_start disp env s cid [])) = Some NOT_FOUND \<longleftrightarrow> \<not> has_instance s cid)
    \<and> (reply_code (snd (rpc_start disp env s cid [])) = Some FAILED_PRECONDITION \<longleftrightarrow> in_state s cid (- {Created}))"
  unfolding rpc_defs snd_conv
  by (rule refusal_codes [where X = "\<lambda>r. snd (i_start (e_ops env) (l_world s) (inst (l_heap s ! r)))"])
    (auto simp: task_start_result assms intro: instance_errors cong: option.case_cong)

lemma kill_codes:
  assumes "e_ops env = ops"
  shows "(reply_code (snd (rpc_kill disp env s cid [] sig)) = Some NOT_FOUND \<longleftrightarrow> \<not> has_instance s cid)
    \<and> (reply_code (snd (rpc_kill disp env s cid [] sig)) = Some FAILED_PRECONDITION \<longleftrightarrow> in_state s cid (- {Started}))"
  unfolding rpc_defs snd_conv
  by (rule refusal_codes [where X = "\<lambda>r. snd (i_kill (e_ops env) (l_world s) (inst (l_heap s ! r)) sig)"])
    (auto simp: task_kill_result assms intro: instance_errors cong: option.case_cong)

lemma delete_codes:
  assumes "e_ops env = ops"
  shows "(reply_code (snd (rpc_delete disp env s cid [] free)) = Some NOT_FOUND \<longleftrightarrow> \<not> has_instance s cid)
    \<and> (reply_code (snd (rpc_delete disp env s cid [] free)) = Some FAILED_PRECONDITION \<longleftrightarrow> in_state s cid (- {Created, Exited}))"
  unfolding rpc_defs snd_conv reply_code_and_then [of _ "snd (task_delete env s cid [] free)", symmetric]
  by (rule refusal_codes [where X = "\<lambda>r. snd (i_delete (e_ops env) (l_world s) (inst (l_heap s ! r)))"])
    (auto simp: task_delete_result assms intro: instance_errors cong: option.case_cong)

text \<open>Create says that an id is taken exactly when it is, unless the request itself is refused before that.\<close>

lemma create_code:
  assumes "e_ops env = ops"
  shows "reply_code (snd (rpc_create disp env s req)) = Some ALREADY_EXISTS \<longleftrightarrow> create_check env s req = Err (AlreadyExists (cr_id req))"
proof -
  have spec: "create_spec env w req = Err e \<Longrightarrow> e \<noteq> AlreadyExists m" for w e m
    by (auto simp: create_spec_def and_then_eq_Err map_err_eq_Err ok_or_eq_Err)
  have make: "id_new ops w cid cfg = (w', Err e) \<Longrightarrow> internal e" for w cid cfg w' e
    by (auto simp: id_new_def st_then_eq_Err dest: new_error)
  have "e = AlreadyExists m \<longleftrightarrow> create_check env s req = Err (AlreadyExists m)" if "snd (task_create env s req) = Err e" for e m
  proof -
    from that obtain t where "task_create env s req = (t, Err e)" by (metis prod.collapse)
    then show ?thesis
      by (auto simp: task_create_def create_instance_def create_finish_def on_world_eq assms st_then_eq_Err res_simps
          dest!: mount_all_error hooks_internal make dest: spec)
  qed
  moreover have "e = AlreadyExists m \<Longrightarrow> m = cr_id req" if "create_check env s req = Err e" for e m
    using that by (auto simp: create_check_def res_simps map_err_eq_Err split: if_splits)
  moreover have "create_check env s req = Err e \<Longrightarrow> snd (task_create env s req) = Err e" for e
    by (simp add: task_create_def create_instance_def)
  ultimately show ?thesis
    by (cases "snd (task_create env s req)") (auto simp: rpc_defs ttrpc_code_already_exists)
qed

end

section \<open>The unix instance\<close>

lemma unix_new_error:
  assumes "unix_new uenv w cid cfg = (w', Err e)"
  shows "internal e"
proof -
  consider "oci_client uenv w cfg = (w', Err e)"
    | v where "(case ux_load_modules uenv (uw_os v) cid of
         (y, Panic m) \<Rightarrow> (v\<lparr>uw_os := y\<rparr>, Panic m)
       | (y, r) \<Rightarrow>
           (let modules = (case r of Ok ms \<Rightarrow> ms | _ \<Rightarrow> []);
                (w, b) = container_build (v\<lparr>uw_os := y\<rparr>) (build_container uenv cid cfg modules)
            in st_then (w, map_err Any b) (\<lambda>w z.
                 (w\<lparr>uw_cells := uw_cells w @ [wc_new]\<rparr>,
                  Ok \<lparr>un_id = cid, un_cell = length (uw_cells w), un_zygote = z\<rparr>)))) = (w', Err e)"
    using assms unfolding unix_new_def by (auto simp: st_then_eq_Err)
  then show ?thesis
  proof cases
    case 1
    then show ?thesis by (auto simp: oci_client_def st_then_eq_Err map_err_eq_Err split: if_splits prod.splits)
  next
    case 2
    obtain y r where "ux_load_modules uenv (uw_os v) cid = (y, r)" by (metis prod.exhaust)
    with 2 show ?thesis
      by (cases r) (auto simp: st_then_eq_Err map_err_eq_Err Let_def case_prod_eq)
  qed
qed

interpretation unix_errors: internal_errors "unix_ops uenv" for uenv
proof
  show "internal e" if "i_new (unix_ops uenv) w cid cfg = (w', Err e)" for w cid cfg w' e
    using that unix_new_error by (simp add: unix_ops_def)
  show "internal e" if "i_start (unix_ops uenv) w i = (w', Err e)" for w i w' e
    using that by (auto simp: unix_ops_def unix_start_def split: prod.splits result.splits)
  show "internal e" if "i_kill (unix_ops uenv) w i sig = (w', Err e)" for w i sig w' e
    using that by (auto simp: unix_ops_def unix_kill_def map_err_eq_Err split: prod.splits)
  show "internal e" if "i_delete (unix_ops uenv) w i = (w', Err e)" for w i w' e
    using that by (auto simp: unix_ops_def unix_delete_def map_err_eq_Err split: prod.splits)
qed

lemma unix_shim_ops: "e_ops (unix_shim_env uenv host) = unix_ops uenv"
  by (simp add: unix_shim_env_def)

lemma lookup_codes:
  "reply_code (snd (rpc_state disp env s cid [] free)) = Some NOT_FOUND \<longleftrightarrow> \<not> has_instance s cid"
  "reply_code (snd (rpc_wait disp s cid [])) = Some NOT_FOUND \<longleftrightarrow> \<not> has_instance s cid"
  "reply_code (snd (rpc_connect disp env s cid)) = Some NOT_FOUND \<longleftrightarrow> \<not> has_instance s cid"
  by (cases "map_of (l_instances s) cid"; auto simp: rpc_defs Local_Service.task_state_def task_wait_def connect_def
      get_instance_def has_instance_def Let_def split: prod.splits)+

lemma exec_codes:
  "reply_code (snd (rpc_kill disp env s cid (c # ex) sig)) = Some INVALID_ARGUMENT"
  "reply_code (snd (rpc_delete disp env s cid (c # ex) free)) = Some INVALID_ARGUMENT"
  "reply_code (snd (rpc_state disp env s cid (c # ex) free)) = Some INVALID_ARGUMENT"
  "reply_code (snd (rpc_wait disp s cid (c # ex))) = Some INVALID_ARGUMENT"
  "reply_code (snd (rpc_start disp env s cid (c # ex))) = Some UNKNOWN"
  by (simp_all add: rpc_defs Local_Service.task_state_def task_wait_def task_kill_def task_delete_def task_start_def)

text \<open>C11: containerd can tell from the status code why a request was refused. For a container of the unix shim a reply has the code
  \<open>NOT_FOUND\<close> exactly when the id is not registered (start, kill, delete, state, wait, connect), \<open>FAILED_PRECONDITION\<close> exactly
  when the task is in the wrong state for the request (not created for start, not running for kill, running for
  delete), and \<open>ALREADY_EXISTS\<close> exactly when a create that passes the checks before finds the id taken; failures of the
  container itself never have one of these codes. Requests for an exec are refused with \<open>INVALID_ARGUMENT\<close>, except for start, whose
  refusal has the code \<open>UNKNOWN\<close>.\<close>

theorem error_codes_tell_the_reason:
  "let env = unix_shim_env uenv host in
     (reply_code (snd (rpc_start disp env s cid [])) = Some NOT_FOUND \<longleftrightarrow> \<not> has_instance s cid)
   \<and> (reply_code (snd (rpc_kill disp env s cid [] sig)) = Some NOT_FOUND \<longleftrightarrow> \<not> has_instance s cid)
   \<and> (reply_code (snd (rpc_delete disp env s cid [] free)) = Some NOT_FOUND \<longleftrightarrow> \<not> has_instance s cid)
   \<and> (reply_code (snd (rpc_state disp env s cid [] free)) = Some NOT_FOUND \<longleftrightarrow> \<not> has_instance s cid)
   \<and> (reply_code (snd (rpc_wait disp s cid [])) = Some NOT_FOUND \<longleftrightarrow> \<not> has_instance s cid)
   \<and> (reply_code (snd (rpc_connect disp env s cid)) = Some NOT_FOUND \<longleftrightarrow> \<not> has_instance s cid)
   \<and> (reply_code (snd (rpc_start disp env s cid [])) = Some FAILED_PRECONDITION \<longleftrightarrow> in_state s cid {Starting, Started, Exited, Deleting})
   \<and> (reply_code (snd (rpc_kill disp env s cid [] sig)) = Some FAILED_PRECONDITION \<longleftrightarrow> in_state s cid {Created, Starting, Exited, Deleting})
   \<and> (reply_code (snd (rpc_delete disp env s cid [] free)) = Some FAILED_PRECONDITION \<longleftrightarrow> in_state s cid {Starting, Started, Deleting})
   \<and> (reply_code (snd (rpc_create disp env s req)) = Some ALREADY_EXISTS \<longleftrightarrow>
        has_instance s (cr_id req) \<and> is_ok (get_from_options (e_decode env) (e_toml env) (cr_options req))
        \<and> cr_checkpoint req = [] \<and> cr_parent_checkpoint req = [] \<and> \<not> cr_terminal req)
   \<and> reply_code (snd (rpc_start disp env s cid (c # ex))) = Some UNKNOWN
   \<and> reply_code (snd (rpc_kill disp env s cid (c # ex) sig)) = Some INVALID_ARGUMENT
   \<and> reply_code (snd (rpc_delete disp env s cid (c # ex) free)) = Some INVALID_ARGUMENT"
proof -
  let ?env = "unix_shim_env uenv host"
  have states: "- {Created} = {Starting, Started, Exited, Deleting}" "- {Started} = {Created, Starting, Exited, Deleting}"
    "- {Created, Exited} = {Starting, Started, Deleting}"
    by (auto intro: task_state.exhaust)
  have check: "create_check ?env s req = Err (AlreadyExists (cr_id req)) \<longleftrightarrow>
      has_instance s (cr_id req) \<and> is_ok (get_from_options (e_decode ?env) (e_toml ?env) (cr_options req))
      \<and> cr_checkpoint req = [] \<and> cr_parent_checkpoint req = [] \<and> \<not> cr_terminal req"
    by (auto simp: create_check_def and_then_eq_Err map_err_eq_Err map_err_eq_Ok is_ok_iff)
  show ?thesis
    unfolding Let_def check [symmetric] states [symmetric]
    using unix_errors.start_codes [where env = ?env and disp = disp and s = s and cid = cid, OF unix_shim_ops]
      unix_errors.kill_codes [where env = ?env and disp = disp and s = s and cid = cid and sig = sig, OF unix_shim_ops]
      unix_errors.delete_codes [where env = ?env and disp = disp and s = s and cid = cid and free = free, OF unix_shim_ops]
      unix_errors.create_code [where env = ?env and disp = disp and s = s and req = req, OF unix_shim_ops]
    by (simp add: lookup_codes exec_codes)
qed

end
