(* ===== verification/Shim_Traits.thy ===== *)
theory Shim_Traits
  imports Engines Wasmtime_Config Content_Client Instance_Cfg Logger Unix_Service
begin

text \<open>
  What the four shims give the common code: their implementations of \<open>Shim\<close> (name, version, compiler, sandbox), the
  version macros of \<open>containerd-shimkit/src/sandbox/cli.rs\<close>, the defaults of the trait (\<open>containerd-shim-wasm/src/shim/shim.rs\<close>);
  and the set-up of telemetry (\<open>sandbox/shim/otel.rs\<close>) and of the FIFO logger (\<open>vendor/containerd_shim/logger.rs\<close>).

  The name of a shim is what separates the engines on a node: directories and the cache of precompiled layers go by it.
\<close>

section \<open>The shims\<close>

text \<open>\<open>version!()\<close> is a variable of the build, and \<open>git_version!\<close> a text that is empty without a repository.\<close>

definition revision :: "string \<Rightarrow> string option" where
  "revision git = (if git = [] then None else Some git)"

definition shim_version :: "string option \<Rightarrow> string \<Rightarrow> version" where
  "shim_version cargo git =
     \<lparr>v_version = (case cargo of Some v \<Rightarrow> v | None \<Rightarrow> ''<none>''),
      v_revision = (case revision git of Some r \<Rightarrow> r | None \<Rightarrow> ''<none>'')\<rparr>"

text \<open>The implementations of \<open>Shim\<close>.\<close>

record shim_impl =
  sm_name :: string
  sm_version :: version

definition wasmtime_shim :: "string option \<Rightarrow> string \<Rightarrow> shim_impl" where
  "wasmtime_shim cargo git = \<lparr>sm_name = ''wasmtime'', sm_version = shim_version cargo git\<rparr>"

definition wasmedge_shim :: "string option \<Rightarrow> string \<Rightarrow> shim_impl" where
  "wasmedge_shim cargo git = \<lparr>sm_name = ''wasmedge'', sm_version = shim_version cargo git\<rparr>"

definition wasmer_shim :: "string option \<Rightarrow> string \<Rightarrow> shim_impl" where
  "wasmer_shim cargo git = \<lparr>sm_name = ''wasmer'', sm_version = shim_version cargo git\<rparr>"

definition wamr_shim :: "string option \<Rightarrow> string \<Rightarrow> shim_impl" where
  "wamr_shim cargo git = \<lparr>sm_name = ''wamr'', sm_version = shim_version cargo git\<rparr>"

datatype engine = Wasmtime | WasmEdge | Wasmer | Wamr

definition shim_name :: "engine \<Rightarrow> string" where
  "shim_name e = sm_name ((case e of Wasmtime \<Rightarrow> wasmtime_shim | WasmEdge \<Rightarrow> wasmedge_shim | Wasmer \<Rightarrow> wasmer_shim | Wamr \<Rightarrow> wamr_shim) None [])"

lemma shim_names [simp]:
  "shim_name Wasmtime = ''wasmtime''" "shim_name WasmEdge = ''wasmedge''" "shim_name Wasmer = ''wasmer''" "shim_name Wamr = ''wamr''"
  by (simp_all add: shim_name_def wasmtime_shim_def wasmedge_shim_def wasmer_shim_def wamr_shim_def)

text \<open>\<open>NO_COMPILER\<close>, the default; its type has no values, so its operations are unreachable. Only wasmtime compiles.\<close>

definition NO_COMPILER :: "'w compiler option" where
  "NO_COMPILER = None"

fun shim_compiler :: "'w compiler \<Rightarrow> engine \<Rightarrow> 'w compiler option" where
  "shim_compiler wasmtime Wasmtime = Some wasmtime"
| "shim_compiler wasmtime _ = NO_COMPILER"

text \<open>\<open>Default\<close> of the sandboxes of WasmEdge and WAMR.\<close>

definition wasmedge_default :: "('c, string) result \<Rightarrow> ('c, string) result" where
  "wasmedge_default built = expect ''failed to create config'' built"

definition wamr_default :: "('r, string) result \<Rightarrow> ('r, string) result" where
  "wamr_default made = expect ''called Result::unwrap() on an Err value'' made"

text \<open>\<open>WasiPreview2Ctx::new\<close> and \<open>store_for_context\<close>: the context goes into the store, and the WASI functions into the linker.\<close>

definition wasi_preview2_new :: "(path \<Rightarrow> (unit, string) result) \<Rightarrow> wasi_context \<Rightarrow> (wasi_ctx, string) result" where
  "wasi_preview2_new open_dir ctx = wasi_builder open_dir ctx"

definition store_for_context :: "('l \<Rightarrow> ('l, string) result) \<Rightarrow> 'l \<Rightarrow> 't \<Rightarrow> ('t \<times> 'l, string) result" where
  "store_for_context add_to_linker linker ctx = and_then (add_to_linker linker) (\<lambda>linker. Ok (ctx, linker))"

text \<open>\<open>setup_envs\<close> of the executor leaves the environment of the process alone.\<close>

definition setup_envs :: "(string \<times> string) list \<Rightarrow> 'e \<Rightarrow> 'e \<times> (unit, string) result" where
  "setup_envs vars e = (e, Ok ())"

text \<open>\<open>Debug\<close> of the shim; \<open>dbg\<close> is \<open>Debug\<close> of strings.\<close>

definition shim_fmt :: "(string \<Rightarrow> string) \<Rightarrow> shim \<Rightarrow> string" where
  "shim_fmt dbg s =
     ''Shim { namespace: '' @ dbg (sh_namespace s) @ '', containerd_address: '' @ dbg (sh_address s) @ '', _id: '' @ dbg (sh_id s) @ '' }''"

section \<open>Telemetry\<close>

text \<open>\<open>Config::init\<close>: the tracer, the propagator, the filter and the global subscriber, in this order; the flags tell which of the
  global settings have been made. The guard it returns shuts the tracer down.\<close>

record otel_globals =
  og_tracer :: "exporter option"
  og_propagator :: bool
  og_subscriber :: bool

definition otel_init ::
  "(exporter \<Rightarrow> (unit, string) result) \<Rightarrow> (string \<Rightarrow> (unit, string) result) \<Rightarrow> otel_config \<Rightarrow> otel_globals \<Rightarrow>
   otel_globals \<times> (unit, string) result" where
  "otel_init install parse_filter c og =
     st_then (og, install (init_tracer c)) (\<lambda>og _.
       let og = og\<lparr>og_tracer := Some (init_tracer c), og_propagator := True\<rparr> in
     st_then (og, parse_filter ''info,h2=off'') (\<lambda>og _.
       if og_subscriber og then (og, Err ''a global default trace dispatcher has already been set'')
       else (og\<lparr>og_subscriber := True\<rparr>, Ok ())))"

definition shutdown_guard_drop :: "otel_globals \<Rightarrow> otel_globals" where
  "shutdown_guard_drop og = og\<lparr>og_tracer := None\<rparr>"

text \<open>\<open>SpanNamingLayer\<close>: the spans of the registry with the name in their telemetry data, if they have such data.\<close>

definition on_new_span ::
  "('n \<Rightarrow> string option option) \<Rightarrow> 'n \<Rightarrow> string \<Rightarrow> string \<Rightarrow> ('n \<Rightarrow> string option option, string) result" where
  "on_new_span spans n target original_name =
     (case spans n of
        None \<Rightarrow> Panic ''Span not found''
      | Some None \<Rightarrow> Ok spans
      | Some (Some _) \<Rightarrow> Ok (spans(n := Some (Some (span_name target original_name)))))"

definition extract_context :: "((string \<Rightarrow> string option) \<Rightarrow> string list \<Rightarrow> 'c) \<Rightarrow> (string \<times> string list) list \<Rightarrow> 'c" where
  "extract_context extract metadata = extract (extractor_get metadata) (extractor_keys metadata)"

text \<open>A propagator that looks keys up sees a first value for every key with values, and nothing else.\<close>

lemma extracted_keys:
  "map_of metadata k = Some (v # vs) \<Longrightarrow> extract_context (\<lambda>get keys. get k = Some v \<and> k \<in> set keys) metadata"
  "map_of metadata k = None \<Longrightarrow> extract_context (\<lambda>get keys. get k = None \<and> k \<notin> set keys) metadata"
proof -
  show "extract_context (\<lambda>get keys. get k = Some v \<and> k \<in> set keys) metadata" if "map_of metadata k = Some (v # vs)"
    using that by (auto simp: extract_context_def extractor_get_def extractor_keys_def dest: map_of_SomeD intro: rev_image_eqI)
  show "extract_context (\<lambda>get keys. get k = None \<and> k \<notin> set keys) metadata" if "map_of metadata k = None"
    using that by (simp add: extract_context_def extractor_get_def extractor_keys_def) (simp add: map_of_eq_None_iff)
qed

text \<open>Telemetry is set up at most once in a process; a second attempt replaces the tracer and fails.\<close>

lemma otel_init_once:
  "otel_init install parse_filter c og = (og', Ok ()) \<Longrightarrow> \<not> is_ok (snd (otel_init install parse_filter c' og'))"
  by (auto simp: otel_init_def Let_def res_simps split: if_splits)
    (cases "install (init_tracer c')"; simp)+

section \<open>The FIFO of the logger\<close>

record open_options =
  oo_write :: bool
  oo_read :: bool
  oo_create :: bool

definition with_path :: "(open_options \<Rightarrow> path \<Rightarrow> ('f, string) result) \<Rightarrow> path \<Rightarrow> ('f, string) result" where
  "with_path open_file p = open_file \<lparr>oo_write = True, oo_read = False, oo_create = False\<rparr> p"

definition fifo_logger_new :: "(open_options \<Rightarrow> path \<Rightarrow> ('f, string) result) \<Rightarrow> ('f, string) result" where
  "fifo_logger_new open_file = with_path open_file ''log''"

text \<open>\<open>flush\<close> ignores whether the file could be synced.\<close>

definition fifo_flush :: "(unit, string) result \<Rightarrow> logger \<Rightarrow> logger" where
  "fifo_flush synced g = g"

definition rfc3339_formatted :: "(string, string) result \<Rightarrow> string \<Rightarrow> string" where
  "rfc3339_formatted formatted now = unwrap_or now formatted"

section \<open>The engines do not meet\<close>

lemma shim_name_inj: "shim_name a = shim_name b \<longleftrightarrow> a = b"
  by (cases a; cases b) simp_all

lemma default_rootdir:
  assumes "fs_open (path_join (ic_bundle cfg) ''options.json'') = Err (IoNotFound m)" and "\<not> is_absolute (ic_namespace cfg)"
  shows "determine_rootdir fs_open parse_options cfg (shim_name a) = Ok (''/run/containerd/'' @ shim_name a @ ''/'' @ ic_namespace cfg)"
  using assms by (cases a) (simp_all add: determine_rootdir_def path_join_def DEFAULT_CONTAINER_ROOT_DIR_def is_absolute_def Let_def)

text \<open>Two engines on one node do not touch each other's containers or caches: for the same bundle and namespace, without an
  \<open>options.json\<close> that says otherwise, their root directories differ, and their labels for precompiled layers differ whatever
  their versions are. Of the four only wasmtime has a compiler.\<close>

theorem engines_are_separate:
  assumes "a \<noteq> b" and "fs_open (path_join (ic_bundle cfg) ''options.json'') = Err (IoNotFound m)"
    and "\<not> is_absolute (ic_namespace cfg)"
  shows "determine_rootdir fs_open parse_options cfg (shim_name a) \<noteq> determine_rootdir fs_open parse_options cfg (shim_name b)
    \<and> precompile_label (shim_name a) v \<noteq> precompile_label (shim_name b) v'
    \<and> (shim_compiler co a = None \<or> shim_compiler co b = None)"
proof -
  have "''/run/containerd/'' @ shim_name a @ ''/'' @ ic_namespace cfg \<noteq> ''/run/containerd/'' @ shim_name b @ ''/'' @ ic_namespace cfg"
    using assms(1) by (auto simp: shim_name_inj)
  then have "determine_rootdir fs_open parse_options cfg (shim_name a) \<noteq> determine_rootdir fs_open parse_options cfg (shim_name b)"
    by (simp add: default_rootdir [where fs_open = fs_open and cfg = cfg, OF assms(2,3)])
  then show ?thesis
    using assms(1) by (cases a; cases b) (simp_all add: precompile_label_inj NO_COMPILER_def)
qed

theorem engines_are_separate_witness:
  "determine_rootdir (\<lambda>_. Err (IoNotFound [])) (\<lambda>_. Ok None) \<lparr>ic_stdin = [], ic_stdout = [], ic_stderr = [], ic_bundle = ''/b'',
      ic_namespace = ''k8s.io'', ic_containerd_address = [], ic_config = default_config\<rparr> (shim_name Wasmtime)
   \<noteq> determine_rootdir (\<lambda>_. Err (IoNotFound [])) (\<lambda>_. Ok None) \<lparr>ic_stdin = [], ic_stdout = [], ic_stderr = [], ic_bundle = ''/b'',
      ic_namespace = ''k8s.io'', ic_containerd_address = [], ic_config = default_config\<rparr> (shim_name Wamr)"
  using engines_are_separate [of Wasmtime Wamr "\<lambda>_. Err (IoNotFound [])" "\<lparr>ic_stdin = [], ic_stdout = [], ic_stderr = [],
      ic_bundle = ''/b'', ic_namespace = ''k8s.io'', ic_containerd_address = [], ic_config = default_config\<rparr>" "[]" "\<lambda>_. Ok None" 0 0]
  by (auto simp: is_absolute_def simp del: shim_names)

end
