(* ===== verification/Unit_Tests.thy ===== *)
theory Unit_Tests
  imports Errors Instance_Cfg Waitable_Cell Sandbox_Context Shim_Main Unix_Instance
begin

text \<open>
  The unit tests that stand in the sources of the runtime context (\<open>sandbox/context.rs\<close>), of the telemetry configuration
  (\<open>sandbox/shim/otel.rs\<close>), of the waitable cell (\<open>sandbox/sync.rs\<close>), of the errors (\<open>sandbox/error.rs\<close>), of the root
  directory (\<open>sandbox/instance_utils.rs\<close>) and of the unix instance, as predicates on the model: each is the conjunction of the assertions of the test.
  What a test takes from outside (the defaults of the OCI library, the variables of the process it runs in, a temporary
  directory, JSON) is a parameter, so that passing is a theorem about all of those.
\<close>

section \<open>The runtime context\<close>

text \<open>\<open>dflt\<close> is the process that \<open>ProcessBuilder::default\<close> of the OCI library builds.\<close>

definition with_args :: "process \<Rightarrow> string list \<Rightarrow> wasm_layer list \<Rightarrow> wasi_context" where
  "with_args dflt as ls = \<lparr>ctx_process = Some (dflt\<lparr>pr_args := Some as\<rparr>), wasm_layers = ls\<rparr>"

definition with_env :: "process \<Rightarrow> string list \<Rightarrow> wasi_context" where
  "with_env dflt es = \<lparr>ctx_process = Some (dflt\<lparr>pr_env := Some es\<rparr>), wasm_layers = []\<rparr>"

definition test_get_args :: "process \<Rightarrow> bool" where
  "test_get_args dflt \<longleftrightarrow> (let as = args (with_args dflt [''hello.wat''] []) in length as = 1 \<and> as ! 0 = ''hello.wat'')"

definition test_get_args_return_empty :: "process \<Rightarrow> bool" where
  "test_get_args_return_empty dflt \<longleftrightarrow> length (args (with_args dflt [] [])) = 0"

definition test_get_args_returns_all :: "process \<Rightarrow> bool" where
  "test_get_args_returns_all dflt \<longleftrightarrow>
     (let as = args (with_args dflt [''hello.wat'', ''echo'', ''hello''] [])
      in length as = 3 \<and> as ! 0 = ''hello.wat'' \<and> as ! 1 = ''echo'' \<and> as ! 2 = ''hello'')"

definition test_get_module_returns_none_when_not_present :: "process \<Rightarrow> bool" where
  "test_get_module_returns_none_when_not_present dflt \<longleftrightarrow>
     (case source (entrypoint_of (with_args dflt [] [])) of File p \<Rightarrow> p = [] | Sandbox_Context.Oci _ \<Rightarrow> False)"

definition test_get_module_returns_function :: "process \<Rightarrow> bool" where
  "test_get_module_returns_function dflt \<longleftrightarrow>
     (let e = entrypoint_of (with_args dflt [''hello.wat#foo'', ''echo'', ''hello''] [])
      in name e = Some ''hello'' \<and> func e = ''foo'' \<and> arg0 e = Some ''hello.wat#foo'' \<and> source e = File ''hello.wat'')"

definition test_get_module_returns_start :: "process \<Rightarrow> bool" where
  "test_get_module_returns_start dflt \<longleftrightarrow>
     (let e = entrypoint_of (with_args dflt [''/root/hello.wat'', ''echo'', ''hello''] [])
      in name e = Some ''hello'' \<and> func e = ''_start'' \<and> arg0 e = Some ''/root/hello.wat'' \<and> source e = File ''/root/hello.wat'')"

definition test_loading_strategy_is_file_when_no_layers :: "process \<Rightarrow> bool" where
  "test_loading_strategy_is_file_when_no_layers dflt \<longleftrightarrow>
     source (entrypoint_of (with_args dflt [''/root/hello.wat#foo'', ''echo'', ''hello''] [])) = File ''/root/hello.wat''"

definition test_loading_strategy_is_oci_when_layers_present :: "process \<Rightarrow> bool" where
  "test_loading_strategy_is_oci_when_layers_present dflt \<longleftrightarrow>
     (let l = \<lparr>wl_config = \<lparr>media_type = [], digest = ''sha256:'' @ replicate 64 CHR ''0''\<rparr>, wl_layer = []\<rparr>
      in case source (entrypoint_of (with_args dflt [''/root/hello.wat'', ''echo'', ''hello''] [l])) of
           Sandbox_Context.Oci _ \<Rightarrow> True | File _ \<Rightarrow> False)"

definition test_get_envs :: "process \<Rightarrow> bool" where
  "test_get_envs dflt \<longleftrightarrow>
     (let es = envs (with_env dflt [''KEY1=VALUE1'', ''KEY2=VALUE2''])
      in length es = 2 \<and> es ! 0 = ''KEY1=VALUE1'' \<and> es ! 1 = ''KEY2=VALUE2'')"

definition test_get_envs_return_empty :: "process \<Rightarrow> bool" where
  "test_get_envs_return_empty dflt \<longleftrightarrow> length (envs (with_env dflt [])) = 0"

definition test_envs_return_default_only :: "process \<Rightarrow> bool" where
  "test_envs_return_default_only dflt \<longleftrightarrow> length (envs \<lparr>ctx_process = Some dflt, wasm_layers = []\<rparr>) = 2"

definition context_tests :: "process \<Rightarrow> bool" where
  "context_tests dflt \<longleftrightarrow>
     test_get_args dflt \<and> test_get_args_return_empty dflt \<and> test_get_args_returns_all dflt \<and>
     test_get_module_returns_none_when_not_present dflt \<and> test_get_module_returns_function dflt \<and>
     test_get_module_returns_start dflt \<and> test_loading_strategy_is_file_when_no_layers dflt \<and>
     test_loading_strategy_is_oci_when_layers_present dflt \<and> test_get_envs dflt \<and> test_get_envs_return_empty dflt \<and>
     test_envs_return_default_only dflt"

section \<open>Telemetry\<close>

text \<open>\<open>temp_env::with_vars\<close>: the variables of the process with some of them set or taken away.\<close>

definition with_vars :: "env \<Rightarrow> (string \<times> string option) list \<Rightarrow> env" where
  "with_vars e vs k = (case map_of vs k of None \<Rightarrow> e k | Some v \<Rightarrow> map_option Unicode v)"

definition test_traces_enabled :: "env \<Rightarrow> bool" where
  "test_traces_enabled e \<longleftrightarrow>
     traces_enabled (with_vars e [(TRACES_ENDPOINT, Some ''trace_endpoint''), (OTLP_ENDPOINT, Some ''general_endpoint''), (SDK_DISABLED, None)]) \<and>
     traces_enabled (with_vars e [(TRACES_ENDPOINT, Some ''''), (OTLP_ENDPOINT, Some ''general_endpoint''), (SDK_DISABLED, Some ''t'')]) \<and>
     traces_enabled (with_vars e [(TRACES_ENDPOINT, None), (OTLP_ENDPOINT, Some ''general_endpoint''), (SDK_DISABLED, Some ''false'')]) \<and>
     traces_enabled (with_vars e [(TRACES_ENDPOINT, Some ''trace_endpoint''), (OTLP_ENDPOINT, Some ''''), (SDK_DISABLED, Some ''1'')]) \<and>
     \<not> traces_enabled (with_vars e [(TRACES_ENDPOINT, Some ''''), (OTLP_ENDPOINT, Some ''''), (SDK_DISABLED, None)]) \<and>
     \<not> traces_enabled (with_vars e [(TRACES_ENDPOINT, None), (OTLP_ENDPOINT, None), (SDK_DISABLED, None)]) \<and>
     \<not> traces_enabled (with_vars e [(TRACES_ENDPOINT, Some ''trace_endpoint''), (OTLP_ENDPOINT, Some ''general_endpoint''), (SDK_DISABLED, Some ''true'')])"

text \<open>JSON and the propagator are those of \<open>main_env\<close>; without a propagator nothing is injected.\<close>

definition test_get_empty_trace_context :: "main_env \<Rightarrow> bool" where
  "test_get_empty_trace_context me \<longleftrightarrow> get_trace_context (me\<lparr>me_inject := []\<rparr>) = Ok ''{}''"

definition test_set_empty_trace_context :: "main_env \<Rightarrow> bool" where
  "test_set_empty_trace_context me \<longleftrightarrow> is_ok (snd (set_trace_context me ''{}'' []))"

definition test_otel_endpoint_from_env :: "env \<Rightarrow> bool" where
  "test_otel_endpoint_from_env e \<longleftrightarrow>
     traces_endpoint_from_env (with_vars e [(TRACES_ENDPOINT, Some ''trace_endpoint'')]) = Ok ''trace_endpoint''"

definition test_otel_endpoint_from_env_fallback :: "env \<Rightarrow> bool" where
  "test_otel_endpoint_from_env_fallback e \<longleftrightarrow>
     traces_endpoint_from_env (with_vars e [(OTLP_ENDPOINT, Some ''fallback_endpoint'')]) = Ok ''fallback_endpoint''"

definition test_otel_endpoint_from_env_missing :: "env \<Rightarrow> bool" where
  "test_otel_endpoint_from_env_missing e \<longleftrightarrow> is_err (traces_endpoint_from_env (with_vars e []))"

definition test_otel_protocol_from_env :: "string \<Rightarrow> env \<Rightarrow> bool" where
  "test_otel_protocol_from_env dp e \<longleftrightarrow> traces_protocol_from_env dp (with_vars e [(TRACES_PROTOCOL, Some ''grpc'')]) = Ok Grpc"

definition test_otel_protocol_from_env_fail :: "string \<Rightarrow> env \<Rightarrow> bool" where
  "test_otel_protocol_from_env_fail dp e \<longleftrightarrow>
     is_err (traces_protocol_from_env dp (with_vars e [(OTLP_PROTOCOL, Some ''something-else'')]))"

definition test_otel_protocol_from_env_default :: "string \<Rightarrow> env \<Rightarrow> bool" where
  "test_otel_protocol_from_env_default dp e \<longleftrightarrow> traces_protocol_from_env dp (with_vars e []) = Ok HttpBinary"

definition test_build_with_both_specific_and_general_env_vars :: "string \<Rightarrow> env \<Rightarrow> bool" where
  "test_build_with_both_specific_and_general_env_vars dp e \<longleftrightarrow>
     build_from_env dp (with_vars e [(TRACES_ENDPOINT, Some ''trace_endpoint''), (OTLP_ENDPOINT, Some ''general_endpoint''),
       (TRACES_PROTOCOL, Some ''grpc''), (OTLP_PROTOCOL, Some ''http/protobuf'')])
     = Ok \<lparr>oc_endpoint = ''trace_endpoint'', oc_protocol = Grpc\<rparr>"

definition test_build_missing_endpoint :: "string \<Rightarrow> env \<Rightarrow> bool" where
  "test_build_missing_endpoint dp e \<longleftrightarrow> is_err (build_from_env dp (with_vars e []))"

definition test_metadata_extractor :: bool where
  "test_metadata_extractor \<longleftrightarrow>
     (let metadata = [(''key'', [''value'']), (''key2'', [''value2''])]
      in extractor_get metadata ''key'' = Some ''value'' \<and> set (extractor_keys metadata) = {''key'', ''key2''} \<and>
         length (extractor_keys metadata) = 2 \<and> extractor_get metadata ''key2'' = Some ''value2'')"

definition otel_tests :: "main_env \<Rightarrow> env \<Rightarrow> bool" where
  "otel_tests me e \<longleftrightarrow>
     (let dp = me_default_protocol me in
      test_traces_enabled e \<and> test_get_empty_trace_context me \<and> test_set_empty_trace_context me \<and>
      test_otel_endpoint_from_env e \<and> test_otel_endpoint_from_env_fallback e \<and> test_otel_endpoint_from_env_missing e \<and>
      test_otel_protocol_from_env dp e \<and> test_otel_protocol_from_env_fail dp e \<and> test_otel_protocol_from_env_default dp e \<and>
      test_build_with_both_specific_and_general_env_vars dp e \<and> test_build_missing_endpoint dp e \<and> test_metadata_extractor)"

section \<open>The waitable cell\<close>

definition basic :: bool where
  "basic \<longleftrightarrow> (case wc_set wc_new (42 :: i32) of (c, r) \<Rightarrow> r = Ok () \<and> wc_wait c = Some 42)"

definition basic_timeout_zero :: bool where
  "basic_timeout_zero \<longleftrightarrow> (case wc_set wc_new (42 :: i32) of (c, r) \<Rightarrow> r = Ok () \<and> Some 42 = wc_wait c)"

definition unset_timeout_zero :: bool where
  "unset_timeout_zero \<longleftrightarrow> None = wc_wait (wc_new :: i32 waitable_cell)"

text \<open>A timeout is one more poll of a cell that nobody has set.\<close>

definition unset_timeout_1ms :: bool where
  "unset_timeout_1ms \<longleftrightarrow> None = wc_wait (wc_new :: i32 waitable_cell)"

text \<open>A clone is the same cell.\<close>

definition clone_test :: bool where
  "clone_test \<longleftrightarrow> (let cell = wc_new; cloned = fst (wc_set cell (42 :: i32)) in wc_wait cloned = Some 42)"

text \<open>The other task sets the cell after the first poll of \<open>wait\<close>.\<close>

definition basic_threaded :: bool where
  "basic_threaded \<longleftrightarrow>
     (let cell = wc_new :: i32 waitable_cell
      in wc_wait cell = None \<and> wc_wait (fst (wc_set cell 42)) = Some 42)"

definition basic_double_set :: bool where
  "basic_double_set \<longleftrightarrow>
     (case wc_set wc_new (42 :: i32) of (c, r) \<Rightarrow> r = Ok () \<and> snd (wc_set c 24) = Err 24)"

definition guard_test :: bool where
  "guard_test \<longleftrightarrow>
     (case guard_drop wc_new (set_guard_with (\<lambda>_. 42 :: i32)) :: (i32 waitable_cell, unit) result of
        Ok c \<Rightarrow> wc_wait c = Some 42 | _ \<Rightarrow> False)"

definition guard_no_op :: bool where
  "guard_no_op \<longleftrightarrow>
     (let guard = set_guard_with (\<lambda>_. 42 :: i32); cell = fst (wc_set wc_new 24)
      in case guard_drop cell guard :: (i32 waitable_cell, unit) result of Ok c \<Rightarrow> wc_wait c = Some 24 | _ \<Rightarrow> False)"

definition cell_tests :: bool where
  "cell_tests \<longleftrightarrow>
     basic \<and> basic_timeout_zero \<and> unset_timeout_zero \<and> unset_timeout_1ms \<and> clone_test \<and> basic_threaded \<and> basic_double_set \<and>
     guard_test \<and> guard_no_op"

section \<open>Errors and the root directory\<close>

definition test_error_to_ttrpc_status :: "(shim_error \<Rightarrow> string) \<Rightarrow> bool" where
  "test_error_to_ttrpc_status sd \<longleftrightarrow>
     to_ttrpc sd (InvalidArgument ''invalid argument'') = RpcStatus INVALID_ARGUMENT ''invalid argument'' \<and>
     to_ttrpc sd (NotFound ''not found'') = RpcStatus NOT_FOUND ''not found'' \<and>
     to_ttrpc sd (AlreadyExists ''already exists'') = RpcStatus ALREADY_EXISTS ''already exists'' \<and>
     to_ttrpc sd (FailedPrecondition ''failed precondition'') = RpcStatus FAILED_PRECONDITION ''failed precondition'' \<and>
     to_ttrpc sd (Shim (ShimInvalidArgument ''invalid argument'')) = RpcStatus INVALID_ARGUMENT ''invalid argument'' \<and>
     to_ttrpc sd (Any ''any error'') = RpcStatus UNKNOWN ''any error''"

text \<open>\<open>dir\<close> is the temporary directory, \<open>to_json\<close> and \<open>parse_options\<close> are those of \<open>serde_json\<close>, \<open>dflt\<close> is the default
  configuration.\<close>

definition test_determine_rootdir_with_options_file ::
  "(path option \<Rightarrow> string) \<Rightarrow> (string \<Rightarrow> (path option, string) result) \<Rightarrow> instance_config \<Rightarrow> path \<Rightarrow> bool" where
  "test_determine_rootdir_with_options_file to_json parse_options dflt dir \<longleftrightarrow>
     (let rootdir = path_join dir ''runwasi'';
          files = [path_join dir ''options.json'' \<mapsto> to_json (Some rootdir)];
          fs_open = (\<lambda>p. case files p of Some s \<Rightarrow> Ok s | None \<Rightarrow> Err (IoNotFound p));
          cfg = dflt\<lparr>ic_bundle := dir, ic_namespace := ''test_namespace''\<rparr>
      in determine_rootdir fs_open parse_options cfg ''runtime'' = Ok (path_join rootdir ''test_namespace''))"

definition test_determine_rootdir_without_options_file ::
  "(string \<Rightarrow> (path option, string) result) \<Rightarrow> instance_config \<Rightarrow> path \<Rightarrow> bool" where
  "test_determine_rootdir_without_options_file parse_options dflt dir \<longleftrightarrow>
     (let fs_open = (\<lambda>p. Err (IoNotFound p)); cfg = dflt\<lparr>ic_bundle := dir, ic_namespace := ''test_namespace''\<rparr>
      in case determine_rootdir fs_open parse_options cfg ''runtime'' of
           Ok root \<Rightarrow> is_absolute root \<and> root = path_join ''/run/containerd/runtime'' ''test_namespace'' | _ \<Rightarrow> False)"

definition test_get_pod_id :: bool where
  "test_get_pod_id \<longleftrightarrow> pod_id (Some [(''io.kubernetes.cri.sandbox-id'', ''test-pod-id'')]) = Some ''test-pod-id''"

text \<open>\<open>dflt\<close> is what \<open>SpecBuilder::default\<close> gives a spec without annotations.\<close>

definition test_get_pod_id_no_annotation :: "(string \<times> string) list option \<Rightarrow> bool" where
  "test_get_pod_id_no_annotation dflt \<longleftrightarrow> pod_id dflt = None"

section \<open>The tests pass\<close>

lemmas context_test_defs =
  context_tests_def test_get_args_def test_get_args_return_empty_def test_get_args_returns_all_def
  test_get_module_returns_none_when_not_present_def test_get_module_returns_function_def test_get_module_returns_start_def
  test_loading_strategy_is_file_when_no_layers_def test_loading_strategy_is_oci_when_layers_present_def test_get_envs_def
  test_get_envs_return_empty_def test_envs_return_default_only_def with_args_def with_env_def

lemma context_tests_pass: "context_tests dflt \<longleftrightarrow> (\<exists>es. pr_env dflt = Some es \<and> length es = 2)"
  by (simp add: context_test_defs args_def envs_def entrypoint_of_def split_entrypoint_def file_stem_def file_name_def
      components_def is_absolute_def rsplit_dot_def Let_def split: option.splits)

lemmas otel_test_defs =
  otel_tests_def test_get_empty_trace_context_def test_set_empty_trace_context_def
  test_otel_endpoint_from_env_def test_otel_endpoint_from_env_fallback_def test_otel_endpoint_from_env_missing_def
  test_otel_protocol_from_env_def test_otel_protocol_from_env_fail_def test_otel_protocol_from_env_default_def
  test_build_with_both_specific_and_general_env_vars_def test_build_missing_endpoint_def test_metadata_extractor_def

lemma traces_enabled_test: "test_traces_enabled e"
  by (simp add: test_traces_enabled_def traces_enabled_def check_env_var_def var_os_def with_vars_def otel_names)

lemma cell_tests_pass: cell_tests
  by (simp add: cell_tests_def basic_def basic_timeout_zero_def unset_timeout_zero_def unset_timeout_1ms_def clone_test_def
      basic_threaded_def basic_double_set_def guard_test_def guard_no_op_def wc_set_def wc_new_def wc_wait_def
      guard_drop_def set_guard_with_def Let_def)

lemma error_test: "test_error_to_ttrpc_status sd"
  by (simp add: test_error_to_ttrpc_status_def)

lemma otel_tests_pass:
  assumes "e TRACES_ENDPOINT = None" "e OTLP_ENDPOINT = None" "e TRACES_PROTOCOL = None" "e OTLP_PROTOCOL = None"
    and "me_default_protocol me = ''http/protobuf''" "me_to_json me [] = Ok ''{}''" "is_ok (me_from_json me ''{}'')"
  shows "otel_tests me e"
  using assms traces_enabled_test [of e]
  by (cases "me_from_json me ''{}''") (simp_all add: otel_test_defs traces_endpoint_from_env_def traces_protocol_from_env_def build_from_env_def with_vars_def
      var_def or_else_def unwrap_or_def otel_names get_trace_context_def set_trace_context_def act_def extractor_get_def
      extractor_keys_def Let_def res_simps split: result.splits)

lemma rootdir_tests:
  assumes "parse_options (to_json (Some (path_join dir ''runwasi''))) = Ok (Some (path_join dir ''runwasi''))"
  shows "test_determine_rootdir_with_options_file to_json parse_options dflt dir"
    and "test_determine_rootdir_without_options_file parse_options dflt dir"
proof -
  show "test_determine_rootdir_with_options_file to_json parse_options dflt dir"
    using assms by (simp add: test_determine_rootdir_with_options_file_def determine_rootdir_def Let_def)
qed (simp add: test_determine_rootdir_without_options_file_def determine_rootdir_def path_join_def DEFAULT_CONTAINER_ROOT_DIR_def is_absolute_def Let_def)

lemma pod_id_tests: "test_get_pod_id" "test_get_pod_id_no_annotation None" "test_get_pod_id_no_annotation (Some [])"
  by (simp_all add: test_get_pod_id_def test_get_pod_id_no_annotation_def pod_id_def)

end
