(* ===== verification/Windows_Support.thy ===== *)
theory Windows_Support
  imports Local_Lifecycle Logger
begin

text \<open>
  What the shims have for Windows: the directory of the containers (\<open>containerd-shimkit/src/sys/windows/mod.rs\<close>), the metrics
  (\<open>sys/windows/metrics.rs\<close>), an instance whose operations are \<open>todo!()\<close>
  (\<open>containerd-shim-wasm/src/sys/windows/container/instance.rs\<close>), and the named pipe of the logger with the thread that waits
  for clients (\<open>vendor/containerd_shim/sys/windows/named_pipe_logger.rs\<close>). Logger and thread share the pipe behind a mutex,
  which a panic of either of them poisons for both.
\<close>

section \<open>Directories and metrics\<close>

text \<open>\<open>PathBuf::join\<close> of Windows with a relative path of one component.\<close>

definition win_join :: "path \<Rightarrow> string \<Rightarrow> path" where
  "win_join p c = (if p = [] \<or> last p = CHR 0x5C then p @ c else p @ CHR 0x5C # c)"

fun os_string :: "os_value \<Rightarrow> string" where
  "os_string (Unicode s) = s"
| "os_string (NotUnicode s) = s"

definition win_container_root_dir :: "env \<Rightarrow> path" where
  "win_container_root_dir e =
     (let program_data = (case var_os e ''ProgramData'' of Some v \<Rightarrow> os_string v | None \<Rightarrow> ''C:'' @ CHR 0x5C # ''ProgramData'')
      in win_join (win_join program_data ''containerd'') ''state'')"

text \<open>\<open>convert\<close> is \<open>convert_to_any\<close> of the shim library, and the message it gets is empty.\<close>

definition win_get_metrics :: "(any \<Rightarrow> ('m, string) result) \<Rightarrow> u32 \<Rightarrow> ('m, string) result" where
  "win_get_metrics convert pid = convert \<lparr>type_url = [], any_value = []\<rparr>"

section \<open>The instance\<close>

definition todo :: "('a, 'e) result" where
  "todo = Panic ''not yet implemented''"

definition win_new :: "'w \<Rightarrow> string \<Rightarrow> instance_config \<Rightarrow> 'w \<times> 'i sandbox_result" where
  "win_new w cid cfg = (w, todo)"

definition win_start :: "'w \<Rightarrow> 'i \<Rightarrow> 'w \<times> u32 sandbox_result" where
  "win_start w i = (w, todo)"

definition win_kill :: "'w \<Rightarrow> 'i \<Rightarrow> u32 \<Rightarrow> 'w \<times> unit sandbox_result" where
  "win_kill w i sig = (w, todo)"

definition win_delete :: "'w \<Rightarrow> 'i \<Rightarrow> 'w \<times> unit sandbox_result" where
  "win_delete w i = (w, todo)"

text \<open>\<open>wait\<close> panics like the others; as no instance is ever made, it is not polled, and what a poll would give is left open.\<close>

definition win_ops :: "('w \<Rightarrow> 'i \<Rightarrow> exit_info option) \<Rightarrow> ('w, 'i) instance_ops" where
  "win_ops poll = \<lparr>i_new = win_new, i_start = win_start, i_kill = win_kill, i_delete = win_delete, i_poll = poll\<rparr>"

text \<open>So the task service of Windows never has a task: create does not succeed (it panics when the request itself is in order), nothing
  is registered and no event is sent.\<close>

lemma win_create_instance: "e_ops env = win_ops poll \<Longrightarrow> create_instance env s req \<noteq> (u, Ok x)"
  by (auto simp: create_instance_def win_ops_def win_new_def todo_def id_new_def on_world_def res_simps)

theorem windows_has_no_tasks:
  assumes "e_ops env = win_ops poll" and "l_instances s = []" and "task_create env s req = (t, r)"
  shows "\<not> is_ok r \<and> t = s\<lparr>l_world := l_world t\<rparr> \<and> (\<forall>cid. snd (task_start env t cid []) = Err (NotFound cid))"
proof -
  have t: "\<not> is_ok r" "t = s\<lparr>l_world := l_world t\<rparr>"
    using task_create_shape [of env s req] assms(3) win_create_instance [OF assms(1), of s req]
    by (auto split: prod.splits result.splits)
  have "l_instances t = []" by (subst t(2)) (simp add: assms(2))
  then show ?thesis using t by (simp add: task_start_def get_instance_def)
qed

section \<open>The pipe of the logger\<close>

text \<open>The pipe behind its mutex, and whether the thread still runs.\<close>

record pipe =
  pp_connected :: bool
  pp_poisoned :: bool
  pp_thread :: bool

text \<open>An event of the poll, and what \<open>connect\<close> and \<open>disconnect\<close> return when they are called for it.\<close>

record pipe_event =
  ev_writable :: bool
  ev_readable :: bool
  ev_connect :: "pipe_error option"
  ev_disconnect :: "pipe_error option"

text \<open>\<open>NamedPipeLogger::new\<close> unwraps what it does with the pipe.\<close>

definition pipe_new :: "(unit, string) result \<Rightarrow> (unit, string) result \<Rightarrow> (unit, string) result \<Rightarrow> (pipe, string) result" where
  "pipe_new made polled registered =
     and_then (expect ''called Result::unwrap() on an Err value'' made) (\<lambda>_.
     and_then (expect ''called Result::unwrap() on an Err value'' polled) (\<lambda>_.
     and_then (expect ''called Result::unwrap() on an Err value'' registered) (\<lambda>_.
       Ok \<lparr>pp_connected = False, pp_poisoned = False, pp_thread = True\<rparr>)))"

text \<open>A panic in the thread: the guard of the mutex is dropped while unwinding.\<close>

definition thread_panics :: "pipe \<Rightarrow> pipe" where
  "thread_panics p = p\<lparr>pp_poisoned := True, pp_thread := False\<rparr>"

definition on_writable :: "pipe_error option \<Rightarrow> pipe \<Rightarrow> pipe" where
  "on_writable r p =
     (if pp_poisoned p then p\<lparr>pp_thread := False\<rparr>
      else case r of
        None \<Rightarrow> p\<lparr>pp_connected := True\<rparr>
      | Some Interrupted \<Rightarrow> p
      | Some WouldBlock \<Rightarrow> p
      | Some _ \<Rightarrow> thread_panics p)"

definition on_readable :: "pipe_error option \<Rightarrow> pipe \<Rightarrow> pipe" where
  "on_readable r p =
     (if pp_poisoned p then p\<lparr>pp_thread := False\<rparr>
      else case r of None \<Rightarrow> p\<lparr>pp_connected := False\<rparr> | Some _ \<Rightarrow> thread_panics p)"

definition accept_event :: "pipe \<Rightarrow> pipe_event \<Rightarrow> pipe" where
  "accept_event p e =
     (let p = (if pp_thread p \<and> ev_writable e then on_writable (ev_connect e) p else p)
      in if pp_thread p \<and> ev_readable e then on_readable (ev_disconnect e) p else p)"

text \<open>\<open>log\<close> of \<open>Logger\<close> with the lock: a panic while it is held poisons it.\<close>

definition locked_log ::
  "pipe \<Rightarrow> logger \<Rightarrow> string \<Rightarrow> log_record \<Rightarrow> nat \<times> pipe_error option \<Rightarrow> (pipe \<times> logger) \<times> (unit, string) result" where
  "locked_log p g now r wr =
     (if \<not> enabled g (rc_level r) then ((p, g), Ok ())
      else if pp_poisoned p then ((p, g), Panic ''called Result::unwrap() on an Err value: PoisonError'')
      else (case pipe_log g now r wr of (g, res) \<Rightarrow> ((if is_panic res then p\<lparr>pp_poisoned := True\<rparr> else p, g), res)))"

datatype pipe_label = Client pipe_event | LogRecord string log_record "nat \<times> pipe_error option"

fun pipe_step :: "pipe \<times> logger \<Rightarrow> pipe_label \<Rightarrow> pipe \<times> logger" where
  "pipe_step (p, g) (Client e) = (accept_event p e, g)"
| "pipe_step (p, g) (LogRecord now r wr) = fst (locked_log p g now r wr)"

interpretation pipe: machine s pipe_step for s .

abbreviation pipe_run :: "pipe \<times> logger \<Rightarrow> pipe_label list \<Rightarrow> pipe \<times> logger" where
  "pipe_run \<equiv> machine.run pipe_step"

section \<open>Failures of the pipe\<close>

text \<open>A failure that is borne: of \<open>connect\<close> one that only asks to be patient, of \<open>disconnect\<close> none, of writing those of
  \<open>pipe_error_ignored\<close>.\<close>

fun borne :: "pipe_label \<Rightarrow> bool" where
  "borne (Client e) \<longleftrightarrow> (ev_writable e \<longrightarrow> ev_connect e \<in> {None, Some Interrupted, Some WouldBlock}) \<and> (ev_readable e \<longrightarrow> ev_disconnect e = None)"
| "borne (LogRecord now r (n, e)) \<longleftrightarrow> (case e of None \<Rightarrow> True | Some x \<Rightarrow> pipe_error_ignored x)"

lemma borne_step: "borne l \<Longrightarrow> \<not> pp_poisoned p \<Longrightarrow> pp_thread p \<Longrightarrow>
    \<not> pp_poisoned (fst (pipe_step (p, g) l)) \<and> pp_thread (fst (pipe_step (p, g) l))"
  by (cases l rule: borne.cases)
    (auto simp: accept_event_def on_writable_def on_readable_def locked_log_def pipe_log_def Let_def split: option.splits prod.splits)

lemma poisoned_step:
  "pp_poisoned (fst s) \<Longrightarrow> pp_poisoned (fst (pipe_step s l)) \<and> snd (pipe_step s l) = snd s"
  by (cases s; cases l)
    (auto simp: accept_event_def on_writable_def on_readable_def locked_log_def Let_def split: option.splits)

text \<open>As long as all failures are borne, the lock is never poisoned and the thread runs.\<close>

lemma borne_run:
  "list_all borne ls \<Longrightarrow> \<not> pp_poisoned (fst s) \<Longrightarrow> pp_thread (fst s) \<Longrightarrow>
   \<not> pp_poisoned (fst (pipe_run s ls)) \<and> pp_thread (fst (pipe_run s ls))"
proof (induction ls arbitrary: s)
  case (Cons l ls)
  then show ?case using borne_step [of l "fst s" "snd s"] by simp
qed simp

text \<open>One client that fails to connect in any other way ends logging for the whole shim: the thread dies with the lock in its hand, and
  whatever happens later, every record of an enabled level makes the thread that logs it panic, and nothing is written any
  more.\<close>

theorem failed_client_ends_logging:
  assumes "ev_writable e" and "ev_connect e = Some x" and "x \<noteq> Interrupted" and "x \<noteq> WouldBlock" and "pp_thread p"
    and "(q, h) = pipe_run (pipe_step (p, g) (Client e)) ls"
  shows "\<not> pp_thread (accept_event p e) \<and> h = g \<and> (enabled g (rc_level r) \<longrightarrow> is_panic (snd (locked_log q h now r wr)))"
proof -
  have d: "pp_poisoned (accept_event p e) \<and> \<not> pp_thread (accept_event p e)"
    using assms(1-5) by (cases x) (auto simp: accept_event_def on_writable_def thread_panics_def Let_def)
  have "pp_poisoned (fst (pipe_run (accept_event p e, g) ls)) \<and> snd (pipe_run (accept_event p e, g) ls) = g"
    by (rule pipe.run_invariant [where I = "\<lambda>s. pp_poisoned (fst s) \<and> snd s = g"]) (use d poisoned_step in auto)
  then have "pp_poisoned q \<and> h = g" using assms(6) [symmetric] by simp
  then show ?thesis using d by (simp add: locked_log_def)
qed

text \<open>A client whose connection was closed already (\<open>ERROR_NO_DATA\<close>, 232), which writing bears, is such a failure of
  \<open>connect\<close>.\<close>

theorem failed_client_ends_logging_witness:
  "(let p = \<lparr>pp_connected = False, pp_poisoned = False, pp_thread = True\<rparr>;
        g = \<lparr>lg_max_level = Info, lg_installed = True, lg_key_values = [], lg_file = []\<rparr>;
        e = \<lparr>ev_writable = True, ev_readable = False, ev_connect = Some (RawOsError 232), ev_disconnect = None\<rparr>
    in pipe_error_ignored (RawOsError 232) \<and> pp_poisoned (fst (pipe_run (pipe_step (p, g) (Client e)) []))
       \<and> \<not> pp_thread (accept_event p e))"
  using failed_client_ends_logging [of "\<lparr>ev_writable = True, ev_readable = False, ev_connect = Some (RawOsError 232), ev_disconnect = None\<rparr>"
      "RawOsError 232" "\<lparr>pp_connected = False, pp_poisoned = False, pp_thread = True\<rparr>" _ _ _ "[]"]
  by (simp add: pipe_error_ignored_def accept_event_def on_writable_def thread_panics_def)

end
