(* ===== verification/Platform_Io.thy ===== *)
theory Platform_Io
  imports Windows_Support
begin

text \<open>
  The calls of the operating system behind the two platforms: the metrics of a process on unix (\<open>sys/unix/metrics.rs\<close>), and how the standard
  streams of a container are opened on unix (\<open>sys/unix/stdio.rs\<close>) and on Windows (\<open>sys/windows/stdio.rs\<close>). Reading the control
  groups, the conversion to a message and opening a file are parameters.
\<close>

section \<open>Metrics\<close>

definition unix_get_metrics ::
  "(u32 \<Rightarrow> ('g, string) result) \<Rightarrow> ('g \<Rightarrow> ('m, string) result) \<Rightarrow> u32 \<Rightarrow> ('m, string) result" where
  "unix_get_metrics collect convert pid = and_then (collect pid) convert"

section \<open>Standard streams\<close>

text \<open>\<open>std::fs::OpenOptions\<close>.\<close>

record open_options =
  oo_read :: bool
  oo_write :: bool
  oo_custom_flags :: u32

definition open_options_new :: open_options where
  "open_options_new = \<lparr>oo_read = False, oo_write = False, oo_custom_flags = 0\<rparr>"

definition unix_open :: "(open_options \<Rightarrow> path \<Rightarrow> ('f, io_error) result) \<Rightarrow> path \<Rightarrow> ('f, io_error) result" where
  "unix_open os_open p = os_open (open_options_new\<lparr>oo_read := True, oo_write := True\<rparr>) p"

definition FILE_FLAG_OVERLAPPED :: u32 where
  "FILE_FLAG_OVERLAPPED = 0x40000000"

text \<open>\<open>Path::starts_with\<close> compares components. The path of the pipes is one prefix component, the device namespace
  \<open>pipe\<close>, with its root; on Windows both slashes separate.\<close>

definition win_sep :: "char \<Rightarrow> bool" where
  "win_sep c \<longleftrightarrow> c = CHR 0x5C \<or> c = CHR ''/''"

fun device_namespace :: "path \<Rightarrow> string option" where
  "device_namespace (a # b # d # c # rest) =
     (if win_sep a \<and> win_sep b \<and> d = CHR ''.'' \<and> win_sep c then Some (takeWhile (\<lambda>x. \<not> win_sep x) rest) else None)"
| "device_namespace _ = None"

definition is_pipe_path :: "path \<Rightarrow> bool" where
  "is_pipe_path p \<longleftrightarrow> device_namespace p = Some ''pipe''"

definition win_open :: "(open_options \<Rightarrow> path \<Rightarrow> ('f, io_error) result) \<Rightarrow> path \<Rightarrow> ('f, io_error) result" where
  "win_open os_open p =
     (let options = open_options_new\<lparr>oo_read := True, oo_write := True\<rparr>;
          options = (if is_pipe_path p then options\<lparr>oo_custom_flags := FILE_FLAG_OVERLAPPED\<rparr> else options)
      in os_open options p)"

text \<open>The standard input of a container on Windows: a pipe of containerd, whatever its name, is opened for reading and writing with overlapped
  I/O; a file on a drive without; and without a path nothing is opened. The other streams and unix are opened the same way, unix
  without the flag. (The comparison is of the component as a whole: \<open>pipe2\<close> is not a pipe.)\<close>

theorem stdin_of_windows:
  "let p = [CHR 0x5C, CHR 0x5C, CHR ''.'', CHR 0x5C] @ ''pipe'' @ CHR 0x5C # nm;
       rw = \<lparr>oo_read = True, oo_write = True, oo_custom_flags = 0\<rparr>
   in open_stdin (win_open os_open) (cfg\<lparr>ic_stdin := p\<rparr>) = os_open (rw\<lparr>oo_custom_flags := FILE_FLAG_OVERLAPPED\<rparr>) p
      \<and> open_stdin (win_open os_open) (cfg\<lparr>ic_stdin := drive # CHR '':'' # q\<rparr>) = os_open rw (drive # CHR '':'' # q)
      \<and> open_stdin (unix_open os_open) (cfg\<lparr>ic_stdin := a # q\<rparr>) = os_open rw (a # q)
      \<and> is_err (open_stdin (win_open os_open) (cfg\<lparr>ic_stdin := []\<rparr>))
      \<and> \<not> is_pipe_path ([CHR 0x5C, CHR 0x5C, CHR ''.'', CHR 0x5C] @ ''pipe2'' @ CHR 0x5C # nm)"
proof -
  have "\<not> is_pipe_path (drive # CHR '':'' # q)"
    by (cases "(drive # CHR '':'' # q)" rule: device_namespace.cases) (auto simp: is_pipe_path_def win_sep_def)
  then show ?thesis
    by (simp add: Let_def open_stdin_def win_open_def unix_open_def open_options_new_def is_pipe_path_def win_sep_def)
qed

end
