(* ===== verification/Cache_Coherence.thy ===== *)
theory Cache_Coherence
  imports Content_Cache Wasmtime_Shim
begin

text \<open>
  The cache of precompiled layers is transparent. Over any sequence of loads of the images of a node, by any engines
  and versions, successful or not, with containerd's collector at work in between, the layers that \<open>load_modules\<close> hands
  out are those that a compilation of the image's own layers would give.

  The invariant is that of a memo table: what a layer names under the label of an engine is what that engine makes of
  the layer's content. A sequence of loads may contain failed ones, so the interface \<open>content_store\<close> is extended to
  \<open>steady_store\<close>, which also says what a call of containerd may have changed when it fails.
\<close>

section \<open>The invariant\<close>

text \<open>The images of the node, each with its wasm layers.\<close>

type_synonym images = "(string \<times> descriptor list) set"

definition layer_digests :: "images \<Rightarrow> string set" where
  "layer_digests imgs = (\<Union>(img, cfgs) \<in> imgs. digest ` set cfgs)"

definition images_ok :: "images \<Rightarrow> cstore \<Rightarrow> bool" where
  "images_ok imgs s \<longleftrightarrow> (\<forall>(img, cfgs) \<in> imgs. image_ok s img cfgs) \<and> fst ` imgs \<inter> layer_digests imgs = {}"

text \<open>\<open>cc pid b\<close>: what the engine with label \<open>pid\<close> makes of the content \<open>b\<close>; \<open>None\<close> for content that it leaves as it is.\<close>

type_synonym compilers = "string \<Rightarrow> string \<Rightarrow> string option"

definition fresh :: "compilers \<Rightarrow> string \<Rightarrow> string \<Rightarrow> string" where
  "fresh cc pid b = (case cc pid b of None \<Rightarrow> b | Some x \<Rightarrow> x)"

definition coherent :: "(string \<Rightarrow> string) \<Rightarrow> compilers \<Rightarrow> images \<Rightarrow> cstore \<Rightarrow> bool" where
  "coherent sha cc imgs s \<longleftrightarrow>
     (\<forall>dg ls engine version d. dg \<in> layer_digests imgs \<longrightarrow> cs_labels s dg = Some ls \<longrightarrow>
        map_of ls (precompile_label engine version) = Some d \<longrightarrow>
        (\<exists>b x. dg = ''sha256:'' @ sha b \<and> cc (precompile_label engine version) b = Some x \<and> d = ''sha256:'' @ sha x))"

definition warm :: "(string \<Rightarrow> string) \<Rightarrow> compilers \<Rightarrow> images \<Rightarrow> cstore \<Rightarrow> bool" where
  "warm sha cc imgs s \<longleftrightarrow> images_ok imgs s \<and> coherent sha cc imgs s"

lemma warmI: "images_ok imgs s \<Longrightarrow> coherent sha cc imgs s \<Longrightarrow> warm sha cc imgs s"
  by (simp add: warm_def)

lemma images_okD: "images_ok imgs s \<Longrightarrow> (img, cfgs) \<in> imgs \<Longrightarrow> image_ok s img cfgs"
  by (auto simp: images_ok_def)

lemma layer_digestsI: "(img, cfgs) \<in> imgs \<Longrightarrow> c \<in> set cfgs \<Longrightarrow> digest c \<in> layer_digests imgs"
  by (auto simp: layer_digests_def)

lemma layer_labels:
  assumes "images_ok imgs s" and "dg \<in> layer_digests imgs"
  shows "kept s dg" and "cs_labels s dg \<noteq> None"
proof -
  obtain img cfgs c where "(img, cfgs) \<in> imgs" "c \<in> set cfgs" "dg = digest c"
    using assms(2) by (auto simp: layer_digests_def)
  moreover then have "image_ok s img cfgs" using images_okD [OF assms(1)] by blast
  ultimately show "kept s dg" and "cs_labels s dg \<noteq> None"
    using image_ok_kept(2) by (auto simp: image_ok_def)
qed

text \<open>It only concerns the labels of the layers.\<close>

lemma coherent_labels:
  assumes "coherent sha cc imgs s" and "\<And>dg. dg \<in> layer_digests imgs \<Longrightarrow> cs_labels t dg = cs_labels s dg"
  shows "coherent sha cc imgs t"
  using assms unfolding coherent_def by metis

lemma images_ok_gc: "gc s t \<Longrightarrow> images_ok imgs s \<Longrightarrow> images_ok imgs t"
  using image_ok_gc [of s t] by (force simp: images_ok_def)

lemma warm_gc:
  assumes "gc s t" and "warm sha cc imgs s"
  shows "warm sha cc imgs t"
proof (rule warmI)
  have ok: "images_ok imgs s" using assms(2) by (simp add: warm_def)
  then show "images_ok imgs t" by (rule images_ok_gc [OF assms(1)])
  show "coherent sha cc imgs t"
    by (rule coherent_labels [of sha cc imgs s]) (use assms(2) gcD [OF assms(1) layer_labels(1) [OF ok]] in \<open>simp_all add: warm_def\<close>)
qed

lemma warm_leases [simp]: "warm sha cc imgs (s\<lparr>cs_leases := l\<rparr>) = warm sha cc imgs s"
  by (simp add: warm_def images_ok_def image_ok_def coherent_def)

lemma warm_add_content:
  assumes "warm sha cc imgs s"
  shows "warm sha cc imgs (add_content s l d b ls)"
proof (rule warmI)
  have ok: "images_ok imgs s" using assms by (simp add: warm_def)
  have labels: "cs_labels (add_content s l d b ls) x = cs_labels s x" if "cs_labels s x \<noteq> None" for x
    using that by (auto simp: add_content_def)
  have "image_ok (add_content s l d b ls) img cfgs" if "image_ok s img cfgs" for img cfgs
    using that labels unfolding image_ok_def by (auto simp: add_content_def)
  then show "images_ok imgs (add_content s l d b ls)" using ok by (auto simp: images_ok_def)
  show "coherent sha cc imgs (add_content s l d b ls)"
    by (rule coherent_labels [of sha cc imgs s]) (use assms labels layer_labels(2) [OF ok] in \<open>auto simp: warm_def\<close>)
qed

text \<open>The labels of a layer, when what they name is what the engine makes of the layer.\<close>

lemma warm_layer:
  assumes inv: "warm sha cc imgs s" and c: "dg \<in> layer_digests imgs" and ls: "cs_labels s dg = Some ls"
    and pid: "pid = precompile_label engine version"
    and b: "dg = ''sha256:'' @ sha b" "cc pid b = Some x" and d: "d = ''sha256:'' @ sha x"
  shows "warm sha cc imgs (set_labels s dg (AList.update (gc_label i) d (AList.update pid d ls)))"
proof (rule warmI)
  let ?t = "set_labels s dg (AList.update (gc_label i) d (AList.update pid d ls))"
  have "image_ok ?t img cfgs" if "(img, cfgs) \<in> imgs" "image_ok s img cfgs" for img cfgs
  proof -
    have "img \<noteq> dg" using inv c that(1) by (force simp: warm_def images_ok_def)
    then show ?thesis using that(2) by (auto simp: image_ok_def set_labels_def)
  qed
  then show "images_ok imgs ?t" using inv by (auto simp: warm_def images_ok_def)
  have other: "precompile_label e v \<noteq> gc_label i" for e v
    using precompile_label_not_gc gc_label_key by metis
  show "coherent sha cc imgs ?t"
    unfolding coherent_def
  proof (intro allI impI)
    fix dg' ls' e v d'
    assume a: "dg' \<in> layer_digests imgs" "cs_labels ?t dg' = Some ls'" "map_of ls' (precompile_label e v) = Some d'"
    show "\<exists>b x. dg' = ''sha256:'' @ sha b \<and> cc (precompile_label e v) b = Some x \<and> d' = ''sha256:'' @ sha x"
    proof (cases "dg' = dg \<and> precompile_label e v = pid")
      case True
      then have "d' = d" using a(2,3) other [of e v] by (auto simp: set_labels_def)
      then show ?thesis using True b d by auto
    next
      case False
      then obtain ls0 where "cs_labels s dg' = Some ls0" "map_of ls0 (precompile_label e v) = Some d'"
        using a(2,3) ls other [of e v] by (cases "dg' = dg") (auto simp: set_labels_def)
      then show ?thesis using inv a(1) unfolding warm_def coherent_def by blast
    qed
  qed
qed

text \<open>The labels of an image.\<close>

lemma warm_image:
  assumes inv: "warm sha cc imgs s" and img: "img \<in> fst ` imgs" and ils: "cs_labels s img = Some ils"
    and pid: "pid = precompile_label engine version"
  shows "warm sha cc imgs (set_labels s img (AList.update pid v (AList.update (gc_label i) d ils)))"
proof (rule warmI)
  let ?ls = "AList.update pid v (AList.update (gc_label i) d ils)"
  let ?t = "set_labels s img ?ls"
  have notlayer: "img \<notin> layer_digests imgs" using inv img by (auto simp: warm_def images_ok_def)
  have same: "map_of ?ls k = map_of ils k" if "gc_key k" "k \<notin> range gc_label" for k
    using that pid by (auto simp: image_iff)
  have "image_ok ?t img' cfgs" if "(img', cfgs) \<in> imgs" for img' cfgs
  proof -
    have ok: "image_ok s img' cfgs" using inv that images_okD by (auto simp: warm_def)
    have "\<forall>c \<in> set cfgs. digest c \<noteq> img" using notlayer layer_digestsI [OF that] by auto
    moreover have "\<exists>k. gc_key k \<and> k \<notin> range gc_label \<and> map_of ?ls k = Some (digest c)" if "img' = img" "c \<in> set cfgs" for c
    proof -
      have "\<exists>k. gc_key k \<and> k \<notin> range gc_label \<and> map_of ils k = Some (digest c)"
        using ok ils that by (auto simp: image_ok_def)
      then show ?thesis using same by metis
    qed
    ultimately show ?thesis using ok by (auto simp: image_ok_def set_labels_def)
  qed
  then show "images_ok imgs ?t" using inv by (auto simp: warm_def images_ok_def)
  show "coherent sha cc imgs ?t"
    by (rule coherent_labels [of sha cc imgs s]) (use inv notlayer in \<open>auto simp: warm_def set_labels_def\<close>)
qed

section \<open>The interface, with failures\<close>

text \<open>What a call that is not an update of labels may do to the store, whatever it replies: open content is added or not.\<close>

definition adds :: "cstore \<Rightarrow> cstore \<Rightarrow> bool" where
  "adds s t \<longleftrightarrow> gc s t \<or> (\<exists>l d b ls. gc (add_content s l d b ls) t)"

lemma adds_refl [simp]: "adds s s" and adds_content [simp]: "adds s (add_content s l d b ls)"
  unfolding adds_def using gc_refl by blast+

text \<open>A predicate on stores that no such call can falsify.\<close>

definition settled :: "(cstore \<Rightarrow> bool) \<Rightarrow> bool" where
  "settled P \<longleftrightarrow> (\<forall>s t. gc s t \<longrightarrow> P s \<longrightarrow> P t) \<and> (\<forall>s l. P s \<longrightarrow> P (s\<lparr>cs_leases := l\<rparr>))
     \<and> (\<forall>s l d b ls. P s \<longrightarrow> P (add_content s l d b ls))"

lemma settledD:
  assumes "settled P" and "P s"
  shows "gc s t \<Longrightarrow> P t" and "gc (s\<lparr>cs_leases := l\<rparr>) t \<Longrightarrow> P t" and "adds s t \<Longrightarrow> P t"
  using assms unfolding settled_def adds_def by blast+

lemma warm_settled: "settled (warm sha cc imgs)"
  unfolding settled_def using warm_gc [where sha = sha] warm_add_content [where sha = sha] by (auto simp: warm_leases)

locale steady_store = content_store +
  assumes update_any: "cd_update cd w i = (w', updated) \<Longrightarrow>
      gc (abs w) (abs w') \<or> gc (set_labels (abs w) (in_digest i) (in_labels i)) (abs w')"
    and lease_any: "cd_lease_create cd w reference = (w', created) \<Longrightarrow> \<exists>ll. gc ((abs w)\<lparr>cs_leases := ll\<rparr>) (abs w')"
    and write_any: "cd_write cd w l q = (w', opened) \<Longrightarrow> adds (abs w) (abs w')"
    and send_any: "cd_send cd w q = (w', sent) \<Longrightarrow> adds (abs w) (abs w')"
    and message_any: "cd_message cd w = (w', received) \<Longrightarrow> adds (abs w) (abs w')"
begin

lemma send_message_keeps:
  assumes "settled P" and "P (abs w)"
  shows "P (abs (fst (send_message cd w q dig)))"
proof -
  obtain w1 r where 1: "cd_send cd w q = (w1, r)" by fastforce
  obtain w2 m where 2: "cd_message cd w1 = (w2, m)" by fastforce
  have "P (abs w1)" using settledD(3) [OF assms send_any [OF 1]] .
  moreover have "P (abs w2)" using settledD(3) [OF assms(1) calculation message_any [OF 2]] .
  ultimately show ?thesis using 1 2 by (cases r) (auto simp: send_message_def)
qed

lemma write_chunks_keeps:
  assumes "settled P" and "P (abs w)"
  shows "P (abs (fst (write_chunks cd data expected offset w)))"
  using assms(2)
proof (induction "nat (int (length data) - offset)" arbitrary: offset w rule: less_induct)
  case less
  let ?e = "min (offset + MAX_WRITE_CHUNK_SIZE_BYTES) (int (length data))"
  have "nat (int (length data) - ?e) < nat (int (length data) - offset)" if "offset < int (length data)"
    using that by (simp add: MAX_WRITE_CHUNK_SIZE_BYTES_def)
  note IH = less.hyps [OF this]
  have "P (abs (fst (st_then (send_message cd w (write_chunk data offset ?e) expected)
      (\<lambda>w _. write_chunks cd data expected ?e w))))" if "offset < int (length data)"
    by (rule fst_st_then_keep [where P = "\<lambda>w. P (abs w)"])
      (use send_message_keeps [OF assms(1) less.prems] IH [OF that] in auto)
  then show ?case using less.prems by (subst write_chunks.simps) (auto simp: Let_def)
qed

lemma save_digest_keeps:
  assumes "settled P" and "P (abs w)"
  shows "P (abs (fst (save_digest cd w lid reference expected labels data)))"
proof -
  let ?q = "(default_request Stat)\<lparr>wq_ref := reference, wq_expected := expected\<rparr>"
  obtain w1 r where 1: "cd_write cd w lid ?q = (w1, r)" by fastforce
  obtain w2 m where 2: "cd_message cd w1 = (w2, m)" by fastforce
  have P1: "P (abs w1)" using settledD(3) [OF assms write_any [OF 1]] .
  have P2: "P (abs w2)" using settledD(3) [OF assms(1) P1 message_any [OF 2]] .
  show ?thesis
  proof (cases r)
    case (Ok a)
    show ?thesis unfolding save_digest_def 1 2 Ok prod.case result.case
      by (intro fst_st_then_keep [where P = "\<lambda>w. P (abs w)"])
        (auto simp: P2 write_chunks_keeps [OF assms(1)] send_message_keeps [OF assms(1)])
  next
    case (Err e)
    then show ?thesis using P1 1 by (cases e) (simp_all add: save_digest_def)
  qed (simp add: save_digest_def 1 P1)
qed

lemma drop_lease_keeps:
  assumes "settled P" and "P (abs w)"
  shows "P (abs (drop_lease cd w lid))"
proof -
  obtain w' r where "cd_lease_delete cd w lid = (w', r)" by fastforce
  then show ?thesis using lease_delete [of w lid w' r] settledD(1,2) [OF assms] by (auto simp: drop_lease_def)
qed

lemma save_content_keeps:
  assumes "settled P" and "P (abs w)"
  shows "P (abs (fst (save_content cd w data unique_id labels)))"
  unfolding save_content_def Let_def
proof (rule fst_st_then_keep [where P = "\<lambda>w. P (abs w)"])
  let ?r = "''precompile-'' @ unique_id"
  obtain w1 r where 1: "cd_lease_create cd w ?r = (w1, r)" by fastforce
  then show "P (abs (fst (lease cd w ?r)))"
    using lease_any [OF 1] settledD(2) [OF assms] by (auto simp: lease_def)
next
  fix v lid
  assume "P (abs v)"
  let ?s = "save_digest cd v lid (''precompile-'' @ unique_id) (''sha256:'' @ cd_sha256 cd data) labels data"
  obtain v1 x where x: "?s = (v1, x)" by fastforce
  then have "P (abs v1)" using save_digest_keeps [OF assms(1) \<open>P (abs v)\<close>] by (metis fst_conv)
  then show "P (abs (fst (case ?s of (w, Ok dig) \<Rightarrow> (w, Ok (lid, dig)) | (w, Err e) \<Rightarrow> (drop_lease cd w lid, Err e)
      | (w, Panic m) \<Rightarrow> (drop_lease cd w lid, Panic m))))"
    unfolding x using drop_lease_keeps [OF assms(1)] by (cases x) simp_all
qed

lemma save_digest_expected:
  assumes "save_digest cd w lid reference expected labels data = (w', Ok dig)"
  shows "dig = expected"
proof -
  obtain v x where w: "cd_write cd w lid ((default_request Stat)\<lparr>wq_ref := reference, wq_expected := expected\<rparr>) = (v, x)"
    by fastforce
  consider (exists) "x = Err WriteAlreadyExists" | (opened) "x = Ok ()"
    using assms w by (cases x) (auto simp: save_digest_def split: write_error.splits)
  then show ?thesis
  proof cases
    case exists
    then show ?thesis using assms w by (simp add: save_digest_def)
  next
    case opened
    then show ?thesis using save_digest_opened [OF _ assms] w by blast
  qed
qed

lemma save_content_digest:
  "save_content cd w data unique_id labels = (w', Ok (lid, dig)) \<Longrightarrow> dig = ''sha256:'' @ cd_sha256 cd data"
  using save_content_Ok save_digest_expected by metis

lemma update_info_keeps:
  assumes "settled P" and "P (abs w)" and "P (set_labels (abs w) (in_digest i) (in_labels i))"
  shows "P (abs (fst (update_info cd w i)))"
proof -
  obtain w' r where u: "cd_update cd w i = (w', r)" by fastforce
  then show ?thesis
    using update_any [OF u] settledD(1) [OF assms(1,2)] settledD(1) [OF assms(1,3)] by (auto simp: update_info_def)
qed

lemma update_labels_warm:
  assumes inv: "warm (cd_sha256 cd) cc imgs (abs w)" and img: "img \<in> fst ` imgs" and c: "digest c \<in> layer_digests imgs"
    and pid: "pid = precompile_label engine version" and b: "digest c = ''sha256:'' @ cd_sha256 cd b" "cc pid b = Some x"
    and dig: "dig = ''sha256:'' @ cd_sha256 cd x"
  shows "warm (cd_sha256 cd) cc imgs (abs (fst (update_labels cd w img pid i c dig)))"
proof -
  let ?W = "warm (cd_sha256 cd) cc imgs"
  have layer: "?W (abs (fst (update_info cd w (j\<lparr>in_labels := AList.update (gc_label i) dig (AList.update pid dig (in_labels j))\<rparr>))))"
    if "get_info cd w (digest c) = Ok j" for j
  proof -
    from that obtain ls where ls: "cs_labels (abs w) (digest c) = Some ls" "j = \<lparr>in_digest = digest c, in_labels = ls\<rparr>"
      by (auto simp: info_labels)
    show ?thesis
      using warm_layer [OF inv c ls(1) pid b dig, of i] by (intro update_info_keeps [OF warm_settled inv]) (simp add: ls(2))
  qed
  have image: "?W (abs (fst (update_info cd v (j\<lparr>in_labels := AList.update pid ''true'' (AList.update (gc_label i) dig (in_labels j))\<rparr>))))"
    if "?W (abs v)" and "get_info cd v img = Ok j" for v j
  proof -
    from that(2) obtain ls where ls: "cs_labels (abs v) img = Some ls" "j = \<lparr>in_digest = img, in_labels = ls\<rparr>"
      by (auto simp: info_labels)
    show ?thesis
      using warm_image [OF that(1) img ls(1) pid, of "''true''" i dig]
      by (intro update_info_keeps [OF warm_settled that(1)]) (simp add: ls(2))
  qed
  show ?thesis unfolding update_labels_def
    by (intro fst_st_then_inv [where P = "\<lambda>w. ?W (abs w)"]) (use inv layer image in \<open>force+\<close>)
qed

lemma store_layer_warm:
  assumes inv: "warm (cd_sha256 cd) cc imgs (abs w)" and img: "img \<in> fst ` imgs" and c: "digest (wl_config l) \<in> layer_digests imgs"
    and pid: "pid = precompile_label engine version"
    and b: "digest (wl_config l) = ''sha256:'' @ cd_sha256 cd (wl_layer l)" "cc pid (wl_layer l) = Some compiled"
  shows "warm (cd_sha256 cd) cc imgs (abs (fst (store_layer cd w img pid i l compiled)))"
  unfolding store_layer_def
proof (rule fst_st_then_inv [where P = "\<lambda>w. warm (cd_sha256 cd) cc imgs (abs w)"])
  let ?s = "save_content cd w compiled pid [(pid @ ''/original'', digest (wl_config l))]"
  show saved: "warm (cd_sha256 cd) cc imgs (abs (fst ?s))"
    by (rule save_content_keeps [OF warm_settled inv])
  fix v p
  assume s: "?s = (v, Ok p)"
  obtain lid dig where p: "p = (lid, dig)" by fastforce
  have v: "warm (cd_sha256 cd) cc imgs (abs v)" using saved s by simp
  obtain u x where u: "update_labels cd v img pid i (wl_config l) dig = (u, x)" by fastforce
  have "dig = ''sha256:'' @ cd_sha256 cd compiled" using save_content_digest s p by blast
  from update_labels_warm [OF v img c pid b this, of i] have w: "warm (cd_sha256 cd) cc imgs (abs u)" by (simp add: u)
  show "warm (cd_sha256 cd) cc imgs (abs (fst (case p of (lid, dig) \<Rightarrow>
      (case update_labels cd v img pid i (wl_config l) dig of
         (w, Ok _) \<Rightarrow> (drop_lease cd w lid, Ok \<lparr>wl_config = wl_config l, wl_layer = compiled\<rparr>)
       | (w, Err e) \<Rightarrow> (drop_lease cd w lid, Err e)
       | (w, Panic m) \<Rightarrow> (drop_lease cd w lid, Panic m)))))"
    using drop_lease_keeps [OF warm_settled w] by (cases x) (simp_all add: p u)
qed

lemma store_layers_warm:
  assumes "warm (cd_sha256 cd) cc imgs (abs w)" and img: "img \<in> fst ` imgs" and pid: "pid = precompile_label engine version"
    and "\<And>l x. (l, Some x) \<in> set lcs \<Longrightarrow> digest (wl_config l) \<in> layer_digests imgs
      \<and> digest (wl_config l) = ''sha256:'' @ cd_sha256 cd (wl_layer l) \<and> cc pid (wl_layer l) = Some x"
  shows "warm (cd_sha256 cd) cc imgs (abs (fst (store_layers cd img pid i lcs w)))"
  using assms(1,4)
proof (induction lcs arbitrary: i w)
  case (Cons lc lcs)
  obtain l c where lc: "lc = (l, c)" by fastforce
  have IH: "warm (cd_sha256 cd) cc imgs (abs (fst (store_layers cd img pid j lcs v)))"
    if "warm (cd_sha256 cd) cc imgs (abs v)" for j v
    by (rule Cons.IH [OF that]) (use Cons.prems(2) in auto)
  have keep: "warm (cd_sha256 cd) cc imgs (abs (fst (st_then (store_layers cd img pid j lcs v) (\<lambda>w rest. (w, Ok (k # rest))))))"
    if "warm (cd_sha256 cd) cc imgs (abs v)" for j v k
    by (rule fst_st_then_keep [where P = "\<lambda>w. warm (cd_sha256 cd) cc imgs (abs w)"]) (simp_all add: IH that)
  show ?case
  proof (cases c)
    case None
    then show ?thesis using keep Cons.prems(1) lc by simp
  next
    case (Some x)
    have "warm (cd_sha256 cd) cc imgs (abs (fst (store_layer cd w img pid i l x)))"
      using store_layer_warm [OF Cons.prems(1) img _ pid] Cons.prems(2) [of l x] unfolding lc Some by (meson list.set_intros(1))
    then show ?thesis unfolding lc Some store_layers.simps
      by (rule fst_st_then_keep [where P = "\<lambda>w. warm (cd_sha256 cd) cc imgs (abs w)"]) (rule keep)
  qed
qed simp

text \<open>What is read: the layer itself, or what the engine makes of it.\<close>

lemma read_original_content:
  "read_original_layer cd w c = Ok l \<Longrightarrow> digest c = ''sha256:'' @ cd_sha256 cd (wl_layer l)"
  using addressed [OF readable_blob] by (force simp: read_original_layer_def res_simps simp del: append.simps)

lemma read_layers_original:
  "read_layers (read_original_layer cd w) cs = Ok ls \<Longrightarrow> l \<in> set ls \<Longrightarrow>
     digest (wl_config l) = ''sha256:'' @ cd_sha256 cd (wl_layer l)"
proof (induction cs arbitrary: ls)
  case (Cons c cs)
  then obtain k ks where k: "read_original_layer cd w c = Ok k" and "read_layers (read_original_layer cd w) cs = Ok ks" "ls = k # ks"
    by (auto simp: res_simps)
  then show ?case using Cons.IH [of ks] Cons.prems(2) read_original_content [OF k] read_original_config [OF k] by auto
qed simp

lemma read_precompiled_content:
  assumes inv: "warm (cd_sha256 cd) cc imgs (abs w)" and c: "digest c \<in> layer_digests imgs"
    and read: "read_precompiled_layer cd w c (precompile_label engine version) = Ok l"
  shows "\<exists>b. digest c = ''sha256:'' @ cd_sha256 cd b \<and> cc (precompile_label engine version) b = Some (wl_layer l)"
proof -
  obtain ls d m where ls: "cs_labels (abs w) (digest c) = Some ls" "map_of ls (precompile_label engine version) = Some d"
    and m: "read_content cd w d = Ok m" "l = \<lparr>wl_config = c, wl_layer = m\<rparr>"
    using read parse_same by (fastforce simp: read_precompiled_layer_def res_simps info_labels)
  obtain b x where "digest c = ''sha256:'' @ cd_sha256 cd b" "cc (precompile_label engine version) b = Some x"
    and x: "d = ''sha256:'' @ cd_sha256 cd x"
    using inv c ls unfolding warm_def coherent_def by blast
  moreover have "m = x" using readable_blob [OF m(1)] same_content [OF x, of w] by simp
  ultimately show ?thesis using m(2) by auto
qed

lemma read_cached_contents:
  assumes "warm (cd_sha256 cd) cc imgs (abs w)" and "pid = precompile_label engine version"
    and "digest ` set cs \<subseteq> layer_digests imgs" and "read_cached_layers cd w pid needs cs = Ok (n, ls)" and "l \<in> set ls"
  shows "digest (wl_config l) \<in> layer_digests imgs
    \<and> ((\<exists>b. digest (wl_config l) = ''sha256:'' @ cd_sha256 cd b \<and> cc pid b = Some (wl_layer l))
       \<or> n \<and> digest (wl_config l) = ''sha256:'' @ cd_sha256 cd (wl_layer l))"
  using assms(3-5)
proof (induction cs arbitrary: needs n ls)
  case (Cons c cs)
  have c: "digest c \<in> layer_digests imgs" "digest ` set cs \<subseteq> layer_digests imgs" using Cons.prems(1) by auto
  show ?case
  proof (cases "read_precompiled_layer cd w c pid")
    case (Ok k)
    then obtain rest where "ls = k # rest" "read_cached_layers cd w pid needs cs = Ok (n, rest)"
      using Cons.prems(2) by (auto simp: res_simps)
    then show ?thesis
      using Cons.IH [OF c(2), of needs n rest] Cons.prems(3) read_precompiled_config [OF Ok]
        read_precompiled_content [OF assms(1) c(1) Ok [unfolded assms(2)]] c(1) unfolding assms(2) by auto
  next
    case (Err e)
    then obtain k rest where k: "read_original_layer cd w c = Ok k" and "ls = k # rest"
      and r: "read_cached_layers cd w pid True cs = Ok (n, rest)"
      using Cons.prems(2) by (auto simp: res_simps)
    moreover have n using read_cached_outcome(1) [OF r] by simp
    ultimately show ?thesis
      using Cons.IH [OF c(2), of True n rest] Cons.prems(3) read_original_config [OF k] read_original_content [OF k] c(1) by auto
  qed (use Cons.prems in simp)
qed simp

end

section \<open>Sequences of loads\<close>

text \<open>The compiler of an engine, on the world of containerd: it leaves the store to the collector, and when it answers with as
  many layers as it was given, they are what its label stands for. \<open>never_fails\<close>: there is always an answer.\<close>

definition compiler_ok :: "('w \<Rightarrow> cstore) \<Rightarrow> compilers \<Rightarrow> string \<Rightarrow> 'w compiler \<Rightarrow> bool" where
  "compiler_ok st cc engine co \<longleftrightarrow>
     (\<forall>w layers. gc (st w) (st (fst (co_compile co w layers)))
       \<and> (\<forall>cs. snd (co_compile co w layers) = Ok cs \<longrightarrow> length cs = length layers \<longrightarrow>
            cs = map (\<lambda>l. cc (precompile_label engine (co_cache_key co)) (wl_layer l)) layers))"

definition never_fails :: "'w compiler \<Rightarrow> bool" where
  "never_fails co \<longleftrightarrow> (\<forall>w layers. is_ok (snd (co_compile co w layers)))"

text \<open>What an engine should get for a layer whose content is \<open>b\<close>.\<close>

definition proper :: "compilers \<Rightarrow> string \<Rightarrow> 'w compiler option \<Rightarrow> string \<Rightarrow> string \<Rightarrow> bool" where
  "proper cc engine co b m \<longleftrightarrow>
     (case co of
        None \<Rightarrow> m = b
      | Some c \<Rightarrow> m = fresh cc (precompile_label engine (co_cache_key c)) b \<or> m = b \<and> \<not> never_fails c)"

inductive loads ::
  "'w containerd \<Rightarrow> ('w \<Rightarrow> cstore) \<Rightarrow> images \<Rightarrow> (string \<times> 'w compiler option) set \<Rightarrow> 'w \<Rightarrow>
   (string \<times> 'w compiler option \<times> descriptor list \<times> wasm_layer list sandbox_result) list \<Rightarrow> 'w \<Rightarrow> bool"
  for cd st imgs engines w where
  start: "loads cd st imgs engines w [] w"
| collect: "loads cd st imgs engines w hs v \<Longrightarrow> gc (st v) (st u) \<Longrightarrow> loads cd st imgs engines w hs u"
| load: "loads cd st imgs engines w hs v \<Longrightarrow> (img, cfgs) \<in> imgs \<Longrightarrow> (engine, co) \<in> engines \<Longrightarrow>
    load_layers cd co engine v img cfgs = (u, r) \<Longrightarrow> loads cd st imgs engines w (hs @ [(engine, co, cfgs, r)]) u"

lemma stored_layer:
  assumes "store_layers cd d pid i lcs w = (w', Ok ls)" and "l \<in> set ls"
  shows "\<exists>k c. (k, c) \<in> set lcs \<and> wl_config l = wl_config k
    \<and> wl_layer l = (case c of None \<Rightarrow> wl_layer k | Some b \<Rightarrow> b)"
proof -
  obtain j where j: "j < length ls" "l = ls ! j" using assms(2) by (auto simp: in_set_conv_nth)
  note eq = store_layers_configs [OF assms(1)]
  then have len: "j < length lcs" using j(1) by (metis length_map)
  have "wl_config l = (wl_config \<circ> fst) (lcs ! j)"
    using arg_cong [OF conjunct1 [OF eq], of "\<lambda>xs. xs ! j"] j len by simp
  moreover have "wl_layer l = (\<lambda>(l, c). case c of None \<Rightarrow> wl_layer l | Some b \<Rightarrow> b) (lcs ! j)"
    using arg_cong [OF conjunct2 [OF eq], of "\<lambda>xs. xs ! j"] j len by simp
  moreover obtain k c where "lcs ! j = (k, c)" by fastforce
  moreover have "lcs ! j \<in> set lcs" using len by simp
  ultimately show ?thesis by (metis case_prod_conv comp_apply fst_conv)
qed

context steady_store
begin

lemma precompile_layers_warm:
  assumes inv: "warm (cd_sha256 cd) cc imgs (abs w)" and img: "img \<in> fst ` imgs" and pid: "pid = precompile_label engine (co_cache_key co)"
    and co: "compiler_ok abs cc engine co" and idem: "\<And>b x. cc pid b = Some x \<Longrightarrow> cc pid x = None"
    and layers: "\<And>l. l \<in> set layers \<Longrightarrow> digest (wl_config l) \<in> layer_digests imgs
      \<and> ((\<exists>b. digest (wl_config l) = ''sha256:'' @ cd_sha256 cd b \<and> cc pid b = Some (wl_layer l))
         \<or> digest (wl_config l) = ''sha256:'' @ cd_sha256 cd (wl_layer l))"
  shows "warm (cd_sha256 cd) cc imgs (abs (fst (precompile_layers cd co w img pid layers)))"
proof -
  obtain w1 r where r: "co_compile co w layers = (w1, r)" by fastforce
  have w1: "warm (cd_sha256 cd) cc imgs (abs w1)"
    using co r warm_gc [OF _ inv] unfolding compiler_ok_def by (metis fst_conv)
  show ?thesis
  proof (cases "\<exists>cs. r = Ok cs \<and> length cs = length layers")
    case True
    then obtain cs where cs: "r = Ok cs" "length cs = length layers" by blast
    then have map: "cs = map (\<lambda>l. cc pid (wl_layer l)) layers"
      using co r unfolding compiler_ok_def pid by (metis snd_conv)
    have "warm (cd_sha256 cd) cc imgs (abs (fst (store_layers cd img pid 0 (zip layers cs) w1)))"
    proof (rule store_layers_warm [OF w1 img pid])
      fix l x
      assume "(l, Some x) \<in> set (zip layers cs)"
      then have l: "l \<in> set layers" and x: "cc pid (wl_layer l) = Some x" by (auto simp: map set_zip)
      then show "digest (wl_config l) \<in> layer_digests imgs
          \<and> digest (wl_config l) = ''sha256:'' @ cd_sha256 cd (wl_layer l) \<and> cc pid (wl_layer l) = Some x"
        using layers [OF l] idem by fastforce
    qed
    then show ?thesis using r cs by (simp add: precompile_layers_def)
  next
    case False
    then show ?thesis using r w1 by (cases r) (auto simp: precompile_layers_def)
  qed
qed

lemma precompile_layers_proper:
  assumes pid: "pid = precompile_label engine (co_cache_key co)"
    and co: "compiler_ok abs cc engine co" and idem: "\<And>b x. cc pid b = Some x \<Longrightarrow> cc pid x = None"
    and layers: "\<And>l. l \<in> set layers \<Longrightarrow>
      (\<exists>b. digest (wl_config l) = ''sha256:'' @ cd_sha256 cd b \<and> cc pid b = Some (wl_layer l))
      \<or> digest (wl_config l) = ''sha256:'' @ cd_sha256 cd (wl_layer l)"
    and ok: "precompile_layers cd co w img pid layers = (w', Ok ls)" and l: "l \<in> set ls"
  shows "\<exists>b. digest (wl_config l) = ''sha256:'' @ cd_sha256 cd b \<and> proper cc engine (Some co) b (wl_layer l)"
proof -
  obtain w1 r where r: "co_compile co w layers = (w1, r)" by fastforce
  consider (failed) e where "r = Err e" "ls = layers"
    | (compiled) cs where "r = Ok cs" "length cs = length layers" "store_layers cd img pid 0 (zip layers cs) w1 = (w', Ok ls)"
    using ok r by (cases r) (auto simp: precompile_layers_def split: if_splits)
  then show ?thesis
  proof cases
    case failed
    then have "\<not> never_fails co" using r by (auto simp: never_fails_def intro!: exI [of _ w] exI [of _ layers])
    then show ?thesis using layers [of l] l failed by (auto simp: proper_def fresh_def pid)
  next
    case compiled
    then have map: "cs = map (\<lambda>l. cc pid (wl_layer l)) layers"
      using co r unfolding compiler_ok_def pid by (metis snd_conv)
    obtain k c where kc: "(k, c) \<in> set (zip layers cs)" and "wl_config l = wl_config k"
      and "wl_layer l = (case c of None \<Rightarrow> wl_layer k | Some b \<Rightarrow> b)"
      using stored_layer [OF compiled(3) l] by blast
    moreover have "k \<in> set layers" "c = cc pid (wl_layer k)" using set_zip_leftD [OF kc] kc by (auto simp: map set_zip)
    ultimately have k: "k \<in> set layers" "wl_config l = wl_config k" "wl_layer l = fresh cc pid (wl_layer k)"
      by (simp_all add: fresh_def)
    show ?thesis
      using layers [OF k(1)] k idem by (auto simp: proper_def pid fresh_def)
  qed
qed

lemma load_layers_warm:
  assumes inv: "warm (cd_sha256 cd) cc imgs (abs w)" and img: "(img, cfgs) \<in> imgs"
    and co: "\<And>c. co = Some c \<Longrightarrow> compiler_ok abs cc engine c"
    and idem: "\<And>pid b x. cc pid b = Some x \<Longrightarrow> cc pid x = None"
    and load: "load_layers cd co engine w img cfgs = (w', r)"
  shows "warm (cd_sha256 cd) cc imgs (abs w')"
    and "\<And>ls l. r = Ok ls \<Longrightarrow> l \<in> set ls \<Longrightarrow>
      \<exists>b. digest (wl_config l) = ''sha256:'' @ cd_sha256 cd b \<and> proper cc engine co b (wl_layer l)"
proof -
  let ?W = "warm (cd_sha256 cd) cc imgs"
  have i: "img \<in> fst ` imgs" and ds: "digest ` set cfgs \<subseteq> layer_digests imgs" using img layer_digestsI [OF img] by force+
  have "?W (abs w') \<and> (\<forall>ls l. r = Ok ls \<longrightarrow> l \<in> set ls \<longrightarrow>
      (\<exists>b. digest (wl_config l) = ''sha256:'' @ cd_sha256 cd b \<and> proper cc engine co b (wl_layer l)))"
  proof (cases co)
    case None
    have "\<exists>b. digest (wl_config l) = ''sha256:'' @ cd_sha256 cd b \<and> wl_layer l = b"
      if "read_layers (read_original_layer cd w) cfgs = Ok ls" "l \<in> set ls" for ls l
      using that read_layers_original by blast
    then show ?thesis using None inv load by (auto simp: load_layers_def proper_def)
  next
    case (Some c)
    let ?pid = "precompile_label engine (co_cache_key c)"
    show ?thesis
    proof (cases "\<exists>ii n layers. get_info cd w img = Ok ii
        \<and> read_cached_layers cd w ?pid (map_of (in_labels ii) ?pid = None) cfgs = Ok (n, layers)")
      case True
      then obtain ii n layers where ii: "get_info cd w img = Ok ii"
        and read: "read_cached_layers cd w ?pid (map_of (in_labels ii) ?pid = None) cfgs = Ok (n, layers)" by blast
      then have rest: "(if n then precompile_layers cd c w img ?pid layers else (w, Ok layers)) = (w', r)"
        using load by (simp add: load_layers_def Some Let_def)
      note contents = read_cached_contents [OF inv refl ds read]
      show ?thesis
      proof (cases n)
        case True
        then have pre: "precompile_layers cd c w img ?pid layers = (w', r)" using rest by simp
        have "?W (abs (fst (precompile_layers cd c w img ?pid layers)))"
          by (rule precompile_layers_warm [OF inv i refl co [OF Some] idem]) (use contents in blast)+
        moreover have "\<exists>b. digest (wl_config l) = ''sha256:'' @ cd_sha256 cd b \<and> proper cc engine co b (wl_layer l)"
          if "r = Ok ls" "l \<in> set ls" for ls l
          unfolding Some
          by (rule precompile_layers_proper [OF refl co [OF Some] idem _ pre [unfolded that(1)] that(2)]) (use contents in blast)+
        ultimately show ?thesis using pre by simp
      next
        case False
        then have "w' = w" "r = Ok layers" using rest by auto
        then show ?thesis using contents inv False by (fastforce simp: proper_def Some fresh_def)
      qed
    next
      case False
      then have "w' = w \<and> (\<forall>ls. r \<noteq> Ok ls)"
        using load by (cases "get_info cd w img"; cases "read_cached_layers cd w ?pid (map_of (in_labels (the (ok (get_info cd w img)))) ?pid = None) cfgs")
          (auto simp: load_layers_def Some Let_def)
      then show ?thesis using inv by simp
    qed
  qed
  then show "?W (abs w')" and "\<And>ls l. r = Ok ls \<Longrightarrow> l \<in> set ls \<Longrightarrow>
      \<exists>b. digest (wl_config l) = ''sha256:'' @ cd_sha256 cd b \<and> proper cc engine co b (wl_layer l)" by blast+
qed

lemma loads_warm:
  assumes "loads cd abs imgs engines w hs v" and inv: "warm (cd_sha256 cd) cc imgs (abs w)"
    and co: "\<And>engine c. (engine, Some c) \<in> engines \<Longrightarrow> compiler_ok abs cc engine c"
    and idem: "\<And>pid b x. cc pid b = Some x \<Longrightarrow> cc pid x = None"
  shows "warm (cd_sha256 cd) cc imgs (abs v)
    \<and> (\<forall>engine co cfgs ls l. (engine, co, cfgs, Ok ls) \<in> set hs \<longrightarrow> l \<in> set ls \<longrightarrow>
        (\<exists>b. digest (wl_config l) = ''sha256:'' @ cd_sha256 cd b \<and> proper cc engine co b (wl_layer l)))"
  using assms(1)
proof induction
  case start
  then show ?case using inv by simp
next
  case (collect hs v u)
  then show ?case using warm_gc by blast
next
  case (load hs v img cfgs engine c u r)
  have "compiler_ok abs cc engine x" if "c = Some x" for x using co load.hyps(3) that by simp
  note step = load_layers_warm [OF conjunct1 [OF load.IH] load.hyps(2) this idem load.hyps(4)]
  show ?case using load.IH step by auto
qed

end

section \<open>The store in memory\<close>

lemma mem_send_adds: "mem_send m q = (m', r) \<Longrightarrow> adds (mem_abs m) (mem_abs m')"
  using mem_abs_updates(4) [of "wq_expected q" "mm_data m" m]
  by (auto simp: mem_send_def split: write_action.splits if_splits)

lemma mem_write_adds: "mem_write m l q = (m', r) \<Longrightarrow> adds (mem_abs m) (mem_abs m')"
  using mem_abs_updates(4) [of "wq_expected q" _ m l]
  by (auto simp: mem_write_def split: option.splits if_splits)

lemma mem_lease_adds:
  "mem_abs m' = mem_abs m \<or> mem_abs m' = (mem_abs m)\<lparr>cs_leases := l\<rparr> \<Longrightarrow> \<exists>ll. gc ((mem_abs m)\<lparr>cs_leases := ll\<rparr>) (mem_abs m')"
  by (metis cstore.surjective cstore.update_convs(4) gc_refl)

interpretation mem: steady_store "mem_cd parse" mem_abs for parse
proof unfold_locales
  fix w w' :: mem and q :: write_request and sent :: "(unit, string) result"
  assume "cd_send (mem_cd parse) w q = (w', sent)"
  then show "adds (mem_abs w) (mem_abs w')" by (intro mem_send_adds) (simp add: mem_cd_def)
next
  fix w w' :: mem and l :: string and q :: write_request and opened :: "(unit, write_error) result"
  assume "cd_write (mem_cd parse) w l q = (w', opened)"
  then show "adds (mem_abs w) (mem_abs w')" by (intro mem_write_adds) (simp add: mem_cd_def)
next
  fix w w' :: mem and reference :: string and created :: "(string option, string) result"
  assume "cd_lease_create (mem_cd parse) w reference = (w', created)"
  then show "\<exists>ll. gc ((mem_abs w)\<lparr>cs_leases := ll\<rparr>) (mem_abs w')"
    by (intro mem_lease_adds [of _ _ "(cs_leases (mem_abs w))(reference := Some {})"])
      (auto simp: mem_cd_def mem_abs_updates add_lease_def split: if_splits)
qed (auto simp: mem_cd_def mem_abs_updates)

section \<open>The compiler of the wasmtime shim\<close>

text \<open>What wasmtime's \<open>compile\<close> makes of one layer.\<close>

definition wasmtime_output :: "('m, 'k) wt_engine \<Rightarrow> string \<Rightarrow> string option" where
  "wasmtime_output e b =
     (if we_detect_precompiled e b \<noteq> None then None
      else (case binary_type (we_is_component e) (we_is_core_wasm e) b of
              Some Module \<Rightarrow> ok (we_precompile_module e b)
            | Some Component \<Rightarrow> ok (we_precompile_component e b)
            | None \<Rightarrow> None))"

lemma compile_known_layers:
  assumes "compile_layers e ls = Ok cs" and "\<forall>l \<in> set ls. known_layer e l"
  shows "cs = map (\<lambda>l. wasmtime_output e (wl_layer l)) ls"
  using assms
proof (induction ls arbitrary: cs)
  case (Cons l ls)
  then show ?case
    by (auto simp: wasmtime_output_def known_layer_def res_simps split: if_splits option.splits wasm_binary_type.splits)
qed simp

lemma wasmtime_compiler_ok:
  assumes "cc (precompile_label engine key) = wasmtime_output e"
  shows "compiler_ok st cc engine (wasmtime_compiler e key)"
proof -
  have "cs = map (\<lambda>l. wasmtime_output e (wl_layer l)) layers"
    if "compile_layers e layers = Ok cs" "length cs = length layers" for layers cs
    using compile_known_layers [OF that(1)] compile_layers_length [OF that(1)] that(2) filter_length_less [of "known_layer e" layers]
    by simp
  then show ?thesis by (simp add: compiler_ok_def wasmtime_compiler_def assms)
qed

text \<open>What wasmtime documents of precompiled code, and that the guest is given the process of the container and not its layers. (The engine that
  compiles and the one that runs are configured separately; that they agree in what matters is \<open>engines_agree\<close> of \<open>Wasmtime_Config\<close>.)\<close>

definition engine_ok :: "('m, 'k) wt_engine \<Rightarrow> bool" where
  "engine_ok e \<longleftrightarrow>
     (\<forall>b c. binary_type (we_is_component e) (we_is_core_wasm e) b = Some Module \<longrightarrow> we_precompile_module e b = Ok c \<longrightarrow> binary_type (we_is_component e) (we_is_core_wasm e) c = None
        \<and> we_detect_precompiled e c = Some Module \<and> we_deserialize_module e c = we_module e b)
     \<and> (\<forall>b c. binary_type (we_is_component e) (we_is_core_wasm e) b = Some Component \<longrightarrow> we_precompile_component e b = Ok c \<longrightarrow> binary_type (we_is_component e) (we_is_core_wasm e) c = None
        \<and> we_detect_precompiled e c = Some Component \<and> we_deserialize_component e c = we_component e b)
     \<and> (\<forall>p ls ls'. we_instantiate_module e \<lparr>ctx_process = p, wasm_layers = ls\<rparr> = we_instantiate_module e \<lparr>ctx_process = p, wasm_layers = ls'\<rparr>
        \<and> we_call_module e \<lparr>ctx_process = p, wasm_layers = ls\<rparr> = we_call_module e \<lparr>ctx_process = p, wasm_layers = ls'\<rparr>
        \<and> we_serve_http e \<lparr>ctx_process = p, wasm_layers = ls\<rparr> = we_serve_http e \<lparr>ctx_process = p, wasm_layers = ls'\<rparr>
        \<and> we_run_command e \<lparr>ctx_process = p, wasm_layers = ls\<rparr> = we_run_command e \<lparr>ctx_process = p, wasm_layers = ls'\<rparr>
        \<and> we_instantiate_component e \<lparr>ctx_process = p, wasm_layers = ls\<rparr> = we_instantiate_component e \<lparr>ctx_process = p, wasm_layers = ls'\<rparr>
        \<and> we_call_component e \<lparr>ctx_process = p, wasm_layers = ls\<rparr> = we_call_component e \<lparr>ctx_process = p, wasm_layers = ls'\<rparr>)"

lemma engine_ok_layers:
  assumes "engine_ok e"
  shows "execute e \<lparr>ctx_process = p, wasm_layers = ls\<rparr> m f won = execute e \<lparr>ctx_process = p, wasm_layers = ls'\<rparr> m f won"
proof -
  let ?c = "\<lparr>ctx_process = p, wasm_layers = ls\<rparr>" and ?c' = "\<lparr>ctx_process = p, wasm_layers = ls'\<rparr>"
  have same: "we_instantiate_module e ?c = we_instantiate_module e ?c'" "we_call_module e ?c = we_call_module e ?c'"
    "we_serve_http e ?c = we_serve_http e ?c'" "we_run_command e ?c = we_run_command e ?c'"
    "we_instantiate_component e ?c = we_instantiate_component e ?c'" "we_call_component e ?c = we_call_component e ?c'"
    using assms unfolding engine_ok_def by blast+
  have both: "execute_module e ?c = execute_module e ?c'" "execute_component_async e ?c = execute_component_async e ?c'"
    unfolding fun_eq_iff execute_module_def execute_component_async_def same by (rule allI refl)+
  show ?thesis unfolding execute_def execute_component_def both by (rule refl)
qed

lemma engine_okD:
  assumes "engine_ok e"
  shows "binary_type (we_is_component e) (we_is_core_wasm e) b = Some Module \<Longrightarrow> we_precompile_module e b = Ok c \<Longrightarrow>
      binary_type (we_is_component e) (we_is_core_wasm e) c = None \<and> we_detect_precompiled e c = Some Module \<and> we_deserialize_module e c = we_module e b"
    and "binary_type (we_is_component e) (we_is_core_wasm e) b = Some Component \<Longrightarrow> we_precompile_component e b = Ok c \<Longrightarrow>
      binary_type (we_is_component e) (we_is_core_wasm e) c = None \<and> we_detect_precompiled e c = Some Component \<and> we_deserialize_component e c = we_component e b"
  using assms unfolding engine_ok_def by blast+

lemma execute_precompiled:
  assumes "engine_ok e" and "wasmtime_output e b = Some c"
  shows "execute e ctx c f won = execute e ctx b f won"
proof -
  consider "binary_type (we_is_component e) (we_is_core_wasm e) b = Some Module" "we_precompile_module e b = Ok c"
    | "binary_type (we_is_component e) (we_is_core_wasm e) b = Some Component" "we_precompile_component e b = Ok c"
    using assms(2) by (auto simp: wasmtime_output_def res_simps split: if_splits option.splits wasm_binary_type.splits)
  then show ?thesis
  proof cases
    case 1
    then show ?thesis using engine_okD(1) [OF assms(1) 1] by (simp add: execute_def)
  next
    case 2
    then show ?thesis using engine_okD(2) [OF assms(1) 2] by (simp add: execute_def)
  qed
qed

lemma run_wasi_contents:
  assumes "engine_ok e" and "\<And>l ctx g. l \<in> set ls \<Longrightarrow> execute e ctx (wl_layer l) g won = execute e ctx (orig l) g won"
  shows "run_wasi e f \<lparr>ctx_process = p, wasm_layers = ls\<rparr> won
    = run_wasi e f \<lparr>ctx_process = p, wasm_layers = map (\<lambda>l. \<lparr>wl_config = wl_config l, wl_layer = orig l\<rparr>) ls\<rparr> won"
proof -
  let ?ls = "map (\<lambda>l. \<lparr>wl_config = wl_config l, wl_layer = orig l\<rparr>) ls"
  have func: "func (entrypoint_of \<lparr>ctx_process = p, wasm_layers = xs\<rparr>) = func (entrypoint_of \<lparr>ctx_process = p, wasm_layers = []\<rparr>)" for xs
    by (simp add: entrypoint_of_def args_def Let_def split: prod.splits)
  have src: "source (entrypoint_of \<lparr>ctx_process = p, wasm_layers = xs\<rparr>) = Sandbox_Context.Oci xs" if "xs \<noteq> []" for xs
    using that by (simp add: entrypoint_of_def Let_def split: prod.splits)
  consider "ls = []" | l where "ls = [l]" | l k xs where "ls = l # k # xs" by (metis neq_Nil_conv)
  then show ?thesis
  proof cases
    case 2
    then show ?thesis
      using assms(2) [of l] engine_ok_layers [OF assms(1), of p ls _ _ won ?ls] by (simp add: run_wasi_def src func [of "_ # _"])
  next
    case 3
    then show ?thesis by (simp add: run_wasi_def src)
  qed simp
qed

text \<open>A container with wasm layers is always run by the engine.\<close>

lemma exec_layers:
  assumes "ls \<noteq> []"
  shows "snd (exec f (can_handle f) g shim (executor_new ls) spec)
    = (case g \<lparr>ctx_process = spec, wasm_layers = ls\<rparr> of
         Ok code \<Rightarrow> ProcessExit code | Err _ \<Rightarrow> ProcessExit 137 | Panic m \<Rightarrow> ProcessPanic m)"
proof -
  have "source (entrypoint_of \<lparr>ctx_process = spec, wasm_layers = ls\<rparr>) = Sandbox_Context.Oci ls"
    using assms by (simp add: entrypoint_of_def Let_def split: prod.splits)
  then show ?thesis
    by (simp add: exec_def executor_ty_def executor_new_def executor_ctx_def is_linux_container_def can_handle_def Let_def)
qed

lemma exec_contents:
  assumes "engine_ok e" and "\<And>l ctx g. l \<in> set ls \<Longrightarrow> execute e ctx (wl_layer l) g won = execute e ctx (orig l) g won"
  shows "snd (exec f (can_handle f) (\<lambda>ctx. map_err show_err (run_wasi e f' ctx won)) shim (executor_new ls) spec)
    = snd (exec f (can_handle f) (\<lambda>ctx. map_err show_err (run_wasi e f' ctx won)) shim
        (executor_new (map (\<lambda>l. \<lparr>wl_config = wl_config l, wl_layer = orig l\<rparr>) ls)) spec)"
  using run_wasi_contents [OF assms, where f = f' and p = spec] by (cases "ls = []") (simp_all add: exec_layers)

lemma proper_execute:
  assumes "cc (precompile_label engine key) = wasmtime_output e" and "engine_ok e"
    and "proper cc engine (Some (wasmtime_compiler e key :: 'w compiler)) b m"
  shows "execute e ctx m g won = execute e ctx b g won"
proof -
  have "m = b \<or> wasmtime_output e b = Some m"
    using assms(3) by (cases "wasmtime_output e b") (auto simp: proper_def fresh_def wasmtime_compiler_def assms(1))
  then show ?thesis using execute_precompiled [OF assms(2)] by auto
qed

section \<open>The cache is transparent\<close>

lemma loads_configs: "loads cd st imgs engines w hs v \<Longrightarrow> (engine, co, cfgs, Ok ls) \<in> set hs \<Longrightarrow> map wl_config ls = cfgs"
  by (induction arbitrary: ls rule: loads.induct) (auto dest: load_layers_configs)

text \<open>C15: The cache is transparent. Take any sequence of loads of images, by any engines and versions, with and
  without a compiler, in which loads, uploads, label updates and compilations may fail at any point, and in which the collector may run
  at any time. Every load that succeeds gives the layers of the image, and for a layer with content \<open>b\<close> it gives what this
  engine at this version makes of \<open>b\<close> itself, as if it had just been compiled, or \<open>b\<close> unchanged if the engine has no compiler or its compiler
  can fail; never the output of another engine, another version or another layer, and never code that was compiled twice. It needs that
  containerd keeps its contract also when calls fail (\<open>steady_store\<close>), that what is cached at the beginning is right (nothing,
  for example), and that a compiler is deterministic for its cache key and leaves its own output alone.\<close>

theorem cache_is_transparent:
  assumes "steady_store cd st" and "warm (cd_sha256 cd) cc imgs (st w)"
    and "\<And>engine c. (engine, Some c) \<in> engines \<Longrightarrow> compiler_ok st cc engine c"
    and "\<And>pid b x. cc pid b = Some x \<Longrightarrow> cc pid x = None"
    and "loads cd st imgs engines w hs v" and "(engine, co, cfgs, Ok ls) \<in> set hs"
  shows "map wl_config ls = cfgs
    \<and> (\<forall>l \<in> set ls. \<exists>b. digest (wl_config l) = ''sha256:'' @ cd_sha256 cd b \<and> proper cc engine co b (wl_layer l))"
proof -
  have "warm (cd_sha256 cd) cc imgs (st v)
      \<and> (\<forall>engine co cfgs ls l. (engine, co, cfgs, Ok ls) \<in> set hs \<longrightarrow> l \<in> set ls \<longrightarrow>
        (\<exists>b. digest (wl_config l) = ''sha256:'' @ cd_sha256 cd b \<and> proper cc engine co b (wl_layer l)))"
    by (rule steady_store.loads_warm [OF assms(1,5,2)]) (use assms(3,4) in blast)+
  then show ?thesis using loads_configs [OF assms(5,6)] assms(6) by blast
qed

text \<open>C16: For the wasmtime shim: what a container does is independent of the cache. In any such sequence of loads, the process of a container
  that was given the layers of its load ends in the same way, exit code, failure or refusal, as one that is given the layers as they are in
  the image, compiles them itself and runs them: through the decision of the executor, the choice between module and component, compiled or not,
  and the engine. It needs what wasmtime documents of precompiled code: that it is recognised, and that loading it gives what
  compiling the original gives.\<close>

theorem cached_guest_runs_the_same:
  fixes cd :: "'w containerd"
  assumes "steady_store cd st" and "warm (cd_sha256 cd) cc imgs (st w)"
    and "\<And>engine c. (engine, Some c) \<in> engines \<Longrightarrow> compiler_ok st cc engine c"
    and "\<And>pid b x. cc pid b = Some x \<Longrightarrow> cc pid x = None"
    and "loads cd st imgs engines w hs v" and "(engine, Some (wasmtime_compiler e key), cfgs, Ok ls) \<in> set hs"
    and "cc (precompile_label engine key) = wasmtime_output e" and "engine_ok e"
    and "guest = (\<lambda>ctx. map_err show_err (run_wasi e f' ctx won))"
  shows "\<exists>bs. map digest cfgs = map (\<lambda>b. ''sha256:'' @ cd_sha256 cd b) bs
    \<and> snd (exec f (can_handle f) guest shim (executor_new ls) spec)
      = snd (exec f (can_handle f) guest shim (executor_new (map2 (\<lambda>c b. \<lparr>wl_config = c, wl_layer = b\<rparr>) cfgs bs)) spec)"
proof -
  have "warm (cd_sha256 cd) cc imgs (st v)
      \<and> (\<forall>engine co cfgs ls l. (engine, co, cfgs, Ok ls) \<in> set hs \<longrightarrow> l \<in> set ls \<longrightarrow>
        (\<exists>b. digest (wl_config l) = ''sha256:'' @ cd_sha256 cd b \<and> proper cc engine co b (wl_layer l)))"
    by (rule steady_store.loads_warm [OF assms(1,5,2)]) (use assms(3,4) in blast)+
  then have "\<forall>l \<in> set ls. \<exists>b. digest (wl_config l) = ''sha256:'' @ cd_sha256 cd b
      \<and> proper cc engine (Some (wasmtime_compiler e key :: 'w compiler)) b (wl_layer l)"
    using assms(6) by blast
  then obtain orig where orig: "\<forall>l \<in> set ls. digest (wl_config l) = ''sha256:'' @ cd_sha256 cd (orig l)
      \<and> proper cc engine (Some (wasmtime_compiler e key :: 'w compiler)) (orig l) (wl_layer l)" by metis
  have cfgs: "cfgs = map wl_config ls" using loads_configs [OF assms(5,6)] by simp
  have "execute e ctx (wl_layer l) g won = execute e ctx (orig l) g won" if "l \<in> set ls" for l ctx g
    using proper_execute [where cc = cc, OF assms(7,8)] orig that by blast
  then have "snd (exec f (can_handle f) guest shim (executor_new ls) spec)
      = snd (exec f (can_handle f) guest shim (executor_new (map (\<lambda>l. \<lparr>wl_config = wl_config l, wl_layer = orig l\<rparr>) ls)) spec)"
    unfolding assms(9) by (rule exec_contents [OF assms(8)])
  moreover have "map (\<lambda>l. \<lparr>wl_config = wl_config l, wl_layer = orig l\<rparr>) ls
      = map2 (\<lambda>c b. \<lparr>wl_config = c, wl_layer = b\<rparr>) cfgs (map orig ls)"
    unfolding cfgs by (induction ls) auto
  ultimately show ?thesis using orig cfgs by (intro exI [of _ "map orig ls"]) auto
qed

section \<open>A node with one image and the wasmtime shim\<close>

definition demo_magic_layer :: descriptor where
  "demo_magic_layer = \<lparr>media_type = ''application/wasm'', digest = ''sha256:'' @ wasm_magic\<rparr>"

definition demo_node :: mem where
  "demo_node =
     \<lparr>mm_store = \<lparr>cs_blob = [''sha256:'' @ wasm_magic \<mapsto> wasm_magic],
        cs_labels = [''sha256:img'' \<mapsto> [(''containerd.io/gc.ref.content.l.0'', ''sha256:'' @ wasm_magic)], ''sha256:'' @ wasm_magic \<mapsto> []],
        cs_roots = {''sha256:img''}, cs_leases = (\<lambda>_. None)\<rparr>,
      mm_lease = [], mm_data = [], mm_reply = None, mm_images = (\<lambda>_. None), mm_containers = (\<lambda>_. None), mm_calls = (0, 0)\<rparr>"

abbreviation demo_load :: "mem \<Rightarrow> mem \<times> wasm_layer list sandbox_result" where
  "demo_load w \<equiv> load_layers demo_mem_cd (Some (wasmtime_compiler demo_engine 1)) ''wasmtime'' w ''sha256:img'' [demo_magic_layer]"

lemmas demo_load_simps = load_layers_def Let_def get_info_def mem_cd_def demo_magic_layer_def
  read_precompiled_layer_def read_original_layer_def read_content_def precompile_layers_def store_layer_def
  save_content_def lease_def save_digest_def mem_write_def mem_send_def default_request_def write_chunks.simps
  send_message_def write_chunk_def MAX_WRITE_CHUNK_SIZE_BYTES_def add_lease_def add_content_def update_labels_def
  update_info_def set_labels_def drop_lease_def wasmtime_compiler_def demo_engine_def binary_type_def wasm_magic_def

lemma demo_two_loads:
  "\<exists>w1 w2. demo_load demo_node = (w1, Ok [\<lparr>wl_config = demo_magic_layer, wl_layer = ''ELF'' @ wasm_magic\<rparr>])
     \<and> demo_load w1 = (w2, Ok [\<lparr>wl_config = demo_magic_layer, wl_layer = ''ELF'' @ wasm_magic\<rparr>])"
  by (simp add: demo_load_simps demo_node_def precompile_label_def PRECOMPILE_PREFIX_def gc_label_def)

abbreviation demo_images :: images where
  "demo_images \<equiv> {(''sha256:img'', [demo_magic_layer])}"

abbreviation demo_engines :: "(string \<times> mem compiler option) set" where
  "demo_engines \<equiv> {(''wasmtime'', Some (wasmtime_compiler demo_engine 1))}"

lemma demo_node_warm: "warm (\<lambda>b. b) cc demo_images (mem_abs demo_node)"
proof (rule warmI)
  have "CHR ''l'' # CHR ''.'' # CHR ''0'' # [] \<noteq> ''precompile.'' @ x" for x by simp
  then have "''containerd.io/gc.ref.content.l.0'' \<notin> range gc_label" by (auto simp: gc_label_def)
  then have "image_ok (mem_abs demo_node) ''sha256:img'' [demo_magic_layer]"
    by (auto simp: image_ok_def demo_node_def demo_magic_layer_def gc_key_def prefix_def wasm_magic_def
        intro!: exI [of _ "''containerd.io/gc.ref.content.l.0''"])
  then show "images_ok demo_images (mem_abs demo_node)"
    by (auto simp: images_ok_def layer_digests_def demo_magic_layer_def wasm_magic_def)
  show "coherent (\<lambda>b. b) cc demo_images (mem_abs demo_node)"
    by (auto simp: coherent_def layer_digests_def demo_node_def demo_magic_layer_def wasm_magic_def split: if_splits)
qed

lemma demo_output_idem: "wasmtime_output demo_engine b = Some x \<Longrightarrow> wasmtime_output demo_engine x = None"
  by (auto simp: wasmtime_output_def demo_engine_def binary_type_def split: if_splits)

lemma demo_engine_ok: "engine_ok demo_engine"
  by (simp add: engine_ok_def demo_engine_def binary_type_def wasm_magic_def)

lemma demo_history:
  "\<exists>r v. loads demo_mem_cd mem_abs demo_images demo_engines demo_node
     [r, (''wasmtime'', Some (wasmtime_compiler demo_engine 1), [demo_magic_layer],
        Ok [\<lparr>wl_config = demo_magic_layer, wl_layer = ''ELF'' @ wasm_magic\<rparr>])] v"
proof -
  let ?e = "''wasmtime''" and ?c = "Some (wasmtime_compiler demo_engine 1) :: mem compiler option"
    and ?r = "Ok [\<lparr>wl_config = demo_magic_layer, wl_layer = ''ELF'' @ wasm_magic\<rparr>] :: wasm_layer list sandbox_result"
  obtain w1 w2 where w1: "demo_load demo_node = (w1, ?r)" and w2: "demo_load w1 = (w2, ?r)" using demo_two_loads by blast
  have "loads demo_mem_cd mem_abs demo_images demo_engines demo_node ([] @ [(?e, ?c, [demo_magic_layer], ?r)]) w1"
    by (rule loads.load [OF loads.start _ _ w1]) simp_all
  from loads.load [OF this _ _ w2]
  have "loads demo_mem_cd mem_abs demo_images demo_engines demo_node
      [(?e, ?c, [demo_magic_layer], ?r), (?e, ?c, [demo_magic_layer], ?r)] w2" by simp
  then show ?thesis by blast
qed

lemma demo_sha: "cd_sha256 demo_mem_cd = (\<lambda>b. b)"
  by (simp add: mem_cd_def)

lemma demo_compiler_ok:
  "(engine, Some c) \<in> demo_engines \<Longrightarrow> compiler_ok mem_abs (\<lambda>_. wasmtime_output demo_engine) engine c"
  using wasmtime_compiler_ok [of "\<lambda>_. wasmtime_output demo_engine" engine 1 demo_engine] by auto

theorem cache_is_transparent_witness:
  "\<exists>b. digest demo_magic_layer = ''sha256:'' @ b
     \<and> proper (\<lambda>_. wasmtime_output demo_engine) ''wasmtime'' (Some (wasmtime_compiler demo_engine 1) :: mem compiler option) b
         (''ELF'' @ wasm_magic)"
proof -
  obtain r v where h: "loads demo_mem_cd mem_abs demo_images demo_engines demo_node
     [r, (''wasmtime'', Some (wasmtime_compiler demo_engine 1), [demo_magic_layer],
        Ok [\<lparr>wl_config = demo_magic_layer, wl_layer = ''ELF'' @ wasm_magic\<rparr>])] v"
    using demo_history by blast
  have "map wl_config [\<lparr>wl_config = demo_magic_layer, wl_layer = ''ELF'' @ wasm_magic\<rparr>] = [demo_magic_layer]
    \<and> (\<forall>l \<in> set [\<lparr>wl_config = demo_magic_layer, wl_layer = ''ELF'' @ wasm_magic\<rparr>].
        \<exists>b. digest (wl_config l) = ''sha256:'' @ cd_sha256 demo_mem_cd b
          \<and> proper (\<lambda>_. wasmtime_output demo_engine) ''wasmtime'' (Some (wasmtime_compiler demo_engine 1) :: mem compiler option) b (wl_layer l))"
    by (rule cache_is_transparent [OF mem.steady_store_axioms demo_node_warm [folded demo_sha] demo_compiler_ok _ h])
      (use demo_output_idem in auto)
  then show ?thesis by (simp add: demo_sha)
qed

theorem cached_guest_runs_the_same_witness:
  "\<exists>bs. map digest [demo_magic_layer] = map (\<lambda>b. ''sha256:'' @ cd_sha256 demo_mem_cd b) bs
     \<and> snd (exec demo_fs (can_handle demo_fs) (\<lambda>ctx. map_err (\<lambda>_. ''failed'') (run_wasi demo_engine demo_fs ctx None)) ''wasmtime''
           (executor_new [\<lparr>wl_config = demo_magic_layer, wl_layer = ''ELF'' @ wasm_magic\<rparr>]) None)
       = snd (exec demo_fs (can_handle demo_fs) (\<lambda>ctx. map_err (\<lambda>_. ''failed'') (run_wasi demo_engine demo_fs ctx None)) ''wasmtime''
           (executor_new (map2 (\<lambda>c b. \<lparr>wl_config = c, wl_layer = b\<rparr>) [demo_magic_layer] bs)) None)"
proof -
  obtain r v where h: "loads demo_mem_cd mem_abs demo_images demo_engines demo_node
     [r, (''wasmtime'', Some (wasmtime_compiler demo_engine 1), [demo_magic_layer],
        Ok [\<lparr>wl_config = demo_magic_layer, wl_layer = ''ELF'' @ wasm_magic\<rparr>])] v"
    using demo_history by blast
  show ?thesis
    by (rule cached_guest_runs_the_same [OF mem.steady_store_axioms demo_node_warm [folded demo_sha] demo_compiler_ok _ h _ refl demo_engine_ok refl])
      (use demo_output_idem in auto)
qed

end
