(* ===== verification/Image_To_Process.thy ===== *)
theory Image_To_Process
  imports Guest_Status Cache_Coherence
begin

text \<open>
  From the image to the process: the instance of the wasm shims (\<open>Unix_Instance\<close>) with the content client that it really has
  (\<open>EngineOciClient\<close> of \<open>containerd-shim-wasm/src/sys/unix/container/instance.rs\<close>, over \<open>load_modules\<close> of \<open>Content_Client\<close>), and
  the executor that is built into the container (\<open>Sandbox_Context\<close>). The state of the operating system is the world of containerd.
\<close>

section \<open>The client of an engine\<close>

definition engine_oci_env ::
  "'y containerd \<Rightarrow> 'y compiler option \<Rightarrow> string list \<Rightarrow> ('y, 'c) unix_env \<Rightarrow> ('y, 'c) unix_env" where
  "engine_oci_env cd precompiler supported_layer_types env =
     env\<lparr>ux_load_modules := (\<lambda>y cid. load_modules cd precompiler supported_layer_types (ux_name env) y cid)\<rparr>"

text \<open>The layers that the image of the container has for an engine: those of the manifest with a media type that it supports.\<close>

definition image_layers :: "'y containerd \<Rightarrow> 'y \<Rightarrow> string list \<Rightarrow> string \<Rightarrow> descriptor list \<Rightarrow> bool" where
  "image_layers cd y supported cid cfgs \<longleftrightarrow>
     (\<exists>image manifest d bytes arch. get_container cd y cid = Ok image
        \<and> get_image_manifest_and_digest cd y image = Ok (manifest, d)
        \<and> read_content cd y (digest (mf_config manifest)) = Ok bytes \<and> cd_parse_platform cd bytes = Ok arch
        \<and> cfgs = (if arch = ''wasm'' then filter (\<lambda>c. media_type c \<in> set supported) (mf_layers manifest) else []))"

lemma load_modules_layers:
  "load_modules cd co supported engine y cid = (y', Ok ls) \<Longrightarrow> image_layers cd y supported cid (map wl_config ls)"
  unfolding image_layers_def
  by (auto simp: load_modules_def is_wasm_layer_def res_simps Let_def split: if_splits dest!: load_layers_configs)

lemma container_build_Ok:
  assumes "container_build w f = (w', Ok z)"
  shows "\<exists>y c. f (uw_os w) = (y, Ok c) \<and> uw_zygotes w' ! z = Some c \<and> z < length (uw_zygotes w')"
  using assms by (auto simp: container_build_def Let_def res_simps run_init_def run_impl_def split: prod.splits result.splits)

lemma build_container_Ok:
  assumes "build_container env cid cfg modules y = (y', Ok c)"
  shows "\<exists>a. ux_build env y a = (y', Ok c) \<and> ba_id a = cid \<and> ba_modules a = modules \<and> ba_bundle a = ic_bundle cfg"
  using assms by (auto simp: build_container_def res_simps)

lemma unix_new_builds:
  assumes "unix_new env w cid cfg = (w', Ok i)"
  shows "\<exists>y y1 r a y2 c. ux_load_modules env y cid = (y1, r) \<and> \<not> is_panic r \<and> ux_build env y1 a = (y2, Ok c)
    \<and> uw_zygotes w' ! un_zygote i = Some c \<and> ba_id a = cid \<and> ba_bundle a = ic_bundle cfg
    \<and> ba_modules a = (case r of Ok ms \<Rightarrow> ms | _ \<Rightarrow> [])"
proof -
  obtain v where new: "(case ux_load_modules env (uw_os v) cid of
         (y, Panic m) \<Rightarrow> (v\<lparr>uw_os := y\<rparr>, Panic m)
       | (y, r) \<Rightarrow>
           (let modules = (case r of Ok ms \<Rightarrow> ms | _ \<Rightarrow> []);
                (w, b) = container_build (v\<lparr>uw_os := y\<rparr>) (build_container env cid cfg modules)
            in st_then (w, map_err Any b) (\<lambda>w z.
                 (w\<lparr>uw_cells := uw_cells w @ [wc_new]\<rparr>,
                  Ok \<lparr>un_id = cid, un_cell = length (uw_cells w), un_zygote = z\<rparr>)))) = (w', Ok i)"
    using assms unfolding unix_new_def st_then_eq_Ok by blast
  obtain y1 r where r: "ux_load_modules env (uw_os v) cid = (y1, r)" by fastforce
  let ?ms = "case r of Ok ms \<Rightarrow> ms | _ \<Rightarrow> []"
  obtain u b where b: "container_build (v\<lparr>uw_os := y1\<rparr>) (build_container env cid cfg ?ms) = (u, b)" by fastforce
  have np: "\<not> is_panic r" using new r by (cases r) auto
  then have "st_then (u, map_err Any b) (\<lambda>w z. (w\<lparr>uw_cells := uw_cells w @ [wc_new]\<rparr>,
      Ok \<lparr>un_id = cid, un_cell = length (uw_cells w), un_zygote = z\<rparr>)) = (w', Ok i)"
    using new r b by (cases r) (simp_all add: Let_def)
  then obtain z where z: "b = Ok z" "w' = u\<lparr>uw_cells := uw_cells u @ [wc_new]\<rparr>" "un_zygote i = z"
    by (auto simp: res_simps)
  obtain y2 c where c: "build_container env cid cfg ?ms y1 = (y2, Ok c)" "uw_zygotes u ! z = Some c"
    using container_build_Ok [OF b [unfolded z(1)]] by auto
  have slot: "uw_zygotes w' ! un_zygote i = Some c" using c(2) z by simp
  obtain a where "ux_build env y1 a = (y2, Ok c)" "ba_id a = cid" "ba_modules a = ?ms" "ba_bundle a = ic_bundle cfg"
    using build_container_Ok [OF c(1)] by blast
  with r np slot show ?thesis by blast
qed

text \<open>Loading through the cache, for an image of the node.\<close>

lemma load_modules_proper:
  assumes "steady_store cd st" and "warm (cd_sha256 cd) cc imgs (st y)"
    and "\<And>c. co = Some c \<Longrightarrow> compiler_ok st cc engine c" and "\<And>pid b x. cc pid b = Some x \<Longrightarrow> cc pid x = None"
    and "\<And>image manifest d. get_container cd y cid = Ok image \<Longrightarrow> get_image_manifest_and_digest cd y image = Ok (manifest, d) \<Longrightarrow>
      (d, filter (\<lambda>c. is_wasm_layer (media_type c) supported) (mf_layers manifest)) \<in> imgs"
    and "load_modules cd co supported engine y cid = (y', Ok ls)" and "l \<in> set ls"
  shows "\<exists>b. digest (wl_config l) = ''sha256:'' @ cd_sha256 cd b \<and> proper cc engine co b (wl_layer l)"
proof -
  obtain image manifest d where "get_container cd y cid = Ok image" "get_image_manifest_and_digest cd y image = Ok (manifest, d)"
    and load: "load_layers cd co engine y d (filter (\<lambda>c. is_wasm_layer (media_type c) supported) (mf_layers manifest)) = (y', Ok ls)"
    using assms(6,7) by (auto simp: load_modules_def res_simps Let_def split: if_splits)
  then have "(d, filter (\<lambda>c. is_wasm_layer (media_type c) supported) (mf_layers manifest)) \<in> imgs" by (intro assms(5))
  from steady_store.load_layers_warm(2) [OF assms(1,2) this _ _ load refl assms(7)] assms(3,4) show ?thesis by blast
qed

section \<open>A container is built from its image\<close>

text \<open>C13: What a container runs is what its image holds. When an instance has been created, the youki container in its zygote was built, for the
  id and the bundle of the request, with an executor whose modules are the layers that \<open>load_modules\<close> gave: all layers of the image's manifest with a
  media type that the engine supports, in order, if the image is for wasm; or none, if loading failed, in which case the files of the container are
  used. And with at least one such layer its process always ends by the engine: it is never run as a native program and never refused,
  whatever files the container has.\<close>

theorem container_is_built_from_its_image:
  assumes "unix_new (engine_oci_env cd co supported uenv) w cid cfg = (w', Ok i)"
  shows "\<exists>y y1 r a y2 c. load_modules cd co supported (ux_name uenv) y cid = (y1, r) \<and> ux_build uenv y1 a = (y2, Ok c)
    \<and> uw_zygotes w' ! un_zygote i = Some c \<and> ba_id a = cid \<and> ba_bundle a = ic_bundle cfg
    \<and> (case r of Ok ls \<Rightarrow> ba_modules a = ls \<and> image_layers cd y supported cid (map wl_config ls) | _ \<Rightarrow> ba_modules a = [])
    \<and> (\<forall>f guest shim spec. ba_modules a \<noteq> [] \<longrightarrow> snd (exec f (can_handle f) guest shim (executor_new (ba_modules a)) spec)
         = (case guest \<lparr>ctx_process = spec, wasm_layers = ba_modules a\<rparr> of
              Ok code \<Rightarrow> ProcessExit code | Err _ \<Rightarrow> ProcessExit 137 | Panic m \<Rightarrow> ProcessPanic m))"
proof -
  have sel: "ux_load_modules (engine_oci_env cd co supported uenv) y cid = load_modules cd co supported (ux_name uenv) y cid"
    "ux_build (engine_oci_env cd co supported uenv) = ux_build uenv" for y
    by (simp_all add: engine_oci_env_def)
  obtain y y1 r a y2 c where b: "load_modules cd co supported (ux_name uenv) y cid = (y1, r)" "ux_build uenv y1 a = (y2, Ok c)"
    "uw_zygotes w' ! un_zygote i = Some c" "ba_id a = cid" "ba_bundle a = ic_bundle cfg" and m: "ba_modules a = (case r of Ok ms \<Rightarrow> ms | _ \<Rightarrow> [])"
    using unix_new_builds [OF assms] unfolding sel by blast
  have "case r of Ok ls \<Rightarrow> ba_modules a = ls \<and> image_layers cd y supported cid (map wl_config ls) | _ \<Rightarrow> ba_modules a = []"
    using m load_modules_layers [of cd co supported "ux_name uenv" y cid y1] b(1) by (cases r) auto
  with b exec_layers show ?thesis by blast
qed

text \<open>An environment whose containers are what they were built from.\<close>

definition image_env :: "(write_response list \<times> nat, build_args) unix_env" where
  "image_env =
     \<lparr>ux_name = ''wasmtime'', ux_connect = (\<lambda>y a n. (y, Ok ())), ux_load_modules = (\<lambda>y i. (y, Ok [])), ux_load_spec = (\<lambda>y p. Ok ()),
      ux_fs_open = (\<lambda>p. Err (IoNotFound [])), ux_parse_options = (\<lambda>s. Ok None), ux_open_rw = (\<lambda>p. Err (IoNotFound [])),
      ux_build = (\<lambda>y a. (y, Ok a)), ux_pid = (\<lambda>c. Some 100), ux_start = (\<lambda>y c. ((y, c), Ok ())), ux_kill = (\<lambda>y c s. ((y, c), Ok ())),
      ux_delete = (\<lambda>y c. ((y, c), Ok ())), ux_is_signal = (\<lambda>s. True), ux_subscribe = (\<lambda>y. Ok ()), ux_pidfd_open = (\<lambda>y p. Ok ()),
      ux_now = (\<lambda>y. (0, 0))\<rparr>"

lemma demo_image_loaded:
  "load_modules (demo_cd []) None [''application/wasm''] engine y ''c1'' = (y, Ok [\<lparr>wl_config = demo_layer, wl_layer = ''bytes''\<rparr>])"
  by (simp add: load_modules_def load_layers_def get_container_def get_image_manifest_and_digest_def get_image_def
      extract_image_content_sha_def is_wasm_layer_def demo_cd_simps)

definition demo_instance_config :: instance_config where
  "demo_instance_config =
     \<lparr>ic_stdin = [], ic_stdout = [], ic_stderr = [], ic_bundle = ''/bundle'', ic_namespace = ''default'',
      ic_containerd_address = ''/run/containerd.sock'', ic_config = default_config\<rparr>"

theorem container_is_built_from_its_image_witness:
  "\<exists>w' i a. unix_new (engine_oci_env (demo_cd []) None [''application/wasm''] image_env)
       \<lparr>uw_os = ([], 0), uw_client = False, uw_zygotes = [], uw_cells = [], uw_tasks = []\<rparr> ''c1'' demo_instance_config = (w', Ok i)
     \<and> uw_zygotes w' ! un_zygote i = Some a \<and> ba_bundle a = ''/bundle''
     \<and> ba_modules a = [\<lparr>wl_config = demo_layer, wl_layer = ''bytes''\<rparr>]
     \<and> snd (exec demo_fs (can_handle demo_fs) (\<lambda>_. Ok 3) ''wasmtime'' (executor_new (ba_modules a)) None) = ProcessExit 3"
proof -
  let ?env = "engine_oci_env (demo_cd []) None [''application/wasm''] image_env"
  let ?w = "\<lparr>uw_os = ([], 0), uw_client = False, uw_zygotes = [], uw_cells = [], uw_tasks = []\<rparr>"
  obtain w' i where n: "unix_new ?env ?w ''c1'' demo_instance_config = (w', Ok i)"
    by (simp add: unix_new_def oci_client_def engine_oci_env_def image_env_def demo_image_loaded container_build_def run_init_def run_impl_def
        build_container_def determine_rootdir_def demo_instance_config_def path_join_def is_absolute_def
        DEFAULT_CONTAINER_ROOT_DIR_def Let_def)
  obtain y y1 r a y2 c where b: "load_modules (demo_cd []) None [''application/wasm''] (ux_name image_env) y ''c1'' = (y1, r)"
    "ux_build image_env y1 a = (y2, Ok c)" "uw_zygotes w' ! un_zygote i = Some c" "ba_bundle a = ic_bundle demo_instance_config"
    and m: "case r of Ok ls \<Rightarrow> ba_modules a = ls \<and> image_layers (demo_cd []) y [''application/wasm''] ''c1'' (map wl_config ls)
      | _ \<Rightarrow> ba_modules a = []"
    and x: "\<forall>f guest shim spec. ba_modules a \<noteq> [] \<longrightarrow> snd (exec f (can_handle f) guest shim (executor_new (ba_modules a)) spec)
         = (case guest \<lparr>ctx_process = spec, wasm_layers = ba_modules a\<rparr> of
              Ok code \<Rightarrow> ProcessExit code | Err _ \<Rightarrow> ProcessExit 137 | Panic m \<Rightarrow> ProcessPanic m)"
    using container_is_built_from_its_image [OF n] by blast
  have ms: "ba_modules a = [\<lparr>wl_config = demo_layer, wl_layer = ''bytes''\<rparr>]" using b(1) m by (auto simp: demo_image_loaded)
  moreover have "snd (exec demo_fs (can_handle demo_fs) (\<lambda>_. Ok 3) ''wasmtime'' (executor_new (ba_modules a)) None) = ProcessExit 3"
    using x ms by simp
  ultimately show ?thesis using n b(2,3,4) by (auto simp: image_env_def demo_instance_config_def)
qed

end
