(* ===== verification/Trace_Context.thy ===== *)
theory Trace_Context
  imports Shim_Main
begin

text \<open>
  The trace context across processes (\<open>containerd-shimkit/src/sandbox/cli.rs\<close>, \<open>shim_main_inner\<close>, and \<open>get_trace_context\<close> and
  \<open>set_trace_context\<close> of \<open>otel.rs\<close>). containerd runs the shim binary, which runs itself again as the shim process; the context of the first
  process travels as JSON in the environment variable \<open>TRACECONTEXT\<close>. Here a line of processes is run one after the other, each
  with the environment that its parent left.
\<close>

section \<open>Processes and their environments\<close>

text \<open>\<open>std::env::set_var\<close>, and the environment that a child inherits.\<close>

fun env_act :: "env \<Rightarrow> action \<Rightarrow> env" where
  "env_act e (SetVar k v) = e(k \<mapsto> Unicode v)"
| "env_act e _ = e"

definition env_after :: "env \<Rightarrow> action list \<Rightarrow> env" where
  "env_after e l = foldl env_act e l"

type_synonym main_process = "main_env \<times> string list \<times> string \<times> version \<times> config option"

fun descend :: "env \<Rightarrow> main_process list \<Rightarrow> action list list" where
  "descend e [] = []"
| "descend e ((me, os_args, nm, v, cfg) # ps) =
     (let l = fst (shim_main me e os_args nm v cfg) in l # descend (env_after e l) ps)"

section \<open>What a process does with the context\<close>

fun traced :: "action \<Rightarrow> bool" where
  "traced (SetParent m) = True"
| "traced (SetVar k v) = True"
| "traced (RunShim n c) = True"
| "traced _ = False"

definition context_steps :: "main_env \<Rightarrow> env \<Rightarrow> string \<Rightarrow> config option \<Rightarrow> action list" where
  "context_steps me e nm cfg =
     (case var e ''TRACECONTEXT'' of
        Ok ctx \<Rightarrow> (case me_from_json me ctx of Ok m \<Rightarrow> [SetParent m, RunShim nm cfg] | _ \<Rightarrow> [])
      | _ \<Rightarrow> (case me_to_json me (me_inject me) of Ok s \<Rightarrow> [SetVar ''TRACECONTEXT'' s, RunShim nm cfg] | _ \<Rightarrow> []))"

lemma inner_traced:
  assumes "me_opentelemetry me"
  shows "filter traced (fst (shim_main_inner me e nm cfg l)) = filter traced l @ context_steps me e nm cfg"
proof (cases "var e ''TRACECONTEXT''")
  case (Ok ctx)
  then show ?thesis using assms
    by (cases "me_from_json me ctx")
      (simp_all add: shim_main_inner_def context_steps_def set_trace_context_def unwrap_main_def act_def)
next
  case (Err x)
  then show ?thesis using assms
    by (cases "me_to_json me (me_inject me)")
      (simp_all add: shim_main_inner_def context_steps_def get_trace_context_def unwrap_main_def act_def)
next
  case (Panic x)
  then show ?thesis using assms
    by (cases "me_to_json me (me_inject me)")
      (simp_all add: shim_main_inner_def context_steps_def get_trace_context_def unwrap_main_def act_def)
qed

lemma log_mem_traced: "filter traced (fst (log_mem me l)) = filter traced l"
  by (cases "get_mem me (me_pid me)"; cases "get_mem me (me_zygote_pid me)") (simp_all add: log_mem_def act_def)

lemma traced_traced:
  assumes "me_opentelemetry me"
  shows "filter traced (fst (shim_main_traced me e nm cfg l)) \<in> {filter traced l, filter traced l @ context_steps me e nm cfg}"
proof (cases "build_from_env (me_default_protocol me) e")
  case (Ok oc)
  then show ?thesis
    using inner_traced [OF assms, of e nm cfg "l @ [OtelInit (init_tracer oc)]"]
    by (cases "me_otel_init me (init_tracer oc)") (auto simp: shim_main_traced_def split: prod.splits)
qed (simp_all add: shim_main_traced_def)

text \<open>A process that gets that far does these steps, and no process does anything else with the context.\<close>

lemma shim_main_context:
  assumes "me_opentelemetry me"
  shows "filter traced (fst (shim_main me e os_args nm v cfg)) \<in> {[], context_steps me e nm cfg}"
proof (cases os_args)
  case (Cons a as)
  show ?thesis
  proof (cases "me_parse me as")
    case (Ok fl)
    define c where "c = (case cfg of Some c \<Rightarrow> c | None \<Rightarrow> me_default_config me)"
    let ?l = "init_zygote_and_logger (f_debug fl) c []"
    let ?b = "if me_opentelemetry me \<and> traces_enabled e then shim_main_traced me e nm cfg ?l else shim_main_inner me e nm cfg ?l"
    have l: "filter traced ?l = []" by (simp add: init_zygote_and_logger_def)
    have b: "filter traced (fst ?b) \<in> {[], context_steps me e nm cfg}"
      using inner_traced [OF assms, of e nm cfg ?l] traced_traced [OF assms, of e nm cfg ?l] l by auto
    have "filter traced (fst (st_then ?b (\<lambda>l _. log_mem me l))) \<in> {[], context_steps me e nm cfg}"
      by (rule fst_st_then_keep [where P = "\<lambda>l. filter traced l \<in> {[], context_steps me e nm cfg}", OF b])
        (simp add: log_mem_traced)
    then show ?thesis using Cons Ok by (auto simp: shim_main_def Let_def c_def [symmetric])
  qed (use Cons in \<open>simp_all add: shim_main_def\<close>)
qed (simp add: shim_main_def)

lemma run_traced:
  assumes "RunShim n c \<in> set l" and "filter traced l \<in> {[], [a, RunShim nm cfg]}" and "a \<noteq> RunShim n c"
  shows "filter traced l = [a, RunShim n c]"
proof -
  have "RunShim n c \<in> set (filter traced l)" using assms(1) by simp
  then show ?thesis using assms(2,3) by (auto simp del: set_filter)
qed

section \<open>The environment\<close>

lemma env_after_traced: "env_after e l = env_after e (filter traced l)"
proof (induction l arbitrary: e)
  case (Cons a l)
  then show ?case by (cases a) (simp_all add: env_after_def)
qed simp

lemma env_after_simps [simp]:
  "env_after e [] = e" "env_after e [SetParent m, RunShim n c] = e"
  "env_after e [SetVar k v, RunShim n c] = e(k \<mapsto> Unicode v)"
  by (simp_all add: env_after_def)

text \<open>Once the variable is there, it stays, and every process has the same parent.\<close>

lemma descend_context:
  assumes "var e ''TRACECONTEXT'' = Ok s" and "\<forall>(me, os_args, nm, v, cfg) \<in> set ps. me_opentelemetry me \<and> me_from_json me s = Ok m"
    and "l \<in> set (descend e ps)" and "RunShim n c \<in> set l"
  shows "filter traced l = [SetParent m, RunShim n c]"
  using assms
proof (induction ps arbitrary: e)
  case (Cons p ps)
  obtain me os_args nm v cfg where p: "p = (me, os_args, nm, v, cfg)" by (metis prod.exhaust)
  let ?l = "fst (shim_main me e os_args nm v cfg)"
  have steps: "context_steps me e nm cfg = [SetParent m, RunShim nm cfg]"
    using Cons.prems(1,2) p by (simp add: context_steps_def)
  have t: "filter traced ?l \<in> {[], [SetParent m, RunShim nm cfg]}"
    using shim_main_context [of me e os_args nm v cfg] Cons.prems(2) p unfolding steps by simp
  then have e: "env_after e ?l = e" by (subst env_after_traced) auto
  consider "l = ?l" | "l \<in> set (descend e ps)" using Cons.prems(3) p e by (auto simp: Let_def)
  then show ?case
  proof cases
    case 1
    then show ?thesis using run_traced [OF Cons.prems(4), of "SetParent m" nm cfg] t by simp
  next
    case 2
    then show ?thesis using Cons.IH [OF Cons.prems(1) _ _ Cons.prems(4)] Cons.prems(2) by auto
  qed
qed simp

text \<open>C36: The trace context makes the round trip through the environment. In a line of processes, each started with the
  environment of the one before, where the first has no (readable) \<open>TRACECONTEXT\<close> and gets as far as running the shim: it sets the
  variable, once, before it runs the shim, and every later process that runs the shim has first been given exactly the
  context of the first one as its parent, whatever its own context is, and passes it on unchanged. It needs that telemetry is compiled
  in and that JSON gives back a map of strings that it wrote.\<close>

theorem trace_context_roundtrip:
  assumes "\<And>s. var e ''TRACECONTEXT'' \<noteq> Ok s" and "descend e ((me, os_args, nm, v, cfg) # ps) = first # later"
    and "RunShim n c \<in> set first" and "me_opentelemetry me" and "me_to_json me (me_inject me) = Ok s"
    and "\<forall>(me', os_args, nm, v, cfg) \<in> set ps. me_opentelemetry me' \<and> me_from_json me' s = Ok (me_inject me)"
  shows "filter traced first = [SetVar ''TRACECONTEXT'' s, RunShim n c]
    \<and> (\<forall>l \<in> set later. \<forall>n c. RunShim n c \<in> set l \<longrightarrow> filter traced l = [SetParent (me_inject me), RunShim n c])"
proof -
  have first: "first = fst (shim_main me e os_args nm v cfg)" and later: "later = descend (env_after e first) ps"
    using assms(2) by (auto simp: Let_def)
  have "\<not> is_ok (var e ''TRACECONTEXT'')" using assms(1) by (simp add: is_ok_iff)
  then have "context_steps me e nm cfg = [SetVar ''TRACECONTEXT'' s, RunShim nm cfg]"
    using assms(5) by (cases "var e ''TRACECONTEXT''") (simp_all add: context_steps_def)
  then have "filter traced first \<in> {[], [SetVar ''TRACECONTEXT'' s, RunShim nm cfg]}"
    using shim_main_context [OF assms(4), of e os_args nm v cfg] first by simp
  then have f: "filter traced first = [SetVar ''TRACECONTEXT'' s, RunShim n c]"
    using run_traced [OF assms(3), of "SetVar ''TRACECONTEXT'' s" nm cfg] by simp
  have "env_after e first = e(''TRACECONTEXT'' \<mapsto> Unicode s)" by (subst env_after_traced) (simp add: f)
  then have v: "var (env_after e first) ''TRACECONTEXT'' = Ok s" by (simp add: var_def)
  show ?thesis using f descend_context [OF v assms(6)] later by blast
qed

theorem trace_context_roundtrip_witness:
  "\<exists>first child grandchild. descend (\<lambda>_. None)
       [(demo_main_env\<lparr>me_inject := [(''traceparent'', ''00-1'')], me_to_json := (\<lambda>m. Ok (snd (hd m)))\<rparr>,
           [''shim'', ''start''], ''wasmtime'', version_default, None),
        (demo_main_env\<lparr>me_from_json := (\<lambda>s. Ok [(''traceparent'', s)])\<rparr>, [''shim''], ''wasmtime'', version_default, None),
        (demo_main_env\<lparr>me_from_json := (\<lambda>s. Ok [(''traceparent'', s)])\<rparr>, [''shim''], ''wasmtime'', version_default, None)]
       = [first, child, grandchild]
     \<and> filter traced child = [SetParent [(''traceparent'', ''00-1'')], RunShim ''wasmtime'' None]
     \<and> filter traced grandchild = [SetParent [(''traceparent'', ''00-1'')], RunShim ''wasmtime'' None]"
proof -
  let ?p = "demo_main_env\<lparr>me_inject := [(''traceparent'', ''00-1'')], me_to_json := (\<lambda>m. Ok (snd (hd m)))\<rparr>"
  let ?c = "demo_main_env\<lparr>me_from_json := (\<lambda>s. Ok [(''traceparent'', s)])\<rparr>"
  let ?ps = "[(?c, [''shim''], ''wasmtime'', version_default, None), (?c, [''shim''], ''wasmtime'', version_default, None)]"
  obtain first child grandchild where d: "descend (\<lambda>_. None) ((?p, [''shim'', ''start''], ''wasmtime'', version_default, None) # ?ps)
      = [first, child, grandchild]" by (simp add: Let_def)
  have "RunShim ''wasmtime'' None \<in> set first \<and> RunShim ''wasmtime'' None \<in> set child \<and> RunShim ''wasmtime'' None \<in> set grandchild"
    using d
    by (auto simp: Let_def shim_main_def demo_main_env_def traces_enabled_def check_env_var_def var_os_def shim_main_inner_def
        var_def get_trace_context_def set_trace_context_def unwrap_main_def act_def log_mem_def get_mem_def env_after_def
        init_zygote_and_logger_def otel_names)
  then show ?thesis
    using d trace_context_roundtrip [OF _ d, of "''wasmtime''" None "''00-1''"]
    by (auto simp: var_def demo_main_env_def)
qed

end
