(* ===== verification/Spec2Isabelle.thy ===== *)
theory Spec2Isabelle
  imports Instance_Locking Local_Interleaving Local_Refinement Engines Tar_Tool Wasmtime_Config Content_Upload
    Client_Tests Logger Test_Harness Demo_App Stress_Main Container_Isolation Task_Rpc Shim_Traits Unit_Tests Platform_Io
    Image_To_Process Trace_Context
begin

text \<open>
  A verification development of runwasi, the library and the shims that let containerd run WebAssembly
  workloads.

  \<^bold>\<open>The program.\<close> containerd starts one shim process per pod and asks it over ttrpc to create, start, kill, delete
  and wait for containers. The binaries (\<open>crates/containerd-shim-wasmtime\<close>, \<open>-wasmer\<close>, \<open>-wasmedge\<close>, \<open>-wamr\<close>) are small:
  each gives an engine to \<open>crates/containerd-shim-wasm\<close>, which runs a module inside a youki container, finds the module
  in the image or in the root file system, and caches precompiled code in containerd's content store. That crate in turn
  implements the \<open>Instance\<close> trait of \<open>crates/containerd-shimkit\<close>, which has the process entry point, the task service
  \<open>Local\<close>, the state machine of a task and the cell its exit status is waited for in. Around them are the tool that
  packs wasm files into images (\<open>crates/oci-tar-builder\<close>), the load generator (\<open>crates/stress-test\<close>), the test
  harness, and a demo guest.

  \<^bold>\<open>Style.\<close> Functions of the source are functions of the same name. Effects are explicit: a function that changes
  something takes the state and returns it with a \<open>result\<close>, which is \<open>Ok\<close>, \<open>Err\<close> or \<open>Panic\<close>, so that every \<open>?\<close>,
  \<open>unwrap\<close>, \<open>expect\<close> and slice out of range is a branch. Code outside the repository (containerd, youki, the engines,
  JSON, SHA-256, the file system, the clock) is a record of functions that is an argument, mostly over a world \<open>'w\<close> it may
  change; what is relied on of it is a hypothesis of the theorem, or the laws of a locale. Concurrency is a machine
  whose labels are the steps of the threads, and its properties are invariants of all runs (locale \<open>machine\<close> of \<open>Base\<close>).
  Pids, signals, exit codes and counters are words of their width.

  \<^bold>\<open>The theories, from the bottom up.\<close>

  \<^item> \<open>Base\<close>: results, strings, decimal numbers, paths, association lists, and the locale \<open>machine\<close>.

  \<^item> \<open>Errors\<close> (\<open>sandbox/error.rs\<close>): the errors of the library and their ttrpc codes.

  \<^item> \<open>Task_State\<close>, \<open>Waitable_Cell\<close>, \<open>Instance_Cfg\<close>, \<open>Hooks\<close>, \<open>Instance_Data\<close> (\<open>sandbox/shim/task_state.rs\<close>, \<open>sync.rs\<close>,
    \<open>instance.rs\<close>, \<open>oci.rs\<close>, \<open>shim/instance_data.rs\<close>): transitions and their refusals; a cell whose waiters are
    never left behind by a set, as interleaved steps with \<open>Notify\<close>; the configuration of an instance; prestart hooks;
    and the operations of a task over an instance, with the locale \<open>instance_contract\<close> for what an \<open>Instance\<close> promises.

  \<^item> \<open>Instance_Locking\<close>: the same operations as threads that share the \<open>RwLock\<close> of the task state: transitions whose
    result the code drops are never refused, an instance is started at most once, and a delete can run twice.

  \<^item> \<open>Local_Service\<close> (\<open>sandbox/shim/local.rs\<close>, \<open>events.rs\<close>): every handler of the task service. \<open>Local_Lifecycle\<close> shows
    for all sequences of requests and background steps that the state stays well formed and that the events are a
    correct history; \<open>Local_Refinement\<close> that each step is one move in the
    life cycle of one container, the abstract specification of the service; \<open>Local_Replies\<close> what the replies mean and when
    the shim exits; \<open>Local_Interleaving\<close> that a handler
    whose steps are not interrupted is the sequential one, and what remains true, and what does not, when they are.

  \<^item> \<open>Unix_Instance\<close>, \<open>Unix_Service\<close> (\<open>containerd-shim-wasm/src/sys/unix\<close>, \<open>sandbox/shim/shim.rs\<close>): the youki instance,
    pidfd and its reaper, and the \<open>Shim\<close>; the instance fulfils the contract, so the exit status of a container
    is always set, a failed start included. \<open>Unix_Node\<close> runs the service of \<open>Local_Service\<close> over that instance, with its
    exit tasks, as one machine: a reported status is that of the container's own process, and every start is
    followed by an exit. \<open>Container_Isolation\<close> shows on the same machine that no step of one container changes what containerd is
    told about another, one lemma per operation. \<open>Guest_Status\<close> follows a status from the engine through executor, kernel, pidfd and exit task to
    the replies. \<open>Image_To_Process\<close> puts the content client into the instance and follows the layers of an image into the executor
    of its container. \<open>Task_Rpc\<close> has the methods of the ttrpc service as containerd sees them, with the locale \<open>internal_errors\<close>
    for the errors of an instance: the status code of a reply tells exactly why it was refused.

  \<^item> \<open>Sandbox_Context\<close> (\<open>sandbox/context.rs\<close>, \<open>path.rs\<close>, \<open>mod.rs\<close>, \<open>executor.rs\<close>): entrypoint, search in \<open>PATH\<close>, and the
    decision between wasm and native, which is taken once.

  \<^item> \<open>Content_Client\<close>, \<open>Content_Upload\<close> (\<open>containerd/client.rs\<close>, \<open>lease.rs\<close>): loading the layers of an image, the cache of
    precompiled layers, uploads in chunks, leases. \<open>Content_Cache\<close> states containerd's contract, its garbage collector
    included, as the locale \<open>content_store\<close>, proves in it that a load fills a cache that survives every collection, and
    interprets it by a store in memory, on which \<open>Client_Tests\<close> evaluates the tests of the client. \<open>Cache_Coherence\<close> extends the locale to
    \<open>steady_store\<close>, which covers calls that fail, and shows for all sequences of loads, by all engines, that the cache is transparent:
    a load gives what compiling the image afresh would give, and for wasmtime a container then does what it does with the
    layers of the image.

  \<^item> \<open>Wasmtime_Shim\<close>, \<open>Wasmtime_Config\<close>, \<open>Engines\<close>: what the four engines do with a module, exit statuses and signals, the
    http proxy as a machine, and a locale \<open>sandbox_engine\<close> that all four interpret.

  \<^item> \<open>Shim_Main\<close>, \<open>Logger\<close> (\<open>sandbox/cli.rs\<close>, \<open>shim/otel.rs\<close>, \<open>vendor/containerd_shim/logger.rs\<close>): the entry point as the
    list of its actions, telemetry from the environment, and the logger. \<open>Trace_Context\<close> runs a line of such processes and follows the
    trace context through their environments. \<open>Shim_Traits\<close> has what each shim gives the common
    code, and what separates engines on a node; \<open>Windows_Support\<close> the instance of Windows that makes no tasks, and its log pipe
    as a machine of the logging threads and the thread that waits for clients; \<open>Platform_Io\<close> how metrics are read and the standard
    streams opened on both platforms.

  \<^item> \<open>Tar_Builder\<close>, \<open>Tar_Tool\<close> (\<open>oci-tar-builder/src/lib.rs\<close>, \<open>bin.rs\<close>): the archive of an image, and the tool's
    output file.

  \<^item> \<open>Stress_Test\<close>, \<open>Stress_Client\<close>, \<open>Stress_Mock\<close>, \<open>Stress_Main\<close> (\<open>stress-test/src\<close>): the scheduler as a machine, the
    containerd client as a history of requests, the generator composed with the task service of \<open>Local_Service\<close>, and its main
    program with what it cleans up.

  \<^item> \<open>Test_Harness\<close>, \<open>Demo_App\<close> (\<open>containerd-shim-wasm/src/testing.rs\<close>, \<open>wasi-demo-app\<close>, the build scripts): the harness
    that runs one instance and drives \<open>ctr\<close>, and the demo guest from its image to what it prints.

  \<^item> \<open>Unit_Tests\<close>: the unit tests that stand in the sources, as predicates on the model, and that they pass.

  \<^item> This theory: properties of several of these parts together, first of all that the exit status containerd is told is the one that
    the code in the container's image gives, through cache, compiler, executor, engine, pidfd and task service.

  \<^bold>\<open>What is shown.\<close> Of the state: well-formedness of the service in every reachable state, one instance per id, and
  the invariants of the cell, the lock, the proxy and the scheduler. Of events: per container the word
  \<open>(TaskCreate TaskStart? TaskDelete)*\<close>, exits only after their start and once, also with interleaved requests, with the status of the container's own
  process; what is reported of one container is not changed by the others. Of failures:
  a failed start leaves an exit status that can be waited for; leases are released and tasks of the load
  generator deleted whatever fails; a tool that fails leaves no partial file. Of data: the layers that are loaded
  are those of the manifest, a second load comes out of the cache, the cache is transparent over all sequences of loads, uploads are complete and bounded in number and size of messages, archives are content
  addressed, entrypoints, labels and trace contexts are read back as they were written. Where the code does not do what it means to,
  the theorem states what it does; those cases are listed as findings beside the development.

  \<^bold>\<open>Bounds and termination.\<close> There is no fuel. Loops over data are structural or have a measure (\<open>write_chunks\<close>). The
  two loops that need not end, \<open>reap_children\<close> and \<open>wait_for_content_removal\<close>, are partial functions into \<open>option\<close>, and
  are proved to return when the kernel makes progress with every signal and the clock with every command. Futures
  that wait for something are polls, repeated by the labels of the machine.

  \<^bold>\<open>Not modelled.\<close> The exporters and subscribers of
  OpenTelemetry, the progress output of the load generator and \<open>async_utils.rs\<close> are calls into other crates; the end-to-end tests
  and the benchmarks run containers. Memory ordering below the level of the lock, the notifier and the once-cell, and the file
  system below the calls that are made, are taken as atomic steps.
\<close>

section \<open>From the image to the exit status\<close>


text \<open>The container \<open>c1\<close> of \<open>demo_started\<close>, with an image of one module in a store in memory; the guest exits with 298.\<close>

definition demo_store :: mem where
  "demo_store = demo_node
     \<lparr>mm_store := (mm_store demo_node)\<lparr>cs_blob := [''sha256:'' @ wasm_magic \<mapsto> wasm_magic, ''sha256:img'' \<mapsto> ''img'', ''sha256:cfg'' \<mapsto> ''cfg'']\<rparr>,
      mm_images := [''app'' \<mapsto> ''sha256:img''], mm_containers := [''c1'' \<mapsto> ''app'']\<rparr>"

definition demo_parse :: "string \<Rightarrow> (manifest, string) result" where
  "demo_parse _ = Ok \<lparr>mf_config = \<lparr>media_type = [], digest = ''sha256:cfg''\<rparr>, mf_layers = [demo_magic_layer]\<rparr>"

lemma demo_store_warm: "warm (\<lambda>b. b) cc demo_images (mem_abs demo_store)"
proof -
  have "cs_labels (mem_abs demo_store) = cs_labels (mem_abs demo_node)" "cs_roots (mem_abs demo_store) = cs_roots (mem_abs demo_node)"
    by (simp_all add: demo_store_def)
  then show ?thesis
    using demo_node_warm [of cc] by (simp add: warm_def images_ok_def image_ok_def coherent_def)
qed

lemma demo_store_loads:
  "\<exists>y'. load_modules (mem_cd demo_parse) (Some (wasmtime_compiler demo_engine 1)) [''application/wasm''] ''wasmtime'' demo_store ''c1''
     = (y', Ok [\<lparr>wl_config = demo_magic_layer, wl_layer = ''ELF'' @ wasm_magic\<rparr>])"
  by (simp add: load_modules_def get_container_def get_image_manifest_and_digest_def get_image_def extract_image_content_sha_def
      is_wasm_layer_def demo_store_def demo_parse_def demo_node_def demo_load_simps precompile_label_def PRECOMPILE_PREFIX_def gc_label_def)


section \<open>One load test, one shim\<close>

text \<open>The tasks of one run of the load generator get different ids for \<open>2^64\<close> tasks, and the shim puts all of them,
  whatever their ids, arguments and root, into the one group of the run: \<open>start_shim\<close> of every task spawns or finds
  the same server process, so that the run measures one shim.\<close>

theorem load_test_uses_one_shim:
  "(snd (make_task_id pid m) = snd (make_task_id pid n) \<longleftrightarrow> m = n)
   \<and> start_shim (Ok dir)
       (\<lambda>_. Ok \<lparr>sp_root = root, sp_hooks = hooks, sp_annotations = Some (tk_annotations (ctask_spec pid readonly as))\<rparr>)
       spawn_shim write_address cid
     = and_then (spawn_shim cid (''sandbox-'' @ show_nat (unat pid))) (\<lambda>address.
       and_then (write_address address) (\<lambda>_. Ok address))"
proof
  show "snd (make_task_id pid m) = snd (make_task_id pid n) \<longleftrightarrow> m = n"
    using show_nat_inj [of "unat m" "unat n"] by (auto simp: make_task_id_def word_unat_eq_iff)
qed (simp add: start_shim_def grouping_def ctask_spec_def)

end
